(* ===== verification/Prelude.thy ===== *)
theory Prelude
  imports Complex_Main "HOL-Library.Multiset"
begin

text \<open>
  Shared vocabulary of the development: the JavaScript idioms that the location
  enhancer (\<open>src/src/store/locationEnhancer.js\<close>) uses everywhere, written once.
  \<^item> \<open>js_or x d\<close> is the expression \<open>x || d\<close> on a value that is either absent
    (\<open>undefined\<close>/\<open>null\<close>, modelled as \<open>None\<close>) or a number: the default is taken
    when the value is absent or zero, because \<open>0\<close> is falsy in JavaScript.
  \<^item> \<open>mean xs\<close> is \<open>xs.reduce((s, x) => s + x, 0) / xs.length\<close>.
  \<^item> A coordinate is the pair \<open>(lat, lon)\<close>; a distance function takes two coordinates,
    as \<open>calculateDistanceInMeters\<close> takes two \<open>{lat, lon}\<close> objects.
  JavaScript numbers are modelled as real numbers (for coordinates and distances) and
  as integers (for times): rounding of IEEE doubles is not modelled.
\<close>

named_theorems model_simps "evaluation rules for the model's definitions on concrete inputs"

type_synonym coord = "real \<times> real"
type_synonym dist_fn = "coord \<Rightarrow> coord \<Rightarrow> real"

definition js_or :: "'a::zero option \<Rightarrow> 'a \<Rightarrow> 'a" where
  "js_or x d = (case x of None \<Rightarrow> d | Some v \<Rightarrow> if v = 0 then d else v)"

definition mean :: "real list \<Rightarrow> real" where
  "mean xs = foldl (\<lambda>s x. s + x) 0 xs / real (length xs)"

subsection \<open>Generic lemmas\<close>

declare mean_def [model_simps] Let_def [model_simps] upt_conv_Cons [model_simps]

lemma js_or_None [simp, model_simps]: "js_or None d = d"
  by (simp add: js_or_def)

lemma js_or_Some [simp, model_simps]: "js_or (Some v) d = (if v = 0 then d else v)"
  by (simp add: js_or_def)

lemma js_or_idem: "js_or (Some (js_or a b)) b = js_or a b"
  by (cases a) simp_all

lemma foldl_plus_sum_list: "foldl (\<lambda>s x. s + x) a xs = a + sum_list (xs :: real list)"
  by (induction xs arbitrary: a) (simp_all add: algebra_simps)

lemma mean_sum_list: "mean xs = sum_list xs / real (length xs)"
  by (simp add: mean_def foldl_plus_sum_list)

lemma mean_replicate [simp]: "0 < k \<Longrightarrow> mean (replicate k x) = x"
  by (simp add: mean_sum_list sum_list_replicate)

lemma mean_map_const: "xs \<noteq> [] \<Longrightarrow> mean (map (\<lambda>_. c) xs) = c"
  by (simp add: mean_sum_list sum_list_triv)

lemma sorted_wrt_less_append_single:
  "sorted_wrt (<) (xs @ [x]) \<longleftrightarrow> sorted_wrt (<) xs \<and> (\<forall>y\<in>set xs. y < (x::nat))"
  by (simp add: sorted_wrt_append)

lemma mset_map_filter_sort_key:
  "mset (map g (filter P (sort_key f xs))) = mset (map g (filter P xs))"
  by simp

lemma sorted_less_length_bound:
  assumes "sorted_wrt (<) xs" and "set xs \<subseteq> {..<n}"
  shows "length xs \<le> n"
proof -
  have "distinct xs" using assms(1) by (simp add: strict_sorted_iff)
  then have "length xs = card (set xs)" by (simp add: distinct_card)
  also have "\<dots> \<le> card {..<n}" using assms(2) by (rule card_mono [OF finite_lessThan])
  finally show ?thesis by simp
qed

lemma sorted_hd_Min: "sorted (map f xs) \<Longrightarrow> xs \<noteq> [] \<Longrightarrow> f (hd xs) = Min (f ` set xs)"
  by (cases xs) (auto intro: Min_insert2 [symmetric])

lemma sorted_last_Max: "sorted (map f xs) \<Longrightarrow> xs \<noteq> [] \<Longrightarrow> f (last xs) = Max (f ` set xs)"
  by (cases xs rule: rev_exhaust) (auto simp: sorted_append intro: Max_insert2 [symmetric])

lemma two_le_length_nonempty: "2 \<le> length xs \<Longrightarrow> xs \<noteq> []"
  by (cases xs) auto

lemma upt_append_split: "i \<le> j \<Longrightarrow> j \<le> k \<Longrightarrow> [i..<j] @ [j..<k] = [i..<k]"
  by (metis le_add_diff_inverse upt_add_eq_append)

lemma upt_prefix_split:
  assumes "[h..<Suc l] @ R = [a..<b]" and "h \<le> l"
  shows "h = a \<and> Suc l \<le> b \<and> R = [Suc l..<b]"
proof -
  have len: "Suc l - h \<le> b - a"
    using arg_cong [OF assms(1), of length] by (simp del: upt_Suc)
  have tk: "[h..<Suc l] = take (Suc l - h) [a..<b]" and dr: "R = drop (Suc l - h) [a..<b]"
    using assms(1) by (metis append_eq_conv_conj length_upt)+
  have "hd [h..<Suc l] = h"
    using assms(2) by (simp only: hd_upt le_imp_less_Suc)
  moreover have "hd (take (Suc l - h) [a..<b]) = a"
    using assms(2) len by (simp add: hd_take del: upt_Suc)
  ultimately have "h = a"
    using tk by simp
  with len dr assms(2) show ?thesis by (simp del: upt_Suc)
qed

end
