(* ===== verification/Location.thy ===== *)
theory Location
  imports Prelude
begin

text \<open>
  The data model of the location enhancer (\<open>src/src/store/locationEnhancer.js\<close>).
  \<^item> A location point is a JavaScript object from the OwnTracks recorder API.
    The enhancer reads \<open>lat\<close>, \<open>lon\<close>, \<open>tst\<close>, \<open>timestamp\<close>, the store getter reads
    \<open>acc\<close>, and \<open>enhanceLocationData\<close> adds the four \<open>node_event_*\<close> fields.
    Every other field (\<open>alt\<close>, \<open>ghash\<close>, \<open>isotst\<close>, \<dots>) is passed through unchanged.
    That part is the extension slot \<open>more\<close> of the record scheme
    \<open>'m location_scheme\<close>, so an object spread \<open>{...p, f: v}\<close> is the record update
    \<open>p\<lparr>f := v\<rparr>\<close>, which keeps \<open>more\<close>.
  \<^item> A cluster is the intermediate object built by \<open>tryCreateVisitCluster\<close>
    and \<open>createTravelCluster\<close>. It is later extended with the centre (visits) and with
    the back-filled travel times (materialisation). Fields that are not yet set are
    \<open>None\<close>.
  \<^item> The string tags \<open>"visit"\<close> and \<open>"travel"\<close> of \<open>cluster.type\<close> and of
    \<open>node_event_type\<close> are the datatype \<open>kind\<close>.
\<close>

datatype kind = Visit | Travel

record location =
  lat :: real
  lon :: real
  tst :: "int option"
  timestamp :: "int option"
  acc :: "real option"
  node_event_type :: "kind option"
  node_event_id :: "nat option"
  node_event_start :: "int option"
  node_event_end :: "int option"

record cluster =
  ctype :: kind
  pointIndices :: "nat list"
  startTime :: int
  endTime :: int
  centerLat :: "real option"
  centerLon :: "real option"
  travelStartTime :: "int option"
  travelEndTime :: "int option"

text \<open>The capture time \<open>p.tst || p.timestamp || 0\<close>, used for sorting and for cluster times.\<close>

definition point_time :: "'m location_scheme \<Rightarrow> int" where
  "point_time p = js_or (tst p) (js_or (timestamp p) 0)"

definition coord :: "'m location_scheme \<Rightarrow> coord" where
  "coord p = (lat p, lon p)"

text \<open>The four assignments of \<open>enhanceLocationData\<close> that add the metadata fields
  with value \<open>null\<close> to every point (lines 27--36).\<close>

definition resetEventMetadata :: "'m location_scheme \<Rightarrow> 'm location_scheme" where
  "resetEventMetadata point =
     point\<lparr>node_event_type := None, node_event_id := None,
           node_event_start := None, node_event_end := None\<rparr>"

text \<open>
  Abstractions used by the statements (not code): the index interval a cluster spans,
  from its first to its last point index, and the well-formedness of a cluster's
  index list.
\<close>

definition cluster_span :: "cluster \<Rightarrow> nat list" where
  "cluster_span c = [hd (pointIndices c)..<Suc (last (pointIndices c))]"

definition wf_indices :: "nat list \<Rightarrow> bool" where
  "wf_indices xs \<longleftrightarrow> xs \<noteq> [] \<and> sorted_wrt (<) xs"

subsection \<open>Lemmas\<close>

declare point_time_def [model_simps] coord_def [simp, model_simps] resetEventMetadata_def [model_simps]

lemma wf_indices_snoc:
  "wf_indices (xs @ [x]) \<longleftrightarrow> sorted_wrt (<) xs \<and> (\<forall>y\<in>set xs. y < x)"
  by (simp add: wf_indices_def sorted_wrt_less_append_single)

lemma wf_indices_bounds:
  assumes "wf_indices xs" and "x \<in> set xs"
  shows "hd xs \<le> x \<and> x \<le> last xs"
  using assms unfolding wf_indices_def
proof (induction xs)
  case Nil
  then show ?case by simp
next
  case (Cons a xs)
  then show ?case
    by (cases "xs = []") (auto simp: less_imp_le)
qed

lemma wf_indices_hd_last:
  assumes "wf_indices xs"
  shows "hd xs \<le> last xs" and "hd xs \<in> set xs" and "last xs \<in> set xs"
proof -
  have ne: "xs \<noteq> []" using assms by (simp add: wf_indices_def)
  then show "hd xs \<in> set xs" and "last xs \<in> set xs" by simp_all
  then show "hd xs \<le> last xs" using wf_indices_bounds [OF assms] by blast
qed

lemma wf_indices_length:
  assumes "wf_indices xs" shows "length xs \<le> Suc (last xs) - hd xs"
proof -
  have "length xs = card (set xs)"
    using assms by (simp add: wf_indices_def strict_sorted_iff distinct_card)
  also have "\<dots> \<le> card {hd xs..<Suc (last xs)}"
    using wf_indices_bounds [OF assms] by (intro card_mono) (auto simp: less_Suc_eq_le)
  finally show ?thesis by simp
qed

lemma wf_indices_subset_span:
  "wf_indices (pointIndices c) \<Longrightarrow> set (pointIndices c) \<subseteq> set (cluster_span c)"
  using wf_indices_bounds by (fastforce simp: cluster_span_def)

end
