(* ===== verification/Transient.thy ===== *)
theory Transient
  imports Location
begin

text \<open>
  The transient-skip lookahead \<open>trySkipTransientPoints\<close>
  (\<open>locationEnhancer.js\<close>, lines 351--387). From \<open>startIndex\<close> it scans at most
  \<open>minTravelClusterSize + 1\<close> points, clipped to the end of the array, for the first
  one within \<open>clusterRadius\<close> of the given centre. The \<open>for\<close> loop over \<open>k\<close> is
  \<open>skipScan\<close>, whose measure is the distance \<open>hi - k\<close> to the loop bound. The result
  object \<open>{shouldSkip, continueFromIndex}\<close> is the record \<open>skip_result\<close>.
  The distance function is a parameter: the enhancer passes
  \<open>calculateDistanceInMeters\<close> (theory \<open>Geometry\<close>).
\<close>

record skip_result =
  shouldSkip :: bool
  continueFromIndex :: nat

function skipScan :: "dist_fn \<Rightarrow> 'm location_scheme list \<Rightarrow> coord \<Rightarrow> real \<Rightarrow> nat \<Rightarrow> nat \<Rightarrow> nat option" where
  "skipScan distance locs c clusterRadius k hi =
     (if k < hi then
        (if distance c (coord (locs ! k)) \<le> clusterRadius then Some k
         else skipScan distance locs c clusterRadius (Suc k) hi)
      else None)"
  by pat_completeness auto
termination
  by (relation "measure (\<lambda>(_, _, _, _, k, hi). hi - k)") auto

declare skipScan.simps [simp del]

definition trySkipTransientPoints ::
  "dist_fn \<Rightarrow> 'm location_scheme list \<Rightarrow> nat \<Rightarrow> real \<Rightarrow> real \<Rightarrow> real \<Rightarrow> nat \<Rightarrow> skip_result" where
  "trySkipTransientPoints distance workingLocations startIndex cLat cLon clusterRadius
      minTravelClusterSize =
     (let maxLookahead = minTravelClusterSize + 1 in
      case skipScan distance workingLocations (cLat, cLon) clusterRadius startIndex
             (min (startIndex + maxLookahead) (length workingLocations)) of
        Some k \<Rightarrow> \<lparr>shouldSkip = True, continueFromIndex = k\<rparr>
      | None \<Rightarrow> \<lparr>shouldSkip = False, continueFromIndex = startIndex\<rparr>)"

subsection \<open>The scan finds the first close point of the window\<close>

declare skipScan.simps [model_simps] trySkipTransientPoints_def [model_simps]

lemma skipScan_Some:
  "skipScan distance locs c r k hi = Some m \<Longrightarrow>
     k \<le> m \<and> m < hi \<and> distance c (coord (locs ! m)) \<le> r \<and>
     (\<forall>i. k \<le> i \<and> i < m \<longrightarrow> \<not> distance c (coord (locs ! i)) \<le> r)"
proof (induction distance locs c r k hi rule: skipScan.induct)
  case (1 distance locs c r k hi)
  show ?case
  proof (cases "k < hi \<and> \<not> distance c (coord (locs ! k)) \<le> r")
    case True
    with "1.prems" have "skipScan distance locs c r (Suc k) hi = Some m"
      by (simp add: skipScan.simps [of distance locs c r k hi])
    with True "1.IH" show ?thesis
      by (auto simp: Suc_le_eq dest: le_neq_implies_less)
  next
    case False
    with "1.prems" show ?thesis
      by (auto simp: skipScan.simps [of distance locs c r k hi] split: if_splits)
  qed
qed

lemma skipScan_None:
  "skipScan distance locs c r k hi = None \<longleftrightarrow>
     (\<forall>i. k \<le> i \<and> i < hi \<longrightarrow> \<not> distance c (coord (locs ! i)) \<le> r)"
proof (induction distance locs c r k hi rule: skipScan.induct)
  case (1 distance locs c r k hi)
  show ?case
  proof (cases "k < hi")
    case True
    then show ?thesis
      using "1.IH"
      by (auto simp: skipScan.simps [of distance locs c r k hi] Suc_le_eq dest: le_neq_implies_less)
  next
    case False
    then show ?thesis
      by (simp add: skipScan.simps [of distance locs c r k hi])
  qed
qed

text \<open>
  What the lookahead reports: either the least index of the window
  \<open>[startIndex, min (startIndex + minTravel + 1) n)\<close> whose point is within the radius of
  the centre, or failure when the whole window lies outside the radius.
\<close>

lemma trySkip_shouldSkip:
  assumes "shouldSkip (trySkipTransientPoints distance locs j cLat cLon r mt)"
  defines "k \<equiv> continueFromIndex (trySkipTransientPoints distance locs j cLat cLon r mt)"
  shows "j \<le> k \<and> k < min (j + Suc mt) (length locs) \<and> distance (cLat, cLon) (coord (locs ! k)) \<le> r \<and>
         (\<forall>i. j \<le> i \<and> i < k \<longrightarrow> \<not> distance (cLat, cLon) (coord (locs ! i)) \<le> r)"
proof -
  have "skipScan distance locs (cLat, cLon) r j (min (j + Suc mt) (length locs)) = Some k"
    using assms by (auto simp: trySkipTransientPoints_def split: option.splits)
  then show ?thesis by (rule skipScan_Some)
qed

lemma trySkip_not_shouldSkip:
  "\<not> shouldSkip (trySkipTransientPoints distance locs j cLat cLon r mt) \<longleftrightarrow>
     (\<forall>i. j \<le> i \<and> i < min (j + Suc mt) (length locs) \<longrightarrow> \<not> distance (cLat, cLon) (coord (locs ! i)) \<le> r)"
proof -
  have "\<not> shouldSkip (trySkipTransientPoints distance locs j cLat cLon r mt) \<longleftrightarrow>
        skipScan distance locs (cLat, cLon) r j (min (j + Suc mt) (length locs)) = None"
    by (auto simp: trySkipTransientPoints_def split: option.splits)
  then show ?thesis by (simp only: skipScan_None)
qed

lemma trySkip_continue_gt:
  assumes "shouldSkip (trySkipTransientPoints distance locs j cLat cLon r mt)"
    and "\<not> distance (cLat, cLon) (coord (locs ! j)) \<le> r"
  shows "j < continueFromIndex (trySkipTransientPoints distance locs j cLat cLon r mt) \<and>
         continueFromIndex (trySkipTransientPoints distance locs j cLat cLon r mt) < length locs"
  using trySkip_shouldSkip [OF assms(1)] assms(2)
  by (metis le_less min_less_iff_conj)

lemma skipScan_Least:
  "skipScan distance locs c r k hi =
     (if \<exists>i. k \<le> i \<and> i < hi \<and> distance c (coord (locs ! i)) \<le> r
      then Some (LEAST i. k \<le> i \<and> i < hi \<and> distance c (coord (locs ! i)) \<le> r) else None)"
proof (cases "skipScan distance locs c r k hi")
  case None
  then show ?thesis using skipScan_None [of distance locs c r k hi] by auto
next
  case (Some m)
  note m = skipScan_Some [OF Some]
  have "(LEAST i. k \<le> i \<and> i < hi \<and> distance c (coord (locs ! i)) \<le> r) = m"
    using m by (intro Least_equality) (auto simp: not_le [symmetric])
  then show ?thesis using Some m by auto
qed

text \<open>
  C31. The lookahead is the search it means to be: \<open>trySkipTransientPoints\<close> reports a
  skip exactly when some point of the window
  \<open>[startIndex, min (startIndex + minTravelClusterSize + 1) n)\<close> lies within the radius of
  the centre, and then resumes at the least such index; otherwise it reports no skip and
  leaves the cursor at \<open>startIndex\<close>.
\<close>

theorem lookahead_least_return:
  "trySkipTransientPoints distance locs j cLat cLon r mt =
     (if \<exists>k. j \<le> k \<and> k < min (j + Suc mt) (length locs) \<and> distance (cLat, cLon) (coord (locs ! k)) \<le> r
      then \<lparr>shouldSkip = True,
            continueFromIndex = LEAST k. j \<le> k \<and> k < min (j + Suc mt) (length locs) \<and>
                                       distance (cLat, cLon) (coord (locs ! k)) \<le> r\<rparr>
      else \<lparr>shouldSkip = False, continueFromIndex = j\<rparr>)"
  by (auto simp add: trySkipTransientPoints_def skipScan_Least)

end
