(* ===== verification/Visit.thy ===== *)
theory Visit
  imports Transient
begin

text \<open>
  Visit-cluster growth \<open>tryCreateVisitCluster\<close> (\<open>locationEnhancer.js\<close>, lines 212--297).
  The function keeps four local variables across its \<open>while\<close> loop: the \<open>cluster\<close>
  object, the centre \<open>centerLat\<close>/\<open>centerLon\<close> and the cursor \<open>j\<close>. They are the
  record \<open>visit_state\<close>, and the loop (lines 237--280) is \<open>growVisit\<close>, one call per
  iteration:
  \<^item> the point at \<open>j\<close> is within \<open>clusterRadius\<close> of the centre: its index is
    appended, \<open>endTime\<close> becomes its time, the centre is recomputed as the mean of all
    absorbed points, and \<open>j\<close> advances by one;
  \<^item> otherwise \<open>trySkipTransientPoints\<close> looks ahead; on success \<open>j\<close> jumps to the
    return point (the skipped points are not absorbed), on failure the loop breaks.
  The loop terminates because \<open>length locs - j\<close> decreases: a jump goes strictly forward,
  since the point at \<open>j\<close> itself is outside the radius (\<open>trySkip_continue_gt\<close>).
  The result object \<open>{success, cluster, nextIndex}\<close> is the record \<open>visit_result\<close>;
  \<open>resultCluster\<close> is \<open>None\<close> where the source leaves \<open>cluster\<close> out.
\<close>

record visit_state =
  vcl :: cluster
  vLat :: real
  vLon :: real
  vj :: nat

record visit_result =
  success :: bool
  resultCluster :: "cluster option"
  nextIndex :: nat

text \<open>Absorbing the point at \<open>j\<close> (lines 244--259).\<close>

definition absorbPoint :: "'m location_scheme list \<Rightarrow> visit_state \<Rightarrow> visit_state" where
  "absorbPoint workingLocations s =
     (let cl = (vcl s)\<lparr>pointIndices := pointIndices (vcl s) @ [vj s],
                       endTime := point_time (workingLocations ! vj s)\<rparr>
      in \<lparr>vcl = cl,
          vLat = mean (map (\<lambda>idx. lat (workingLocations ! idx)) (pointIndices cl)),
          vLon = mean (map (\<lambda>idx. lon (workingLocations ! idx)) (pointIndices cl)),
          vj = Suc (vj s)\<rparr>)"

function growVisit :: "dist_fn \<Rightarrow> 'm location_scheme list \<Rightarrow> real \<Rightarrow> nat \<Rightarrow> visit_state \<Rightarrow> visit_state" where
  "growVisit distance locs clusterRadius minTravelClusterSize s =
     (if vj s < length locs then
        (if distance (vLat s, vLon s) (coord (locs ! vj s)) \<le> clusterRadius then
           growVisit distance locs clusterRadius minTravelClusterSize (absorbPoint locs s)
         else
           (let skipResult = trySkipTransientPoints distance locs (vj s) (vLat s) (vLon s)
                               clusterRadius minTravelClusterSize
            in if shouldSkip skipResult
               then growVisit distance locs clusterRadius minTravelClusterSize
                      (s\<lparr>vj := continueFromIndex skipResult\<rparr>)
               else s))
      else s)"
  by pat_completeness auto
termination
  by (relation "measure (\<lambda>(_, locs, _, _, s). length locs - vj s)")
    (auto simp: absorbPoint_def Let_def dest: trySkip_continue_gt)

declare growVisit.simps [simp del]

text \<open>The state before the first iteration (lines 219--234): the cluster holds the start
  point only, the centre is that point, and the cursor is the next index.\<close>

definition visitSeed :: "'m location_scheme list \<Rightarrow> nat \<Rightarrow> visit_state" where
  "visitSeed workingLocations startIndex =
     (let p = workingLocations ! startIndex
      in \<lparr>vcl = \<lparr>ctype = Visit, pointIndices = [startIndex],
                  startTime = point_time p, endTime = point_time p,
                  centerLat = None, centerLon = None,
                  travelStartTime = None, travelEndTime = None\<rparr>,
          vLat = lat p, vLon = lon p, vj = Suc startIndex\<rparr>)"

definition tryCreateVisitCluster ::
  "dist_fn \<Rightarrow> 'm location_scheme list \<Rightarrow> nat \<Rightarrow> real \<Rightarrow> nat \<Rightarrow> nat \<Rightarrow> visit_result" where
  "tryCreateVisitCluster distance workingLocations startIndex clusterRadius minVisitClusterSize
      minTravelClusterSize =
     (let s = growVisit distance workingLocations clusterRadius minTravelClusterSize
                (visitSeed workingLocations startIndex)
      in if minVisitClusterSize \<le> length (pointIndices (vcl s))
         then \<lparr>success = True,
               resultCluster = Some ((vcl s)\<lparr>centerLat := Some (vLat s), centerLon := Some (vLon s)\<rparr>),
               nextIndex = vj s\<rparr>
         else \<lparr>success = False, resultCluster = None, nextIndex = vj s\<rparr>)"

text \<open>
  The same loop as a big-step relation, one rule per branch of the loop body: the form
  in which its invariants are proved, by rule induction. \<open>growVisit_grows\<close> and
  \<open>grows_growVisit\<close> show that the function computes exactly this relation.
\<close>

inductive grows :: "dist_fn \<Rightarrow> 'm location_scheme list \<Rightarrow> real \<Rightarrow> nat \<Rightarrow> visit_state \<Rightarrow> visit_state \<Rightarrow> bool"
  for distance locs r mt where
  absorb: "vj s < length locs \<Longrightarrow> distance (vLat s, vLon s) (coord (locs ! vj s)) \<le> r \<Longrightarrow>
     grows distance locs r mt (absorbPoint locs s) s' \<Longrightarrow> grows distance locs r mt s s'"
| skip: "vj s < length locs \<Longrightarrow> \<not> distance (vLat s, vLon s) (coord (locs ! vj s)) \<le> r \<Longrightarrow>
     shouldSkip (trySkipTransientPoints distance locs (vj s) (vLat s) (vLon s) r mt) \<Longrightarrow>
     grows distance locs r mt
       (s\<lparr>vj := continueFromIndex (trySkipTransientPoints distance locs (vj s) (vLat s) (vLon s) r mt)\<rparr>) s' \<Longrightarrow>
     grows distance locs r mt s s'"
| stop: "vj s < length locs \<Longrightarrow> \<not> distance (vLat s, vLon s) (coord (locs ! vj s)) \<le> r \<Longrightarrow>
     \<not> shouldSkip (trySkipTransientPoints distance locs (vj s) (vLat s) (vLon s) r mt) \<Longrightarrow>
     grows distance locs r mt s s"
| finish: "\<not> vj s < length locs \<Longrightarrow> grows distance locs r mt s s"

text \<open>
  Statement-level abstraction (not code): every absorbed point after the first was within
  the radius of the mean of the points absorbed before it, which is the centre the loop
  compared it with.
\<close>

definition absorbed_within :: "dist_fn \<Rightarrow> 'm location_scheme list \<Rightarrow> real \<Rightarrow> nat list \<Rightarrow> bool" where
  "absorbed_within distance locs r idxs \<longleftrightarrow>
     (\<forall>k\<in>{1..<length idxs}.
        distance (mean (map (\<lambda>i. lat (locs ! i)) (take k idxs)),
                  mean (map (\<lambda>i. lon (locs ! i)) (take k idxs)))
                 (coord (locs ! (idxs ! k))) \<le> r)"

subsection \<open>The loop computes the growth relation\<close>

declare growVisit.simps [model_simps] absorbPoint_def [model_simps] visitSeed_def [model_simps]
  tryCreateVisitCluster_def [model_simps]

lemma growVisit_grows: "grows d locs r mt s (growVisit d locs r mt s)"
proof (induction d locs r mt s rule: growVisit.induct)
  case (1 d locs r mt s)
  show ?case
  proof (cases "vj s < length locs")
    case True
    then show ?thesis
      using "1.IH"
      by (cases "d (vLat s, vLon s) (coord (locs ! vj s)) \<le> r")
         (auto simp: growVisit.simps [of d locs r mt s] Let_def intro: grows.intros)
  next
    case False
    then show ?thesis
      by (simp add: growVisit.simps [of d locs r mt s] grows.finish)
  qed
qed

lemma grows_growVisit: "grows d locs r mt s s' \<Longrightarrow> s' = growVisit d locs r mt s"
  by (induction rule: grows.induct) (subst growVisit.simps, simp)+

lemma grows_indices:
  "grows d locs r mt s s' \<Longrightarrow>
   \<exists>ext. pointIndices (vcl s') = pointIndices (vcl s) @ ext \<and>
     sorted_wrt (<) ext \<and> (\<forall>x\<in>set ext. vj s \<le> x \<and> x < length locs)"
proof (induction rule: grows.induct)
  case (absorb s s')
  then obtain ext where "pointIndices (vcl s') = (pointIndices (vcl s) @ [vj s]) @ ext"
    "sorted_wrt (<) ext" "\<forall>x\<in>set ext. Suc (vj s) \<le> x \<and> x < length locs"
    by (auto simp: absorbPoint_def Let_def)
  with absorb.hyps(1) show ?case
    by (intro exI [of _ "vj s # ext"]) auto
next
  case (skip s s')
  then show ?case
    using trySkip_continue_gt [OF skip.hyps(3,2)] by fastforce
qed simp_all

lemma grows_frame:
  "grows d locs r mt s s' \<Longrightarrow>
   ctype (vcl s') = ctype (vcl s) \<and> startTime (vcl s') = startTime (vcl s) \<and>
   centerLat (vcl s') = centerLat (vcl s) \<and> centerLon (vcl s') = centerLon (vcl s) \<and>
   travelStartTime (vcl s') = travelStartTime (vcl s) \<and> travelEndTime (vcl s') = travelEndTime (vcl s)"
  by (induction rule: grows.induct) (simp_all add: absorbPoint_def Let_def)

lemma grows_next:
  "grows d locs r mt s s' \<Longrightarrow> pointIndices (vcl s) \<noteq> [] \<Longrightarrow>
   vj s = Suc (last (pointIndices (vcl s))) \<or>
     (vj s < length locs \<and> d (vLat s, vLon s) (coord (locs ! vj s)) \<le> r) \<Longrightarrow>
   vj s' = Suc (last (pointIndices (vcl s')))"
proof (induction rule: grows.induct)
  case (absorb s s')
  then show ?case by (simp add: absorbPoint_def Let_def)
next
  case (skip s s')
  then show ?case using trySkip_shouldSkip [OF skip.hyps(3)] by simp
qed simp_all

lemma grows_centre:
  "grows d locs r mt s s' \<Longrightarrow>
   vLat s = mean (map (\<lambda>i. lat (locs ! i)) (pointIndices (vcl s))) \<and>
   vLon s = mean (map (\<lambda>i. lon (locs ! i)) (pointIndices (vcl s))) \<Longrightarrow>
   vLat s' = mean (map (\<lambda>i. lat (locs ! i)) (pointIndices (vcl s'))) \<and>
   vLon s' = mean (map (\<lambda>i. lon (locs ! i)) (pointIndices (vcl s')))"
  by (induction rule: grows.induct) (simp_all add: absorbPoint_def Let_def)

lemma grows_endTime:
  "grows d locs r mt s s' \<Longrightarrow> pointIndices (vcl s) \<noteq> [] \<Longrightarrow>
   endTime (vcl s) = point_time (locs ! last (pointIndices (vcl s))) \<Longrightarrow>
   endTime (vcl s') = point_time (locs ! last (pointIndices (vcl s')))"
  by (induction rule: grows.induct) (simp_all add: absorbPoint_def Let_def)

lemma grows_stops:
  "grows d locs r mt s s' \<Longrightarrow> vj s' < length locs \<Longrightarrow>
   \<forall>i. vj s' \<le> i \<and> i < min (vj s' + Suc mt) (length locs) \<longrightarrow>
       \<not> d (vLat s', vLon s') (coord (locs ! i)) \<le> r"
proof (induction rule: grows.induct)
  case (stop s)
  then show ?case using trySkip_not_shouldSkip by blast
qed simp_all

lemma grows_absorbed_within:
  "grows d locs r mt s s' \<Longrightarrow>
   vLat s = mean (map (\<lambda>i. lat (locs ! i)) (pointIndices (vcl s))) \<and>
   vLon s = mean (map (\<lambda>i. lon (locs ! i)) (pointIndices (vcl s))) \<Longrightarrow>
   absorbed_within d locs r (pointIndices (vcl s)) \<Longrightarrow>
   absorbed_within d locs r (pointIndices (vcl s'))"
proof (induction rule: grows.induct)
  case (absorb s s')
  let ?xs = "pointIndices (vcl s)"
  have "absorbed_within d locs r (?xs @ [vj s])"
    unfolding absorbed_within_def
  proof
    fix k assume k: "k \<in> {1..<length (?xs @ [vj s])}"
    show "d (mean (map (\<lambda>i. lat (locs ! i)) (take k (?xs @ [vj s]))),
             mean (map (\<lambda>i. lon (locs ! i)) (take k (?xs @ [vj s]))))
            (coord (locs ! ((?xs @ [vj s]) ! k))) \<le> r"
    proof (cases "k < length ?xs")
      case True
      with k absorb.prems(2) show ?thesis
        by (auto simp: absorbed_within_def nth_append)
    next
      case False
      with k have "k = length ?xs" by simp
      with absorb.hyps(2) absorb.prems(1) show ?thesis by simp
    qed
  qed
  then show ?case
    using absorb.IH by (simp add: absorbPoint_def Let_def)
qed simp_all

subsection \<open>Growth from the seed\<close>

text \<open>When every point lies at the same place \<open>x\<close> and that place is within the radius
  of itself, growth absorbs every point from the cursor to the end of the input.\<close>

lemma grows_stationary:
  assumes "grows d locs r mt s s'"
    and "\<forall>i<length locs. coord (locs ! i) = x" and "d x x \<le> r"
    and "(vLat s, vLon s) = x" and "\<forall>i\<in>set (pointIndices (vcl s)). i < length locs"
    and "pointIndices (vcl s) \<noteq> []"
  shows "pointIndices (vcl s') = pointIndices (vcl s) @ [vj s..<length locs] \<and> vj s' = max (vj s) (length locs)"
  using assms
proof (induction rule: grows.induct)
  case (absorb s s')
  let ?xs = "pointIndices (vcl s) @ [vj s]"
  have all: "\<forall>i\<in>set ?xs. i < length locs" using absorb.hyps(1) absorb.prems(4) by auto
  then have m1: "map (\<lambda>i. lat (locs ! i)) ?xs = map (\<lambda>_. fst x) ?xs"
    and m2: "map (\<lambda>i. lon (locs ! i)) ?xs = map (\<lambda>_. snd x) ?xs"
    using absorb.prems(1) by (auto simp: coord_def prod_eq_iff)
  have "vLat (absorbPoint locs s) = mean (map (\<lambda>i. lat (locs ! i)) ?xs)"
    by (simp add: absorbPoint_def Let_def)
  also have "\<dots> = fst x" unfolding m1 by (rule mean_map_const) simp
  moreover have "vLon (absorbPoint locs s) = mean (map (\<lambda>i. lon (locs ! i)) ?xs)"
    by (simp add: absorbPoint_def Let_def)
  moreover have "mean (map (\<lambda>i. lon (locs ! i)) ?xs) = snd x" unfolding m2 by (rule mean_map_const) simp
  ultimately have "(vLat (absorbPoint locs s), vLon (absorbPoint locs s)) = x" by simp
  moreover have "\<forall>i\<in>set (pointIndices (vcl (absorbPoint locs s))). i < length locs"
    using all by (simp add: absorbPoint_def Let_def)
  ultimately have "pointIndices (vcl s') = ?xs @ [Suc (vj s)..<length locs] \<and>
                   vj s' = max (Suc (vj s)) (length locs)"
    using absorb.IH absorb.prems(1,2) by (simp add: absorbPoint_def Let_def)
  with absorb.hyps(1) show ?case by (simp add: upt_conv_Cons)
next
  case (skip s s')
  then show ?case using skip.prems(1) by (metis coord_def prod.collapse)
next
  case (stop s)
  then show ?case by (metis coord_def prod.collapse)
qed simp

lemma growVisit_from_seed:
  fixes d :: dist_fn and locs :: "'m location_scheme list" and r :: real and mt :: nat
  assumes "i < length locs"
  defines "s' \<equiv> growVisit d locs r mt (visitSeed locs i)"
  shows growVisit_seed_hd: "hd (pointIndices (vcl s')) = i"
    and growVisit_seed_wf: "wf_indices (pointIndices (vcl s'))"
    and growVisit_seed_bound: "\<forall>x\<in>set (pointIndices (vcl s')). x < length locs"
    and growVisit_seed_next: "vj s' = Suc (last (pointIndices (vcl s')))"
    and growVisit_seed_centre: "vLat s' = mean (map (\<lambda>i. lat (locs ! i)) (pointIndices (vcl s'))) \<and>
                                vLon s' = mean (map (\<lambda>i. lon (locs ! i)) (pointIndices (vcl s')))"
    and growVisit_seed_endTime: "endTime (vcl s') = point_time (locs ! last (pointIndices (vcl s')))"
    and growVisit_seed_frame: "ctype (vcl s') = Visit \<and> startTime (vcl s') = point_time (locs ! i) \<and>
                                centerLat (vcl s') = None \<and> centerLon (vcl s') = None \<and>
                                travelStartTime (vcl s') = None \<and> travelEndTime (vcl s') = None"
    and growVisit_seed_absorbed: "absorbed_within d locs r (pointIndices (vcl s'))"
proof -
  have g: "grows d locs r mt (visitSeed locs i) s'"
    unfolding s'_def by (rule growVisit_grows)
  obtain ext where ext: "pointIndices (vcl s') = i # ext" "sorted_wrt (<) ext"
    "\<forall>x\<in>set ext. Suc i \<le> x \<and> x < length locs"
    using grows_indices [OF g] by (auto simp: visitSeed_def Let_def)
  show "hd (pointIndices (vcl s')) = i" using ext by simp
  show "wf_indices (pointIndices (vcl s'))" using ext by (auto simp: wf_indices_def)
  show "\<forall>x\<in>set (pointIndices (vcl s')). x < length locs" using ext assms(1) by auto
  show "vj s' = Suc (last (pointIndices (vcl s')))"
    using grows_next [OF g] by (simp add: visitSeed_def Let_def)
  show centre: "vLat s' = mean (map (\<lambda>i. lat (locs ! i)) (pointIndices (vcl s'))) \<and>
                vLon s' = mean (map (\<lambda>i. lon (locs ! i)) (pointIndices (vcl s')))"
    using grows_centre [OF g] by (simp add: visitSeed_def Let_def mean_def)
  show "endTime (vcl s') = point_time (locs ! last (pointIndices (vcl s')))"
    using grows_endTime [OF g] by (simp add: visitSeed_def Let_def)
  show "ctype (vcl s') = Visit \<and> startTime (vcl s') = point_time (locs ! i) \<and>
        centerLat (vcl s') = None \<and> centerLon (vcl s') = None \<and>
        travelStartTime (vcl s') = None \<and> travelEndTime (vcl s') = None"
    using grows_frame [OF g] by (simp add: visitSeed_def Let_def)
  show "absorbed_within d locs r (pointIndices (vcl s'))"
    using grows_absorbed_within [OF g] by (simp add: visitSeed_def Let_def mean_def absorbed_within_def)
qed

lemma grows_vj_mono: "grows d locs r mt s s' \<Longrightarrow> vj s \<le> vj s'"
proof (induction rule: grows.induct)
  case (skip s s')
  then show ?case using trySkip_continue_gt [OF skip.hyps(3,2)] by simp
qed (simp_all add: absorbPoint_def Let_def)

subsection \<open>The visit attempt\<close>

lemma tryCreate_nextIndex_gt:
  "Suc i \<le> nextIndex (tryCreateVisitCluster d locs i r mv mt)"
  using grows_vj_mono [OF growVisit_grows [of d locs r mt "visitSeed locs i"]]
  by (simp add: tryCreateVisitCluster_def Let_def visitSeed_def)

lemma tryCreate_success:
  assumes "i < length locs" and "success (tryCreateVisitCluster d locs i r mv mt)"
  obtains c where "resultCluster (tryCreateVisitCluster d locs i r mv mt) = Some c"
    and "ctype c = Visit" and "hd (pointIndices c) = i" and "wf_indices (pointIndices c)"
    and "\<forall>x\<in>set (pointIndices c). x < length locs" and "mv \<le> length (pointIndices c)"
    and "nextIndex (tryCreateVisitCluster d locs i r mv mt) = Suc (last (pointIndices c))"
    and "startTime c = point_time (locs ! i)"
    and "endTime c = point_time (locs ! last (pointIndices c))"
    and "centerLat c = Some (mean (map (\<lambda>k. lat (locs ! k)) (pointIndices c)))"
    and "centerLon c = Some (mean (map (\<lambda>k. lon (locs ! k)) (pointIndices c)))"
    and "absorbed_within d locs r (pointIndices c)"
proof -
  let ?s = "growVisit d locs r mt (visitSeed locs i)"
  let ?c = "(vcl ?s)\<lparr>centerLat := Some (vLat ?s), centerLon := Some (vLon ?s)\<rparr>"
  show ?thesis
  proof
    show "resultCluster (tryCreateVisitCluster d locs i r mv mt) = Some ?c"
      and "mv \<le> length (pointIndices ?c)"
      and "nextIndex (tryCreateVisitCluster d locs i r mv mt) = Suc (last (pointIndices ?c))"
      using assms(2) growVisit_seed_next [OF assms(1)]
      by (simp_all add: tryCreateVisitCluster_def Let_def split: if_splits)
  qed (use growVisit_from_seed [OF assms(1), of d r mt] in simp_all)
qed

lemma tryCreate_failure:
  assumes "i < length locs" and "\<not> success (tryCreateVisitCluster d locs i r mv mt)"
  shows "length (pointIndices (vcl (growVisit d locs r mt (visitSeed locs i)))) < mv"
    and "2 \<le> mv"
proof -
  show len: "length (pointIndices (vcl (growVisit d locs r mt (visitSeed locs i)))) < mv"
    using assms(2) by (simp add: tryCreateVisitCluster_def Let_def split: if_splits)
  have "pointIndices (vcl (growVisit d locs r mt (visitSeed locs i))) \<noteq> []"
    using growVisit_seed_wf [OF assms(1)] by (simp add: wf_indices_def)
  then show "2 \<le> mv"
    using len by (cases "pointIndices (vcl (growVisit d locs r mt (visitSeed locs i)))") auto
qed

lemma tryCreate_stationary:
  assumes "i < length locs" and "\<forall>k<length locs. coord (locs ! k) = x" and "d x x \<le> r"
    and "mv \<le> length locs - i"
  obtains c where "tryCreateVisitCluster d locs i r mv mt =
      \<lparr>success = True, resultCluster = Some c, nextIndex = length locs\<rparr>"
    and "ctype c = Visit" and "pointIndices c = [i..<length locs]"
    and "startTime c = point_time (locs ! i)" and "endTime c = point_time (locs ! (length locs - 1))"
proof -
  let ?s = "growVisit d locs r mt (visitSeed locs i)"
  have g: "grows d locs r mt (visitSeed locs i) ?s" by (rule growVisit_grows)
  have "(vLat (visitSeed locs i), vLon (visitSeed locs i)) = x"
    using assms(1,2) by (auto simp: visitSeed_def Let_def coord_def)
  with grows_stationary [OF g assms(2,3)] assms(1)
  have pi: "pointIndices (vcl ?s) = [i..<length locs]" and vj: "vj ?s = length locs"
    by (simp_all add: visitSeed_def Let_def upt_conv_Cons)
  have "last [i..<length locs] = length locs - 1" using assms(1) by (simp add: last_upt)
  then have "endTime (vcl ?s) = point_time (locs ! (length locs - 1))"
    using growVisit_seed_endTime [OF assms(1), of d r mt] pi by simp
  moreover have "ctype (vcl ?s) = Visit" "startTime (vcl ?s) = point_time (locs ! i)"
    using growVisit_seed_frame [OF assms(1), of d r mt] by simp_all
  moreover have "mv \<le> length (pointIndices (vcl ?s))" using pi assms(4) by simp
  ultimately show ?thesis
    using that [of "(vcl ?s)\<lparr>centerLat := Some (vLat ?s), centerLon := Some (vLon ?s)\<rparr>"] pi vj
    by (simp add: tryCreateVisitCluster_def Let_def)
qed

end
