(* ===== verification/Discovery.thy ===== *)
theory Discovery
  imports Visit
begin

text \<open>
  Cluster discovery \<open>findLocationClusters\<close> (\<open>locationEnhancer.js\<close>, lines 147--200)
  and its travel fallback \<open>createTravelCluster\<close> (lines 307--338).
  The \<open>while (i < workingLocations.length)\<close> loop is \<open>findLoop\<close>, one call per
  iteration. It first tries a visit at \<open>i\<close>. On success it emits the visit and resumes
  at \<open>nextIndex\<close>. Otherwise it emits a travel cluster of \<open>minVisitClusterSize - 1\<close>
  points and resumes after its last index.
  \<open>createTravelCluster\<close> computes its bounds in JavaScript numbers, so
  \<open>endIndex\<close> is an \<open>int\<close> here and may be negative. The \<open>for\<close> loop
  \<open>i = startIndex .. endIndex\<close> is the interval \<open>[startIndex..<nat (endIndex + 1)]\<close>,
  which is empty when \<open>endIndex < startIndex\<close>.
  When that list is empty, the caller's cursor
  \<open>pointIndices[pointIndices.length - 1] + 1\<close> is \<open>undefined + 1 = NaN\<close>.
  \<open>NaN < length\<close> is false, so the loop ends; that is the \<open>[travelCluster]\<close> branch.
  The branch is unreachable: a visit attempt fails only when \<open>2 \<le> minVisitClusterSize\<close>
  (\<open>tryCreate_failure\<close>), and then the travel cluster is not empty.
\<close>

definition createTravelCluster :: "'m location_scheme list \<Rightarrow> nat \<Rightarrow> nat \<Rightarrow> cluster" where
  "createTravelCluster workingLocations startIndex minVisitClusterSize =
     (let pointCount = int minVisitClusterSize - 1;
          endIndex = min (int startIndex + pointCount - 1) (int (length workingLocations) - 1)
      in \<lparr>ctype = Travel,
          pointIndices = [startIndex..<nat (endIndex + 1)],
          startTime = point_time (workingLocations ! startIndex),
          endTime = point_time (workingLocations ! nat endIndex),
          centerLat = None, centerLon = None,
          travelStartTime = None, travelEndTime = None\<rparr>)"

function findLoop :: "dist_fn \<Rightarrow> 'm location_scheme list \<Rightarrow> real \<Rightarrow> nat \<Rightarrow> nat \<Rightarrow> nat \<Rightarrow> cluster list" where
  "findLoop distance workingLocations clusterRadius minVisitClusterSize minTravelClusterSize i =
     (if i < length workingLocations then
        (let visitResult = tryCreateVisitCluster distance workingLocations i clusterRadius
                             minVisitClusterSize minTravelClusterSize
         in if success visitResult
            then the (resultCluster visitResult) #
                 findLoop distance workingLocations clusterRadius minVisitClusterSize
                   minTravelClusterSize (nextIndex visitResult)
            else
              (let travelCluster = createTravelCluster workingLocations i minVisitClusterSize
               in if pointIndices travelCluster = [] then [travelCluster]
                  else travelCluster #
                       findLoop distance workingLocations clusterRadius minVisitClusterSize
                         minTravelClusterSize (Suc (last (pointIndices travelCluster)))))
      else [])"
  by pat_completeness auto
termination
  by (relation "measure (\<lambda>(_, locs, _, _, _, i). length locs - i)")
    (auto simp: createTravelCluster_def Let_def intro: Suc_le_lessD [OF tryCreate_nextIndex_gt] diff_less_mono2)

declare findLoop.simps [simp del]

definition findLocationClusters ::
  "dist_fn \<Rightarrow> 'm location_scheme list \<Rightarrow> real \<Rightarrow> nat \<Rightarrow> nat \<Rightarrow> cluster list" where
  "findLocationClusters distance locations clusterRadius minVisitClusterSize minTravelClusterSize =
     (if length locations \<le> 1 then []
      else findLoop distance locations clusterRadius minVisitClusterSize minTravelClusterSize 0)"

text \<open>
  Statement-level abstraction (not code): what every discovered cluster satisfies. Its
  indices increase strictly and are in range. Its times are those of its first and last
  member. A visit has at least \<open>minVisitClusterSize\<close> members, and a travel cluster is
  the run of \<open>minVisitClusterSize - 1\<close> consecutive indices from its first one,
  clipped at the end of the input.
\<close>

definition discovered :: "'m location_scheme list \<Rightarrow> nat \<Rightarrow> cluster \<Rightarrow> bool" where
  "discovered locs mv c \<longleftrightarrow>
     wf_indices (pointIndices c) \<and> (\<forall>x\<in>set (pointIndices c). x < length locs) \<and>
     startTime c = point_time (locs ! hd (pointIndices c)) \<and>
     endTime c = point_time (locs ! last (pointIndices c)) \<and>
     (ctype c = Visit \<longrightarrow> mv \<le> length (pointIndices c)) \<and>
     (ctype c = Travel \<longrightarrow>
        pointIndices c = [hd (pointIndices c)..<min (hd (pointIndices c) + (mv - 1)) (length locs)])"

subsection \<open>One iteration of the discovery loop\<close>

declare findLocationClusters_def [model_simps] findLoop.simps [model_simps]
  createTravelCluster_def [model_simps]

lemma createTravelCluster_shape:
  assumes "i < length locs" and "2 \<le> mv"
  shows "pointIndices (createTravelCluster locs i mv) = [i..<min (i + (mv - 1)) (length locs)]"
    and "ctype (createTravelCluster locs i mv) = Travel"
    and "startTime (createTravelCluster locs i mv) = point_time (locs ! i)"
    and "endTime (createTravelCluster locs i mv) =
           point_time (locs ! (min (i + (mv - 1)) (length locs) - 1))"
proof -
  have e: "nat (min (int i + (int mv - 1) - 1) (int (length locs) - 1)) =
           min (i + (mv - 1)) (length locs) - 1"
    and e1: "nat (min (int i + (int mv - 1) - 1) (int (length locs) - 1) + 1) =
           min (i + (mv - 1)) (length locs)"
    using assms by linarith+
  show "pointIndices (createTravelCluster locs i mv) = [i..<min (i + (mv - 1)) (length locs)]"
    using e1 by (simp add: createTravelCluster_def Let_def)
  show "endTime (createTravelCluster locs i mv) =
          point_time (locs ! (min (i + (mv - 1)) (length locs) - 1))"
    using e by (simp add: createTravelCluster_def Let_def)
qed (simp_all add: createTravelCluster_def Let_def)

lemma findLoop_step:
  assumes "i < length locs"
  obtains c where "findLoop d locs r mv mt i = c # findLoop d locs r mv mt (Suc (last (pointIndices c)))"
    and "hd (pointIndices c) = i" and "discovered locs mv c"
proof (cases "success (tryCreateVisitCluster d locs i r mv mt)")
  case True
  obtain c where c: "resultCluster (tryCreateVisitCluster d locs i r mv mt) = Some c"
    "ctype c = Visit" "hd (pointIndices c) = i" "wf_indices (pointIndices c)"
    "\<forall>x\<in>set (pointIndices c). x < length locs" "mv \<le> length (pointIndices c)"
    "nextIndex (tryCreateVisitCluster d locs i r mv mt) = Suc (last (pointIndices c))"
    "startTime c = point_time (locs ! i)" "endTime c = point_time (locs ! last (pointIndices c))"
    using tryCreate_success [OF assms True] by metis
  show ?thesis
  proof
    show "findLoop d locs r mv mt i = c # findLoop d locs r mv mt (Suc (last (pointIndices c)))"
      using assms True c(1,7) by (simp add: findLoop.simps [of d locs r mv mt i])
    show "discovered locs mv c" using c by (simp add: discovered_def)
  qed (rule c(3))
next
  case False
  let ?t = "createTravelCluster locs i mv"
  have mv: "2 \<le> mv" by (rule tryCreate_failure(2) [OF assms False])
  note t = createTravelCluster_shape [OF assms mv]
  have lt: "i < min (i + (mv - 1)) (length locs)"
    using assms mv by simp
  then have ne: "pointIndices ?t \<noteq> []"
    using t(1) upt_conv_Cons [OF lt] by simp
  show ?thesis
  proof
    show "findLoop d locs r mv mt i = ?t # findLoop d locs r mv mt (Suc (last (pointIndices ?t)))"
      using assms False ne by (simp add: findLoop.simps [of d locs r mv mt i] Let_def)
    show "hd (pointIndices ?t) = i" using t(1) upt_conv_Cons [OF lt] by simp
    show "discovered locs mv ?t"
      using t lt by (auto simp: discovered_def wf_indices_def)
  qed
qed

lemma discovered_last:
  "discovered locs mv c \<Longrightarrow>
   hd (pointIndices c) \<le> last (pointIndices c) \<and> last (pointIndices c) < length locs"
  using wf_indices_hd_last [of "pointIndices c"] by (auto simp: discovered_def)

lemma findLoop_beyond: "\<not> i < length locs \<Longrightarrow> findLoop d locs r mv mt i = []"
  by (simp add: findLoop.simps)

subsection \<open>The whole loop\<close>

text \<open>Induction along the loop: one case per emitted cluster, with the facts of
  \<open>findLoop_step\<close>, and one case past the end of the input.\<close>

lemma findLoop_induct [case_names step beyond]:
  assumes step: "\<And>i c. i < length locs \<Longrightarrow>
      findLoop d locs r mv mt i = c # findLoop d locs r mv mt (Suc (last (pointIndices c))) \<Longrightarrow>
      hd (pointIndices c) = i \<Longrightarrow> discovered locs mv c \<Longrightarrow>
      P (Suc (last (pointIndices c))) \<Longrightarrow> P i"
    and beyond: "\<And>i. \<not> i < length locs \<Longrightarrow> P i"
  shows "P i"
proof (induction "length locs - i" arbitrary: i rule: less_induct)
  case less
  show ?case
  proof (cases "i < length locs")
    case True
    obtain c where c: "findLoop d locs r mv mt i = c # findLoop d locs r mv mt (Suc (last (pointIndices c)))"
      "hd (pointIndices c) = i" "discovered locs mv c"
      using findLoop_step [OF True] by blast
    have "length locs - Suc (last (pointIndices c)) < length locs - i"
      using discovered_last [OF c(3)] c(2) by linarith
    then have "P (Suc (last (pointIndices c)))" by (rule less.hyps)
    with True c show ?thesis by (rule step)
  next
    case False
    then show ?thesis by (rule beyond)
  qed
qed

lemma findLoop_spans:
  "i \<le> length locs \<Longrightarrow> concat (map cluster_span (findLoop d locs r mv mt i)) = [i..<length locs]"
proof (induction i rule: findLoop_induct [of locs d r mv mt])
  case (step i c)
  note b = discovered_last [OF step.hyps(4)]
  with step.hyps(1,2,3) step.IH show ?case
    by (simp add: cluster_span_def upt_append_split del: upt_Suc)
qed (simp add: findLoop_beyond)

lemma findLoop_discovered: "\<forall>c\<in>set (findLoop d locs r mv mt i). discovered locs mv c"
  by (induction i rule: findLoop_induct [of locs d r mv mt]) (simp_all add: findLoop_beyond)

lemma findLoop_length: "length (findLoop d locs r mv mt i) \<le> length locs - i"
proof (induction i rule: findLoop_induct [of locs d r mv mt])
  case (step i c)
  with discovered_last [OF step.hyps(4)] show ?case by (simp only: length_Cons) arith
qed (simp add: findLoop_beyond)

text \<open>Index lists of clusters whose spans tile an interval are increasing, in range, and
  leave out only indices strictly inside some cluster's span.\<close>

lemma spans_sorted:
  "concat (map cluster_span cs) = [a..<b] \<Longrightarrow> \<forall>c\<in>set cs. wf_indices (pointIndices c) \<Longrightarrow>
   sorted_wrt (<) (concat (map pointIndices cs)) \<and> set (concat (map pointIndices cs)) \<subseteq> {a..<b}"
proof (induction cs arbitrary: a)
  case Nil
  then show ?case by simp
next
  case (Cons c cs)
  let ?h = "hd (pointIndices c)" and ?l = "last (pointIndices c)"
  have wf: "wf_indices (pointIndices c)" using Cons.prems(2) by simp
  note hl = wf_indices_hd_last [OF wf]
  have "[?h..<Suc ?l] @ concat (map cluster_span cs) = [a..<b]"
    using Cons.prems(1) by (simp only: list.map concat.simps cluster_span_def [of c])
  from upt_prefix_split [OF this hl(1)]
  have split: "?h = a" "Suc ?l \<le> b" "concat (map cluster_span cs) = [Suc ?l..<b]" by auto
  have rest: "sorted_wrt (<) (concat (map pointIndices cs)) \<and>
              set (concat (map pointIndices cs)) \<subseteq> {Suc ?l..<b}"
    using Cons.IH [OF split(3)] Cons.prems(2) by simp
  have own: "set (pointIndices c) \<subseteq> {a..?l}"
    using wf_indices_bounds [OF wf] split(1) by auto
  have "sorted_wrt (<) (pointIndices c)" using wf by (simp add: wf_indices_def)
  moreover have "\<forall>x\<in>set (pointIndices c). \<forall>y\<in>set (concat (map pointIndices cs)). x < y"
    using own rest by fastforce
  moreover have "set (pointIndices c) \<union> set (concat (map pointIndices cs)) \<subseteq> {a..<b}"
    using own rest split hl(1) by auto
  ultimately show ?case
    using rest by (simp add: sorted_wrt_append)
qed

lemma spans_gap:
  assumes "concat (map cluster_span cs) = [a..<b]" and "k \<in> {a..<b}"
    and "k \<notin> set (concat (map pointIndices cs))" and "\<forall>c\<in>set cs. wf_indices (pointIndices c)"
  shows "\<exists>c\<in>set cs. k \<in> set (cluster_span c) \<and> k \<notin> set (pointIndices c) \<and>
           hd (pointIndices c) < k \<and> k < last (pointIndices c)"
proof -
  have "k \<in> set (concat (map cluster_span cs))" using assms(1,2) by simp
  then obtain c where c: "c \<in> set cs" "k \<in> set (cluster_span c)" by auto
  have notin: "k \<notin> set (pointIndices c)" using assms(3) c(1) by auto
  have "hd (pointIndices c) \<in> set (pointIndices c)" "last (pointIndices c) \<in> set (pointIndices c)"
    using wf_indices_hd_last assms(4) c(1) by blast+
  with notin have "k \<noteq> hd (pointIndices c)" "k \<noteq> last (pointIndices c)" by auto
  with c(2) notin have "hd (pointIndices c) < k \<and> k < last (pointIndices c)"
    by (auto simp: cluster_span_def)
  with c notin show ?thesis by blast
qed

lemma discovered_travel_span:
  assumes "discovered locs mv c" and "ctype c = Travel"
  shows "pointIndices c = cluster_span c"
proof -
  obtain h m where eq: "pointIndices c = [h..<m]"
    using assms by (auto simp: discovered_def)
  have "pointIndices c \<noteq> []" using assms(1) by (simp add: discovered_def wf_indices_def)
  then have "h < m" using eq by (cases "h < m") auto
  with eq show ?thesis by (simp add: cluster_span_def del: upt_Suc)
qed

lemma findLocationClusters_findLoop:
  "2 \<le> length locs \<Longrightarrow> findLocationClusters d locs r mv mt = findLoop d locs r mv mt 0"
  by (simp add: findLocationClusters_def)

lemma findLocationClusters_discovered:
  "\<forall>c\<in>set (findLocationClusters d locs r mv mt). discovered locs mv c"
  by (simp add: findLocationClusters_def findLoop_discovered)

lemma findLocationClusters_spans:
  "2 \<le> length locs \<Longrightarrow>
   concat (map cluster_span (findLocationClusters d locs r mv mt)) = [0..<length locs]"
  by (simp add: findLocationClusters_findLoop findLoop_spans)

lemma findLocationClusters_indices:
  "sorted_wrt (<) (concat (map pointIndices (findLocationClusters d locs r mv mt))) \<and>
   set (concat (map pointIndices (findLocationClusters d locs r mv mt))) \<subseteq> {..<length locs}"
proof (cases "2 \<le> length locs")
  case True
  have "\<forall>c\<in>set (findLocationClusters d locs r mv mt). wf_indices (pointIndices c)"
    using findLocationClusters_discovered [of d locs r mv mt] by (auto simp: discovered_def)
  with spans_sorted [OF findLocationClusters_spans [OF True]] show ?thesis
    by (simp only: atLeast0LessThan)
qed (simp add: findLocationClusters_def)

lemma findLocationClusters_nonempty:
  "\<forall>c\<in>set (findLocationClusters d locs r mv mt). pointIndices c \<noteq> []"
  using findLocationClusters_discovered [of d locs r mv mt] by (auto simp: discovered_def wf_indices_def)

text \<open>A device that never moves: discovery emits a single visit holding every point.\<close>

lemma findLocationClusters_stationary:
  assumes "2 \<le> length locs" and "\<forall>k<length locs. coord (locs ! k) = x" and "d x x \<le> r"
    and "mv \<le> length locs"
  obtains c where "findLocationClusters d locs r mv mt = [c]" and "ctype c = Visit"
    and "pointIndices c = [0..<length locs]" and "startTime c = point_time (locs ! 0)"
    and "endTime c = point_time (locs ! (length locs - 1))"
proof -
  have lt: "0 < length locs" using assms(1) by linarith
  obtain c where c: "tryCreateVisitCluster d locs 0 r mv mt =
      \<lparr>success = True, resultCluster = Some c, nextIndex = length locs\<rparr>"
    "ctype c = Visit" "pointIndices c = [0..<length locs]" "startTime c = point_time (locs ! 0)"
    "endTime c = point_time (locs ! (length locs - 1))"
    using tryCreate_stationary [of 0 locs x d r mv mt] lt assms(2-4) by auto
  have "findLocationClusters d locs r mv mt = [c]"
    using assms(1) lt c(1)
    by (simp add: findLocationClusters_findLoop findLoop.simps [of d locs r mv mt 0] findLoop_beyond)
  then show ?thesis using c(2-5) by (rule that)
qed

text \<open>A point whose next \<open>minTravelClusterSize + 1\<close> successors all lie outside the radius
  around it grows no visit: the first comparison fails and so does the whole lookahead.\<close>

lemma growVisit_isolated:
  assumes "i < length locs"
    and "\<forall>j. i < j \<and> j \<le> Suc i + mt \<and> j < length locs \<longrightarrow> r < d (coord (locs ! i)) (coord (locs ! j))"
  shows "growVisit d locs r mt (visitSeed locs i) = visitSeed locs i"
proof -
  let ?s = "visitSeed locs i"
  have c: "(vLat ?s, vLon ?s) = coord (locs ! i)" and j: "vj ?s = Suc i"
    by (simp_all add: visitSeed_def Let_def)
  show ?thesis
  proof (cases "Suc i < length locs")
    case True
    have far: "\<not> d (vLat ?s, vLon ?s) (coord (locs ! vj ?s)) \<le> r"
      using assms(2) True unfolding c j by (auto simp: not_le)
    have "\<not> shouldSkip (trySkipTransientPoints d locs (vj ?s) (vLat ?s) (vLon ?s) r mt)"
      unfolding trySkip_not_shouldSkip c j using assms(2) by (auto simp: not_le)
    then show ?thesis using True far j by (simp add: growVisit.simps [of d locs r mt ?s] Let_def)
  next
    case False
    then show ?thesis using j by (simp add: growVisit.simps [of d locs r mt ?s])
  qed
qed

lemma tryCreate_isolated:
  assumes "i < length locs" and "2 \<le> mv"
    and "\<forall>j. i < j \<and> j \<le> Suc i + mt \<and> j < length locs \<longrightarrow> r < d (coord (locs ! i)) (coord (locs ! j))"
  shows "\<not> success (tryCreateVisitCluster d locs i r mv mt)"
  using growVisit_isolated [of i locs mt r d] assms
  by (simp add: tryCreateVisitCluster_def visitSeed_def Let_def)

subsection \<open>Properties of cluster discovery\<close>

text \<open>
  C1. Partition: for two or more points, the index intervals spanned by the discovered
  clusters, from each cluster's first to its last index, tile \<open>0..n-1\<close> in order.
  The clusters' own index lists, concatenated, are strictly increasing, so no index
  belongs to two clusters and clusters come in index order.
\<close>

theorem discovery_partition:
  assumes "2 \<le> length locs"
  shows "concat (map cluster_span (findLocationClusters d locs r mv mt)) = [0..<length locs] \<and>
         sorted_wrt (<) (concat (map pointIndices (findLocationClusters d locs r mv mt)))"
proof -
  have sp: "concat (map cluster_span (findLocationClusters d locs r mv mt)) = [0..<length locs]"
    using assms by (rule findLocationClusters_spans)
  have "\<forall>c\<in>set (findLocationClusters d locs r mv mt). wf_indices (pointIndices c)"
    using findLocationClusters_discovered [of d locs r mv mt] by (auto simp: discovered_def)
  with sp show ?thesis using spans_sorted by blast
qed

text \<open>
  C2. The only indices that belong to no cluster are transient points skipped by the
  lookahead: each lies strictly between the first and the last index of a visit cluster.
  Travel clusters never leave an index out.
\<close>

theorem discovery_gaps_inside_visits:
  assumes "2 \<le> length locs" and "k < length locs"
    and "k \<notin> set (concat (map pointIndices (findLocationClusters d locs r mv mt)))"
  shows "\<exists>c\<in>set (findLocationClusters d locs r mv mt).
           ctype c = Visit \<and> hd (pointIndices c) < k \<and> k < last (pointIndices c)"
proof -
  have wf: "\<forall>c\<in>set (findLocationClusters d locs r mv mt). wf_indices (pointIndices c)"
    using findLocationClusters_discovered [of d locs r mv mt] by (auto simp: discovered_def)
  obtain c where c: "c \<in> set (findLocationClusters d locs r mv mt)"
    "k \<in> set (cluster_span c)" "k \<notin> set (pointIndices c)"
    "hd (pointIndices c) < k" "k < last (pointIndices c)"
    using spans_gap [OF findLocationClusters_spans [OF assms(1)] _ assms(3) wf] assms(2) by auto
  have "ctype c = Visit"
  proof (rule ccontr)
    assume "ctype c \<noteq> Visit"
    then have "pointIndices c = cluster_span c"
      using discovered_travel_span findLocationClusters_discovered [of d locs r mv mt] c(1) by (cases "ctype c") auto
    with c(2,3) show False by simp
  qed
  with c show ?thesis by blast
qed

text \<open>C3. Every visit cluster has at least \<open>minVisitClusterSize\<close> points.\<close>

theorem visit_clusters_min_size:
  "\<forall>c\<in>set (findLocationClusters d locs r mv mt). ctype c = Visit \<longrightarrow> mv \<le> length (pointIndices c)"
  using findLocationClusters_discovered [of d locs r mv mt] by (simp add: discovered_def)

text \<open>
  C4. Every travel cluster of the discovery pass is the run of \<open>minVisitClusterSize - 1\<close>
  consecutive indices from its first index, clipped at the end of the input. So it has
  \<open>min (minVisitClusterSize - 1) (n - first)\<close> points.
\<close>

theorem travel_clusters_run:
  "\<forall>c\<in>set (findLocationClusters d locs r mv mt). ctype c = Travel \<longrightarrow>
     pointIndices c = [hd (pointIndices c)..<min (hd (pointIndices c) + (mv - 1)) (length locs)] \<and>
     length (pointIndices c) = min (mv - 1) (length locs - hd (pointIndices c))"
proof (intro ballI impI)
  fix c assume "c \<in> set (findLocationClusters d locs r mv mt)" and "ctype c = Travel"
  then have eq: "pointIndices c = [hd (pointIndices c)..<min (hd (pointIndices c) + (mv - 1)) (length locs)]"
    using findLocationClusters_discovered [of d locs r mv mt] by (simp add: discovered_def)
  have "length [hd (pointIndices c)..<min (hd (pointIndices c) + (mv - 1)) (length locs)] =
        min (mv - 1) (length locs - hd (pointIndices c))"
    by (simp add: min_def)
  with eq show "pointIndices c = [hd (pointIndices c)..<min (hd (pointIndices c) + (mv - 1)) (length locs)] \<and>
     length (pointIndices c) = min (mv - 1) (length locs - hd (pointIndices c))"
    by simp
qed

text \<open>
  C5. Every discovered cluster's \<open>startTime\<close> and \<open>endTime\<close> are the capture times
  (\<open>tst || timestamp || 0\<close>) of its first and its last member.
\<close>

theorem cluster_time_bounds:
  "\<forall>c\<in>set (findLocationClusters d locs r mv mt).
     startTime c = point_time (locs ! hd (pointIndices c)) \<and>
     endTime c = point_time (locs ! last (pointIndices c))"
  using findLocationClusters_discovered [of d locs r mv mt] by (simp add: discovered_def)

text \<open>Discovery emits at most one cluster per input point.\<close>

theorem discovery_count_bound:
  "length (findLocationClusters d locs r mv mt) \<le> length locs"
  using findLoop_length [of d locs r mv mt 0] by (simp add: findLocationClusters_def)

text \<open>
  C9. Scenario B (spec, section 8) asks that points far apart give only travel clusters.
  The condition the code needs is that every point is farther than the radius from each
  of its next \<open>minTravelClusterSize + 1\<close> successors (the first comparison and the
  lookahead window of a visit attempt started there); then every visit attempt fails and
  discovery emits only travel clusters. Being far from the previous point alone is not
  enough (\<open>zigzag_forms_visit\<close>).
\<close>

theorem separated_track_all_travel:
  assumes "2 \<le> mv"
    and "\<forall>i j. i < j \<and> j \<le> Suc i + mt \<and> j < length locs \<longrightarrow>
           r < d (coord (locs ! i)) (coord (locs ! j))"
  shows "\<forall>c\<in>set (findLocationClusters d locs r mv mt). ctype c = Travel"
proof -
  have "\<forall>c\<in>set (findLoop d locs r mv mt i). ctype c = Travel" for i
  proof (induction i rule: findLoop_induct [of locs d r mv mt])
    case (step i c)
    have "\<not> success (tryCreateVisitCluster d locs i r mv mt)"
      using tryCreate_isolated [of i locs mv mt r d] step.hyps(1) assms by blast
    then have "c = createTravelCluster locs i mv"
      using step.hyps(1,2) by (simp add: findLoop.simps [of d locs r mv mt i] Let_def split: if_splits)
    then show ?case using step.IH step.hyps(2) by (simp add: createTravelCluster_def Let_def)
  qed (simp add: findLoop_beyond)
  then show ?thesis by (simp add: findLocationClusters_def)
qed

end
