(* ===== verification/Merge.thy ===== *)
theory Merge
  imports Location
begin

text \<open>
  The merge pass \<open>mergeConsecutiveTravelClusters\<close> (\<open>locationEnhancer.js\<close>,
  lines 388--435). The outer \<open>while (i < clusters.length)\<close> loop is \<open>mergeLoop\<close>. The
  inner \<open>while (j < clusters.length && clusters[j].type === "travel")\<close> loop is
  \<open>travelRun\<close>, which threads the object \<open>mergedTravelCluster\<close> and the cursor \<open>j\<close>.
  The object literal that starts a run copies only \<open>type\<close>, \<open>pointIndices\<close>,
  \<open>startTime\<close> and \<open>endTime\<close>, so its other fields are absent (\<open>None\<close>).
  The abstract specification \<open>merge_spec\<close> folds runs of travel clusters by structural
  recursion. \<open>mergeLoop_merge_spec\<close> shows that the loops compute it.
\<close>

definition mergedTravelCluster :: "cluster \<Rightarrow> cluster" where
  "mergedTravelCluster currentCluster =
     \<lparr>ctype = Travel, pointIndices = pointIndices currentCluster,
      startTime = startTime currentCluster, endTime = endTime currentCluster,
      centerLat = None, centerLon = None, travelStartTime = None, travelEndTime = None\<rparr>"

function travelRun :: "cluster list \<Rightarrow> cluster \<Rightarrow> nat \<Rightarrow> cluster \<times> nat" where
  "travelRun clusters mergedTravel j =
     (if j < length clusters \<and> ctype (clusters ! j) = Travel
      then travelRun clusters
             (mergedTravel\<lparr>pointIndices := pointIndices mergedTravel @ pointIndices (clusters ! j),
                           endTime := endTime (clusters ! j)\<rparr>) (Suc j)
      else (mergedTravel, j))"
  by pat_completeness auto
termination
  by (relation "measure (\<lambda>(clusters, _, j). length clusters - j)") auto

declare travelRun.simps [simp del]

lemma travelRun_ge: "j \<le> snd (travelRun cs m j)"
  by (induction cs m j rule: travelRun.induct) (subst travelRun.simps, auto dest: Suc_leD)

function mergeLoop :: "cluster list \<Rightarrow> nat \<Rightarrow> cluster list" where
  "mergeLoop clusters i =
     (if i < length clusters then
        (let currentCluster = clusters ! i in
         if ctype currentCluster = Travel then
           (let run = travelRun clusters (mergedTravelCluster currentCluster) (Suc i)
            in fst run # mergeLoop clusters (snd run))
         else currentCluster # mergeLoop clusters (Suc i))
      else [])"
  by pat_completeness auto
termination
  by (relation "measure (\<lambda>(clusters, i). length clusters - i)")
    (auto intro: diff_less_mono2 Suc_le_lessD [OF travelRun_ge])

declare mergeLoop.simps [simp del]

definition mergeConsecutiveTravelClusters :: "cluster list \<Rightarrow> cluster list" where
  "mergeConsecutiveTravelClusters clusters =
     (if length clusters \<le> 1 then clusters else mergeLoop clusters 0)"

declare mergedTravelCluster_def [model_simps] travelRun.simps [model_simps]
  mergeLoop.simps [model_simps] mergeConsecutiveTravelClusters_def [model_simps]

subsection \<open>Specification: runs of travel clusters folded by structural recursion\<close>

text \<open>Statement-level abstraction (not code): a travel cluster followed by an already
  merged travel cluster is joined with it, keeping the first start and the last end.\<close>

definition joinTravel :: "cluster \<Rightarrow> cluster \<Rightarrow> cluster" where
  "joinTravel c d =
     \<lparr>ctype = Travel, pointIndices = pointIndices c @ pointIndices d,
      startTime = startTime c, endTime = endTime d,
      centerLat = None, centerLon = None, travelStartTime = None, travelEndTime = None\<rparr>"

fun merge_spec :: "cluster list \<Rightarrow> cluster list" where
  "merge_spec [] = []"
| "merge_spec (c # cs) =
     (if ctype c = Travel then
        (case merge_spec cs of
           [] \<Rightarrow> [mergedTravelCluster c]
         | d # ds \<Rightarrow> if ctype d = Travel then joinTravel c d # ds
                     else mergedTravelCluster c # d # ds)
      else c # merge_spec cs)"

fun no_adjacent_travel :: "cluster list \<Rightarrow> bool" where
  "no_adjacent_travel (c # d # cs) \<longleftrightarrow>
     \<not> (ctype c = Travel \<and> ctype d = Travel) \<and> no_adjacent_travel (d # cs)"
| "no_adjacent_travel _ \<longleftrightarrow> True"

subsection \<open>The loops compute the specification\<close>

lemma kind_cases2: "k \<noteq> Travel \<longleftrightarrow> k = Visit" "k \<noteq> Visit \<longleftrightarrow> k = Travel"
  by (cases k; simp)+

lemma merge_spec_Nil_iff [simp]: "merge_spec cs = [] \<longleftrightarrow> cs = []"
  by (cases cs) (auto split: list.split)

lemma merge_spec_hd_kind:
  "merge_spec cs = d # ds \<Longrightarrow> cs \<noteq> [] \<and> ctype d = ctype (hd cs)"
  by (cases cs) (auto simp: mergedTravelCluster_def joinTravel_def split: list.splits if_splits)

lemma merge_spec_seed:
  "ctype c = Travel \<Longrightarrow> merge_spec (mergedTravelCluster c # cs) = merge_spec (c # cs)"
  by (simp add: mergedTravelCluster_def joinTravel_def split: list.split)

lemma merge_spec_absorb:
  assumes "ctype m = Travel" and "ctype t = Travel"
  shows "merge_spec (m # t # rest) =
         merge_spec (m\<lparr>pointIndices := pointIndices m @ pointIndices t, endTime := endTime t\<rparr> # rest)"
proof (cases "merge_spec rest")
  case Nil
  with assms show ?thesis by (simp add: mergedTravelCluster_def joinTravel_def)
next
  case (Cons d ds)
  with assms show ?thesis
    by (cases "ctype d") (simp_all add: mergedTravelCluster_def joinTravel_def)
qed

lemma merge_spec_stop:
  assumes "ctype m = Travel" and "cs = [] \<or> ctype (hd cs) = Visit"
  shows "merge_spec (m # cs) = mergedTravelCluster m # merge_spec cs"
proof (cases "merge_spec cs")
  case (Cons d ds)
  with assms(2) merge_spec_hd_kind [OF Cons] have "ctype d = Visit" by simp
  with Cons assms(1) show ?thesis by simp
qed (simp add: assms(1))

lemma mergedTravelCluster_update:
  assumes "mergedTravelCluster m = m"
  shows "mergedTravelCluster (m\<lparr>pointIndices := p, endTime := e\<rparr>) = m\<lparr>pointIndices := p, endTime := e\<rparr>"
proof -
  have "m\<lparr>pointIndices := p, endTime := e\<rparr> = (mergedTravelCluster m)\<lparr>pointIndices := p, endTime := e\<rparr>"
    using assms by simp
  then show ?thesis by (simp add: mergedTravelCluster_def)
qed

lemma travelRun_merge_spec:
  "ctype m = Travel \<Longrightarrow> mergedTravelCluster m = m \<Longrightarrow>
   merge_spec (m # drop j cs) =
     fst (travelRun cs m j) # merge_spec (drop (snd (travelRun cs m j)) cs)"
proof (induction cs m j rule: travelRun.induct)
  case (1 cs m j)
  show ?case
  proof (cases "j < length cs \<and> ctype (cs ! j) = Travel")
    case True
    let ?m = "m\<lparr>pointIndices := pointIndices m @ pointIndices (cs ! j), endTime := endTime (cs ! j)\<rparr>"
    have "drop j cs = cs ! j # drop (Suc j) cs" using True by (simp add: Cons_nth_drop_Suc)
    then have "merge_spec (m # drop j cs) = merge_spec (?m # drop (Suc j) cs)"
      using True "1.prems"(1) by (simp only: merge_spec_absorb)
    moreover have "mergedTravelCluster ?m = ?m"
      using "1.prems"(2) by (rule mergedTravelCluster_update)
    ultimately show ?thesis
      using True "1.IH" "1.prems"(1) by (simp add: travelRun.simps [of cs m j])
  next
    case False
    then have "drop j cs = [] \<or> ctype (hd (drop j cs)) = Visit"
      by (cases "j < length cs") (auto simp: hd_drop_conv_nth kind_cases2)
    moreover have "travelRun cs m j = (m, j)"
      using False by (subst travelRun.simps) auto
    ultimately show ?thesis
      using "1.prems" by (simp only: merge_spec_stop fst_conv snd_conv)
  qed
qed

lemma mergeLoop_merge_spec: "mergeLoop cs i = merge_spec (drop i cs)"
proof (induction cs i rule: mergeLoop.induct)
  case (1 cs i)
  show ?case
  proof (cases "i < length cs")
    case True
    then have d: "drop i cs = cs ! i # drop (Suc i) cs" by (simp add: Cons_nth_drop_Suc)
    show ?thesis
    proof (cases "ctype (cs ! i) = Travel")
      case travel: True
      let ?s = "mergedTravelCluster (cs ! i)"
      have "merge_spec (drop i cs) = merge_spec (?s # drop (Suc i) cs)"
        by (simp only: d merge_spec_seed [OF travel])
      also have "\<dots> = fst (travelRun cs ?s (Suc i)) # merge_spec (drop (snd (travelRun cs ?s (Suc i))) cs)"
        by (rule travelRun_merge_spec) (simp_all add: mergedTravelCluster_def)
      finally show ?thesis
        using True travel "1.IH"(1) by (simp add: mergeLoop.simps [of cs i] Let_def)
    next
      case visit: False
      then show ?thesis
        using True d "1.IH"(2) by (simp add: mergeLoop.simps [of cs i])
    qed
  next
    case False
    then show ?thesis by (simp add: mergeLoop.simps [of cs i])
  qed
qed

subsection \<open>Properties of the specification\<close>

definition plain_travels :: "cluster list \<Rightarrow> bool" where
  "plain_travels cs \<longleftrightarrow> (\<forall>c\<in>set cs. ctype c = Travel \<longrightarrow> mergedTravelCluster c = c)"

lemma merge_spec_indices:
  "concat (map pointIndices (merge_spec cs)) = concat (map pointIndices cs)"
proof (induction cs)
  case (Cons c cs)
  then show ?case
    by (cases "merge_spec cs")
       (auto simp: mergedTravelCluster_def joinTravel_def)
qed simp

lemma merge_spec_visits:
  "filter (\<lambda>c. ctype c = Visit) (merge_spec cs) = filter (\<lambda>c. ctype c = Visit) cs"
proof (induction cs)
  case (Cons c cs)
  then show ?case
    by (cases "merge_spec cs")
       (auto simp: mergedTravelCluster_def joinTravel_def kind_cases2)
qed simp

lemma no_adjacent_travel_tl: "no_adjacent_travel (c # cs) \<Longrightarrow> no_adjacent_travel cs"
  by (cases cs) simp_all

lemma no_adjacent_travel_hd:
  "no_adjacent_travel (d # ds) \<Longrightarrow> ctype e = ctype d \<Longrightarrow> no_adjacent_travel (e # ds)"
  by (cases ds) simp_all

lemma no_adjacent_travel_Cons_visit:
  "ctype c = Visit \<Longrightarrow> no_adjacent_travel cs \<Longrightarrow> no_adjacent_travel (c # cs)"
  by (cases cs) simp_all

lemma merge_spec_no_adjacent_travel: "no_adjacent_travel (merge_spec cs)"
proof (induction cs)
  case (Cons c cs)
  show ?case
  proof (cases "ctype c")
    case Visit
    then show ?thesis using Cons.IH by (simp add: no_adjacent_travel_Cons_visit)
  next
    case c: Travel
    show ?thesis
    proof (cases "merge_spec cs")
      case Nil
      with c show ?thesis by simp
    next
      case m: (Cons d ds)
      have na: "no_adjacent_travel (d # ds)" using Cons.IH m by simp
      show ?thesis
      proof (cases "ctype d")
        case Visit
        have "no_adjacent_travel (mergedTravelCluster c # d # ds)"
          using na Visit by simp
        with m c Visit show ?thesis by simp
      next
        case d: Travel
        have "no_adjacent_travel (joinTravel c d # ds)"
          by (rule no_adjacent_travel_hd [OF na]) (simp add: joinTravel_def d)
        with m c d show ?thesis by simp
      qed
    qed
  qed
qed simp

lemma merge_spec_plain: "plain_travels (merge_spec cs)"
proof (induction cs)
  case (Cons c cs)
  then show ?case
    by (cases "merge_spec cs")
       (auto simp: plain_travels_def mergedTravelCluster_def joinTravel_def)
qed (simp add: plain_travels_def)

lemma merge_spec_fixpoint:
  "no_adjacent_travel cs \<Longrightarrow> plain_travels cs \<Longrightarrow> merge_spec cs = cs"
proof (induction cs)
  case (Cons c cs)
  have IH: "merge_spec cs = cs"
    using Cons.IH no_adjacent_travel_tl [OF Cons.prems(1)] Cons.prems(2)
    by (simp add: plain_travels_def)
  show ?case
  proof (cases "ctype c = Travel")
    case True
    then have c: "mergedTravelCluster c = c" using Cons.prems(2) by (simp add: plain_travels_def)
    show ?thesis
    proof (cases cs)
      case (Cons d ds)
      then have "ctype d = Visit" using Cons.prems(1) True by (simp add: kind_cases2)
      with IH True c Cons show ?thesis by simp
    qed (simp add: True c)
  qed (simp add: IH)
qed simp

lemma merge_spec_idem: "merge_spec (merge_spec cs) = merge_spec cs"
  by (rule merge_spec_fixpoint [OF merge_spec_no_adjacent_travel merge_spec_plain])

lemma mergeConsecutiveTravelClusters_spec:
  "mergeConsecutiveTravelClusters cs = (if length cs \<le> 1 then cs else merge_spec cs)"
  by (simp add: mergeConsecutiveTravelClusters_def mergeLoop_merge_spec)

lemma merge_spec_nonempty:
  "\<forall>c\<in>set cs. pointIndices c \<noteq> [] \<Longrightarrow> \<forall>c\<in>set (merge_spec cs). pointIndices c \<noteq> []"
proof (induction cs)
  case (Cons c cs)
  then show ?case
    by (cases "merge_spec cs") (auto simp: mergedTravelCluster_def joinTravel_def)
qed simp

lemma mergeConsecutiveTravelClusters_nonempty:
  "\<forall>c\<in>set cs. pointIndices c \<noteq> [] \<Longrightarrow>
   \<forall>c\<in>set (mergeConsecutiveTravelClusters cs). pointIndices c \<noteq> []"
  by (simp add: mergeConsecutiveTravelClusters_spec merge_spec_nonempty)

lemma mergeConsecutiveTravelClusters_indices:
  "concat (map pointIndices (mergeConsecutiveTravelClusters cs)) = concat (map pointIndices cs)"
  by (simp add: mergeConsecutiveTravelClusters_spec merge_spec_indices)

subsection \<open>Properties of the merge pass\<close>

text \<open>
  C10. The merge pass refines its specification: on two or more clusters the two nested
  \<open>while\<close> loops compute \<open>merge_spec\<close>, which folds every maximal run of travel clusters
  into one. Shorter lists are returned unchanged.
\<close>

theorem merge_refines_spec:
  "mergeConsecutiveTravelClusters cs = (if length cs \<le> 1 then cs else merge_spec cs)"
  by (simp add: mergeConsecutiveTravelClusters_def mergeLoop_merge_spec)

text \<open>C11. The merge pass keeps every point index, in order: no cluster is split or
  dropped, and concatenating the index lists gives the same sequence before and after.\<close>

theorem merge_preserves_indices:
  "concat (map pointIndices (mergeConsecutiveTravelClusters cs)) = concat (map pointIndices cs)"
  by (rule mergeConsecutiveTravelClusters_indices)

text \<open>Visit clusters pass through the merge pass untouched and in order.\<close>

theorem merge_keeps_visits:
  "filter (\<lambda>c. ctype c = Visit) (mergeConsecutiveTravelClusters cs) =
   filter (\<lambda>c. ctype c = Visit) cs"
  by (simp add: mergeConsecutiveTravelClusters_spec merge_spec_visits)

text \<open>C13. After the merge pass no two adjacent clusters are both travel clusters.\<close>

theorem merge_no_adjacent_travel:
  "no_adjacent_travel (mergeConsecutiveTravelClusters cs)"
proof (cases "length cs \<le> 1")
  case True
  then have "cs = [] \<or> (\<exists>c. cs = [c])" by (cases cs) auto
  then show ?thesis using True by (auto simp: mergeConsecutiveTravelClusters_spec)
qed (simp add: mergeConsecutiveTravelClusters_spec merge_spec_no_adjacent_travel)

text \<open>C14. Idempotence (spec, section 8): merging twice gives the result of merging once.\<close>

theorem merge_idempotent:
  "mergeConsecutiveTravelClusters (mergeConsecutiveTravelClusters cs) =
   mergeConsecutiveTravelClusters cs"
  by (simp add: mergeConsecutiveTravelClusters_spec merge_spec_idem)

end
