(* ===== verification/Materialize.thy ===== *)
theory Materialize
  imports Location
begin

text \<open>
  Materialisation \<open>processClusterToLocations\<close> (\<open>locationEnhancer.js\<close>, lines 525--618).
  \<^item> The first \<open>forEach\<close> (lines 531--555) back-fills the timing of each travel cluster.
    The backward \<open>for\<close> loop is \<open>findPrevVisitEnd\<close>, structural on the index.
    The forward loop is \<open>findNextVisitStart\<close>, with measure \<open>length - i\<close>.
    \<open>prevVisitEndTime || cluster.startTime\<close> is \<open>js_or\<close>, so a visit end time of \<open>0\<close> also
    falls back. The pass mutates the cluster objects in place. It reads only visit
    clusters, which it does not change, so it is the \<open>map\<close> \<open>setTravelTiming\<close> over the
    indices.
  \<^item> The second \<open>forEach\<close> (lines 558--608) is \<open>emitClusters\<close>, which threads the two
    counters \<open>visitCounter\<close> and \<open>travelCounter\<close>, both starting at 1. A visit cluster
    becomes one \<open>visitPoint\<close>, built from its first member by the object spread. A travel
    cluster becomes one \<open>travelPoint\<close> per member.
  \<^item> The final \<open>sort\<close> (lines 611--615) compares \<open>tst || timestamp || 0\<close>. It is stable
    (ECMAScript 2019), so it is \<open>sort_key point_time\<close>, HOL's stable insertion sort.
\<close>

fun findPrevVisitEnd :: "cluster list \<Rightarrow> nat \<Rightarrow> int option" where
  "findPrevVisitEnd clusters 0 = None"
| "findPrevVisitEnd clusters (Suc i) =
     (if ctype (clusters ! i) = Visit then Some (endTime (clusters ! i))
      else findPrevVisitEnd clusters i)"

function findNextVisitStart :: "cluster list \<Rightarrow> nat \<Rightarrow> int option" where
  "findNextVisitStart clusters i =
     (if i < length clusters then
        (if ctype (clusters ! i) = Visit then Some (startTime (clusters ! i))
         else findNextVisitStart clusters (Suc i))
      else None)"
  by pat_completeness auto
termination
  by (relation "measure (\<lambda>(clusters, i). length clusters - i)") auto

declare findNextVisitStart.simps [simp del]

definition setTravelTiming :: "cluster list \<Rightarrow> cluster list" where
  "setTravelTiming clusters =
     map (\<lambda>clusterIndex.
            let cluster = clusters ! clusterIndex in
            if ctype cluster = Travel then
              cluster\<lparr>travelStartTime :=
                        Some (js_or (findPrevVisitEnd clusters clusterIndex) (startTime cluster)),
                      travelEndTime :=
                        Some (js_or (findNextVisitStart clusters (Suc clusterIndex)) (endTime cluster))\<rparr>
            else cluster)
       [0..<length clusters]"

definition visitPoint :: "'m location_scheme list \<Rightarrow> cluster \<Rightarrow> nat \<Rightarrow> 'm location_scheme" where
  "visitPoint originalLocations cluster visitCounter =
     (let clusterPoints = map (\<lambda>idx. originalLocations ! idx) (pointIndices cluster);
          avgLat = mean (map lat clusterPoints);
          avgLon = mean (map lon clusterPoints);
          p0 = clusterPoints ! 0
      in p0\<lparr>lat := avgLat, lon := avgLon,
            tst := Some (js_or (tst p0) (js_or (timestamp p0) 0)),
            node_event_type := Some Visit, node_event_id := Some visitCounter,
            node_event_start := Some (startTime cluster),
            node_event_end := Some (endTime cluster)\<rparr>)"

definition travelPoint ::
  "'m location_scheme list \<Rightarrow> cluster \<Rightarrow> nat \<Rightarrow> nat \<Rightarrow> 'm location_scheme" where
  "travelPoint originalLocations cluster travelCounter pointIndex =
     (originalLocations ! pointIndex)\<lparr>node_event_type := Some Travel,
        node_event_id := Some travelCounter,
        node_event_start := travelStartTime cluster,
        node_event_end := travelEndTime cluster\<rparr>"

fun emitClusters ::
  "'m location_scheme list \<Rightarrow> nat \<Rightarrow> nat \<Rightarrow> cluster list \<Rightarrow> 'm location_scheme list" where
  "emitClusters originalLocations visitCounter travelCounter [] = []"
| "emitClusters originalLocations visitCounter travelCounter (cluster # clusters) =
     (case ctype cluster of
        Visit \<Rightarrow> visitPoint originalLocations cluster visitCounter #
                 emitClusters originalLocations (Suc visitCounter) travelCounter clusters
      | Travel \<Rightarrow> map (travelPoint originalLocations cluster travelCounter) (pointIndices cluster) @
                  emitClusters originalLocations visitCounter (Suc travelCounter) clusters)"

definition processClusterToLocations ::
  "cluster list \<Rightarrow> 'm location_scheme list \<Rightarrow> 'm location_scheme list" where
  "processClusterToLocations clusters originalLocations =
     sort_key point_time (emitClusters originalLocations 1 1 (setTravelTiming clusters))"

declare findNextVisitStart.simps [model_simps] setTravelTiming_def [model_simps]
  visitPoint_def [model_simps] travelPoint_def [model_simps]
  processClusterToLocations_def [model_simps]

subsection \<open>The back-fill scans find the nearest visit\<close>

text \<open>Statement-level abstractions (not code): the end time of the last visit before
  position \<open>k\<close>, and the start time of the first visit from position \<open>k\<close> on.\<close>

definition prev_visit_end :: "cluster list \<Rightarrow> nat \<Rightarrow> int option" where
  "prev_visit_end cs k =
     (case filter (\<lambda>c. ctype c = Visit) (take k cs) of [] \<Rightarrow> None | vs \<Rightarrow> Some (endTime (last vs)))"

definition next_visit_start :: "cluster list \<Rightarrow> nat \<Rightarrow> int option" where
  "next_visit_start cs k =
     (case filter (\<lambda>c. ctype c = Visit) (drop k cs) of [] \<Rightarrow> None | v # _ \<Rightarrow> Some (startTime v))"

lemma findPrevVisitEnd_spec: "k \<le> length cs \<Longrightarrow> findPrevVisitEnd cs k = prev_visit_end cs k"
proof (induction k)
  case (Suc i)
  then have "take (Suc i) cs = take i cs @ [cs ! i]" by (simp add: take_Suc_conv_app_nth)
  with Suc show ?case
    by (cases "filter (\<lambda>c. ctype c = Visit) (take i cs)") (auto simp: prev_visit_end_def)
qed (simp add: prev_visit_end_def)

lemma findNextVisitStart_spec: "findNextVisitStart cs k = next_visit_start cs k"
proof (induction cs k rule: findNextVisitStart.induct)
  case (1 cs k)
  show ?case
  proof (cases "k < length cs")
    case True
    then have "drop k cs = cs ! k # drop (Suc k) cs" by (simp add: Cons_nth_drop_Suc)
    with True "1.IH" show ?thesis
      by (simp add: findNextVisitStart.simps [of cs k] next_visit_start_def)
  next
    case False
    then show ?thesis by (simp add: findNextVisitStart.simps [of cs k] next_visit_start_def)
  qed
qed

subsection \<open>The back-fill pass changes only the travel timing\<close>

lemma length_setTravelTiming [simp]: "length (setTravelTiming cs) = length cs"
  by (simp add: setTravelTiming_def)

lemma nth_setTravelTiming:
  "k < length cs \<Longrightarrow> setTravelTiming cs ! k =
     (if ctype (cs ! k) = Travel then
        (cs ! k)\<lparr>travelStartTime := Some (js_or (findPrevVisitEnd cs k) (startTime (cs ! k))),
                 travelEndTime := Some (js_or (findNextVisitStart cs (Suc k)) (endTime (cs ! k)))\<rparr>
      else cs ! k)"
  by (simp add: setTravelTiming_def Let_def)

lemma map_setTravelTiming:
  assumes "\<And>c a b. f (c\<lparr>travelStartTime := a, travelEndTime := b\<rparr>) = f c"
  shows "map f (setTravelTiming cs) = map f cs"
  by (rule nth_equalityI) (simp_all add: nth_setTravelTiming assms)

lemma map_filter_kind_eq:
  "map (\<lambda>c. (ctype c, g c)) xs = map (\<lambda>c. (ctype c, g c)) ys \<Longrightarrow>
   map g (filter (\<lambda>c. ctype c = k) xs) = map g (filter (\<lambda>c. ctype c = k) ys)"
proof (induction xs arbitrary: ys)
  case (Cons x xs)
  then show ?case by (cases ys) auto
qed simp

lemma setTravelTiming_kind_indices:
  "map pointIndices (filter (\<lambda>c. ctype c = k) (setTravelTiming cs)) =
   map pointIndices (filter (\<lambda>c. ctype c = k) cs)"
  by (rule map_filter_kind_eq) (simp add: map_setTravelTiming)

lemma length_filter_kind_setTravelTiming:
  "length (filter (\<lambda>c. ctype c = k) (setTravelTiming cs)) = length (filter (\<lambda>c. ctype c = k) cs)"
  using arg_cong [OF setTravelTiming_kind_indices [of k cs], of length] by simp

subsection \<open>Emission\<close>

lemma emitClusters_length:
  "length (emitClusters locs vc tc cs) =
   length (filter (\<lambda>c. ctype c = Visit) cs) +
   sum_list (map (\<lambda>c. length (pointIndices c)) (filter (\<lambda>c. ctype c = Travel) cs))"
  by (induction cs arbitrary: vc tc) (auto split: kind.split)

lemma emitClusters_visit_ids:
  "map node_event_id (filter (\<lambda>p. node_event_type p = Some Visit) (emitClusters locs vc tc cs)) =
   map Some [vc..<vc + length (filter (\<lambda>c. ctype c = Visit) cs)]"
proof (induction cs arbitrary: vc tc)
  case (Cons c cs)
  show ?case
  proof (cases "ctype c")
    case Visit
    let ?n = "length (filter (\<lambda>c. ctype c = Visit) cs)"
    have "[vc..<vc + Suc ?n] = vc # [Suc vc..<Suc vc + ?n]" by (simp add: upt_conv_Cons del: upt_Suc)
    with Visit Cons.IH [of "Suc vc" tc] show ?thesis by (simp add: visitPoint_def Let_def)
  next
    case Travel
    with Cons.IH [of vc "Suc tc"] show ?thesis by (simp add: travelPoint_def comp_def)
  qed
qed simp

lemma emitClusters_travel_points:
  "map resetEventMetadata (filter (\<lambda>p. node_event_type p = Some Travel) (emitClusters locs vc tc cs)) =
   map (\<lambda>i. resetEventMetadata (locs ! i)) (concat (map pointIndices (filter (\<lambda>c. ctype c = Travel) cs)))"
proof (induction cs arbitrary: vc tc)
  case (Cons c cs)
  then show ?case
    by (cases "ctype c")
       (simp_all add: visitPoint_def travelPoint_def resetEventMetadata_def Let_def comp_def)
qed simp

lemma visitPoint_time:
  "pointIndices c \<noteq> [] \<Longrightarrow> point_time (visitPoint locs c n) = point_time (locs ! hd (pointIndices c))"
  by (simp add: visitPoint_def Let_def point_time_def js_or_idem hd_conv_nth del: js_or_Some)

lemma processClusterToLocations_length:
  "length (processClusterToLocations cs locs) =
   length (filter (\<lambda>c. ctype c = Visit) cs) +
   sum_list (map (\<lambda>c. length (pointIndices c)) (filter (\<lambda>c. ctype c = Travel) cs))"
proof -
  have "map (\<lambda>c. length (pointIndices c)) (filter (\<lambda>c. ctype c = Travel) (setTravelTiming cs)) =
        map (\<lambda>c. length (pointIndices c)) (filter (\<lambda>c. ctype c = Travel) cs)"
    using arg_cong [OF setTravelTiming_kind_indices [of Travel cs], of "map length"] by (simp add: comp_def)
  then show ?thesis
    by (simp add: processClusterToLocations_def emitClusters_length length_filter_kind_setTravelTiming)
qed

lemma emitted_count_le:
  "\<forall>c\<in>set cs. pointIndices c \<noteq> [] \<Longrightarrow>
   length (filter (\<lambda>c. ctype c = Visit) cs) +
   sum_list (map (\<lambda>c. length (pointIndices c)) (filter (\<lambda>c. ctype c = Travel) cs)) \<le>
   length (concat (map pointIndices cs))"
proof (induction cs)
  case (Cons c cs)
  then have "1 \<le> length (pointIndices c)" by (simp add: Suc_le_eq)
  with Cons show ?case by (cases "ctype c") auto
qed simp

lemma processClusterToLocations_length_le:
  "\<forall>c\<in>set cs. pointIndices c \<noteq> [] \<Longrightarrow>
   length (processClusterToLocations cs locs) \<le> length (concat (map pointIndices cs))"
  unfolding processClusterToLocations_length by (rule emitted_count_le)

subsection \<open>Properties of materialisation\<close>

text \<open>
  C15. Output point count (spec, section 8): materialisation emits one point per visit
  cluster and one point per member of each travel cluster.
\<close>

theorem materialize_count:
  "length (processClusterToLocations cs locs) =
   length (filter (\<lambda>c. ctype c = Visit) cs) +
   sum_list (map (\<lambda>c. length (pointIndices c)) (filter (\<lambda>c. ctype c = Travel) cs))"
  by (rule processClusterToLocations_length)

text \<open>
  The output is the list of emitted points, reordered: the same points with the same
  multiplicities, in ascending capture time, and points with equal capture time keep their
  emission order (the sort is stable).
\<close>

theorem materialize_sorted_permutation:
  "mset (processClusterToLocations cs locs) = mset (emitClusters locs 1 1 (setTravelTiming cs)) \<and>
   sorted (map point_time (processClusterToLocations cs locs)) \<and>
   filter (\<lambda>p. point_time p = t) (processClusterToLocations cs locs) =
     filter (\<lambda>p. point_time p = t) (emitClusters locs 1 1 (setTravelTiming cs))"
  by (simp add: processClusterToLocations_def sort_key_stable)

text \<open>
  C17. Visit ids: the visit points of the output carry the ids \<open>1, \<dots>, V\<close>, each once,
  where \<open>V\<close> is the number of visit clusters.
\<close>

theorem materialize_visit_ids:
  "mset (map node_event_id (filter (\<lambda>p. node_event_type p = Some Visit) (processClusterToLocations cs locs))) =
   mset (map Some [1..<Suc (length (filter (\<lambda>c. ctype c = Visit) cs))])"
proof -
  have "mset (map node_event_id (filter (\<lambda>p. node_event_type p = Some Visit) (processClusterToLocations cs locs))) =
        mset (map node_event_id (filter (\<lambda>p. node_event_type p = Some Visit)
                (emitClusters locs 1 1 (setTravelTiming cs))))"
    unfolding processClusterToLocations_def by (rule mset_map_filter_sort_key)
  then show ?thesis
    by (simp add: emitClusters_visit_ids length_filter_kind_setTravelTiming)
qed

text \<open>
  C18. Travel points are the original points: with the event metadata cleared, the travel
  points of the output are exactly the input points at the members of the travel
  clusters, each once.
\<close>

theorem materialize_travel_points:
  "mset (map resetEventMetadata (filter (\<lambda>p. node_event_type p = Some Travel) (processClusterToLocations cs locs))) =
   mset (map (\<lambda>i. resetEventMetadata (locs ! i)) (concat (map pointIndices (filter (\<lambda>c. ctype c = Travel) cs))))"
proof -
  have "mset (map resetEventMetadata (filter (\<lambda>p. node_event_type p = Some Travel) (processClusterToLocations cs locs))) =
        mset (map resetEventMetadata (filter (\<lambda>p. node_event_type p = Some Travel)
                (emitClusters locs 1 1 (setTravelTiming cs))))"
    unfolding processClusterToLocations_def by (rule mset_map_filter_sort_key)
  then show ?thesis
    by (simp only: emitClusters_travel_points setTravelTiming_kind_indices)
qed

text \<open>
  C19. Timing back-fill: a travel cluster's \<open>travelStartTime\<close> is the end time of the
  nearest visit before it, and its \<open>travelEndTime\<close> the start time of the nearest visit
  after it. When there is no such visit, or its time is \<open>0\<close> (falsy), the cluster's own
  \<open>startTime\<close> or \<open>endTime\<close> is used.
\<close>

theorem travel_backfill:
  assumes "k < length cs" and "ctype (cs ! k) = Travel"
  shows "travelStartTime (setTravelTiming cs ! k) = Some (js_or (prev_visit_end cs k) (startTime (cs ! k))) \<and>
         travelEndTime (setTravelTiming cs ! k) = Some (js_or (next_visit_start cs (Suc k)) (endTime (cs ! k)))"
  using assms by (simp add: nth_setTravelTiming findPrevVisitEnd_spec findNextVisitStart_spec)

text \<open>
  A visit point has the mean latitude and longitude of its cluster's members, the
  capture time of the first member, and the cluster's start and end time as event bounds.
\<close>

theorem visit_point_summary:
  assumes "pointIndices c \<noteq> []"
  shows "lat (visitPoint locs c n) = mean (map (\<lambda>i. lat (locs ! i)) (pointIndices c)) \<and>
         lon (visitPoint locs c n) = mean (map (\<lambda>i. lon (locs ! i)) (pointIndices c)) \<and>
         point_time (visitPoint locs c n) = point_time (locs ! hd (pointIndices c)) \<and>
         node_event_start (visitPoint locs c n) = Some (startTime c) \<and>
         node_event_end (visitPoint locs c n) = Some (endTime c)"
  using visitPoint_time [OF assms] by (simp add: visitPoint_def Let_def comp_def)

end
