(* ===== verification/Geometry.thy ===== *)
theory Geometry
  imports Prelude
begin

text \<open>
  The distance primitive \<open>calculateDistanceInMeters\<close> (\<open>locationEnhancer.js\<close>,
  lines 58--74): the Haversine great-circle distance with Earth radius 6\,371\,000 m.
  \<open>Math.sin\<close>, \<open>Math.cos\<close>, \<open>Math.sqrt\<close> and \<open>Math.PI\<close> are HOL's \<open>sin\<close>,
  \<open>cos\<close>, \<open>sqrt\<close> and \<open>pi\<close> on the reals. \<open>Math.atan2\<close> is \<open>js_atan2\<close>. It follows the
  ECMAScript definition of \<open>atan2(y, x)\<close> for finite arguments, with \<open>+0\<close> for
  \<open>atan2(0, 0)\<close>. Two differences from floating point are not modelled: rounding, and
  \<open>Math.sqrt\<close> of a negative number, which is \<open>NaN\<close> in JavaScript. The second can only
  arise for latitudes outside \<open>[-90, 90]\<close>, where the Haversine term \<open>a\<close> may leave
  \<open>[0, 1]\<close>.
\<close>

definition js_atan2 :: "real \<Rightarrow> real \<Rightarrow> real" where
  "js_atan2 y x =
     (if 0 < x then arctan (y / x)
      else if x < 0 then (if 0 \<le> y then arctan (y / x) + pi else arctan (y / x) - pi)
      else if 0 < y then pi / 2
      else if y < 0 then - (pi / 2)
      else 0)"

definition haversine_a :: "coord \<Rightarrow> coord \<Rightarrow> real" where
  "haversine_a point1 point2 =
     (let lat1Rad = (fst point1 * pi) / 180;
          lat2Rad = (fst point2 * pi) / 180;
          deltaLatRad = ((fst point2 - fst point1) * pi) / 180;
          deltaLonRad = ((snd point2 - snd point1) * pi) / 180
      in sin (deltaLatRad / 2) * sin (deltaLatRad / 2) +
         cos lat1Rad * cos lat2Rad * sin (deltaLonRad / 2) * sin (deltaLonRad / 2))"

definition calculateDistanceInMeters :: dist_fn where
  "calculateDistanceInMeters point1 point2 =
     (let R = 6371000;
          a = haversine_a point1 point2;
          c = 2 * js_atan2 (sqrt a) (sqrt (1 - a))
      in R * c)"

subsection \<open>Lemmas\<close>

lemma js_atan2_nonneg_bounds:
  assumes "0 \<le> y" and "0 \<le> x"
  shows "0 \<le> js_atan2 y x \<and> js_atan2 y x \<le> pi / 2"
proof (cases "0 < x")
  case True
  have "0 \<le> arctan (y / x)" using assms True by simp
  moreover have "arctan (y / x) < pi / 2" by (rule arctan_ubound)
  ultimately show ?thesis using True by (simp add: js_atan2_def)
next
  case False
  with assms show ?thesis by (simp add: js_atan2_def)
qed

lemma lat_rad_bounds:
  assumes "\<bar>v\<bar> \<le> 90"
  shows "- (pi / 2) \<le> v * pi / 180 \<and> v * pi / 180 \<le> pi / 2"
proof -
  have "-90 \<le> v" "v \<le> 90" using assms by linarith+
  have "-90 * pi \<le> v * pi" using \<open>-90 \<le> v\<close> pi_ge_zero by (rule mult_right_mono)
  moreover have "v * pi \<le> 90 * pi" using \<open>v \<le> 90\<close> pi_ge_zero by (rule mult_right_mono)
  ultimately show ?thesis by simp
qed

lemma sin_half_diff_sq:
  "sin ((b - a) * pi / 180 / 2) * sin ((b - a) * pi / 180 / 2) =
   sin ((a - b) * pi / 180 / 2) * sin ((a - b) * pi / 180 / 2)"
proof -
  have "(b - a) * pi / 180 / 2 = - ((a - b) * pi / 180 / 2)" by (simp add: field_simps)
  then show ?thesis by (simp only: sin_minus mult_minus_left mult_minus_right minus_minus)
qed

lemma haversine_a_sym: "haversine_a p q = haversine_a q p"
proof -
  have lon: "k * sin ((snd q - snd p) * pi / 180 / 2) * sin ((snd q - snd p) * pi / 180 / 2) =
             k * sin ((snd p - snd q) * pi / 180 / 2) * sin ((snd p - snd q) * pi / 180 / 2)" for k
    using sin_half_diff_sq [of "snd p" "snd q"] by (simp only: mult.assoc)
  show ?thesis
    unfolding haversine_a_def Let_def
    by (simp only: sin_half_diff_sq [of "fst p" "fst q"] lon
          mult.commute [of "cos (fst p * pi / 180)" "cos (fst q * pi / 180)"])
qed

lemma haversine_a_nonneg:
  assumes "\<bar>fst p\<bar> \<le> 90" and "\<bar>fst q\<bar> \<le> 90"
  shows "0 \<le> haversine_a p q"
proof -
  have c: "0 \<le> cos (fst x * pi / 180)" if "\<bar>fst x\<bar> \<le> 90" for x :: coord
    using lat_rad_bounds [OF that] by (intro cos_ge_zero) simp_all
  have "0 \<le> cos (fst p * pi / 180) * cos (fst q * pi / 180) * (sin ((snd q - snd p) * pi / 180 / 2) * sin ((snd q - snd p) * pi / 180 / 2))"
    using c [OF assms(1)] c [OF assms(2)] by simp
  then show ?thesis
    unfolding haversine_a_def Let_def by (simp add: mult.assoc)
qed

lemma haversine_a_le_one:
  assumes "\<bar>fst p\<bar> \<le> 90" and "\<bar>fst q\<bar> \<le> 90"
  shows "haversine_a p q \<le> 1"
proof -
  define x where "x = fst p * pi / 180"
  define y where "y = fst q * pi / 180"
  define w where "w = (snd q - snd p) * pi / 180 / 2"
  have cx: "0 \<le> cos x" and cy: "0 \<le> cos y"
    using lat_rad_bounds [OF assms(1)] lat_rad_bounds [OF assms(2)]
    by (simp_all add: x_def y_def cos_ge_zero)
  have "sin w * sin w = 1 - cos w * cos w"
    using sin_squared_eq [of w] by (simp add: power2_eq_square)
  then have s: "sin w * sin w \<le> 1"
    using zero_le_square [of "cos w"] by linarith
  have sq: "sin ((y - x) / 2) * sin ((y - x) / 2) = (1 - cos (x - y)) / 2"
  proof -
    define z where "z = (y - x) / 2"
    have "y - x = 2 * z" by (simp add: z_def)
    moreover have "cos (y - x) = cos (x - y)" by (metis cos_minus minus_diff_eq)
    ultimately show ?thesis
      using cos_double_sin [of z] by (simp add: z_def [symmetric] power2_eq_square)
  qed
  have "sin ((y - x) / 2) * sin ((y - x) / 2) + cos x * cos y * (sin w * sin w) \<le>
        sin ((y - x) / 2) * sin ((y - x) / 2) + cos x * cos y"
    using s cx cy by (simp add: mult_left_le)
  also have "\<dots> = (1 + cos (x + y)) / 2"
    by (simp add: sq cos_diff cos_add field_simps)
  also have "\<dots> \<le> 1" by simp
  finally have "sin ((y - x) / 2) * sin ((y - x) / 2) + cos x * cos y * (sin w * sin w) \<le> 1" .
  moreover have "haversine_a p q = sin ((y - x) / 2) * sin ((y - x) / 2) + cos x * cos y * (sin w * sin w)"
    unfolding haversine_a_def Let_def x_def y_def w_def by (simp add: field_simps)
  ultimately show ?thesis by simp
qed

lemma calculateDistanceInMeters_self [simp, model_simps]: "calculateDistanceInMeters p p = 0"
  by (simp add: calculateDistanceInMeters_def haversine_a_def js_atan2_def)

lemma calculateDistanceInMeters_sym: "calculateDistanceInMeters p q = calculateDistanceInMeters q p"
  by (simp add: calculateDistanceInMeters_def haversine_a_sym)

text \<open>Two points on the equator 180 degrees of longitude apart are half a great circle apart.\<close>

lemma calculateDistanceInMeters_antipodal:
  "calculateDistanceInMeters (0, 0) (0, 180) = 6371000 * pi"
  "calculateDistanceInMeters (0, 180) (0, 0) = 6371000 * pi"
proof -
  have "haversine_a (0, 0) (0, 180) = 1"
    by (simp add: haversine_a_def)
  then show "calculateDistanceInMeters (0, 0) (0, 180) = 6371000 * pi"
    by (simp add: calculateDistanceInMeters_def js_atan2_def)
  then show "calculateDistanceInMeters (0, 180) (0, 0) = 6371000 * pi"
    by (simp add: calculateDistanceInMeters_sym)
qed

text \<open>The same fact as the simplifier uses it on concrete tracks: such points are never
  within a radius below the Earth's diameter.\<close>

lemma calculateDistanceInMeters_antipodal_far [model_simps]:
  "r < 12742000 \<Longrightarrow> \<not> calculateDistanceInMeters (0, 0) (0, 180) \<le> r"
  "r < 12742000 \<Longrightarrow> \<not> calculateDistanceInMeters (0, 180) (0, 0) \<le> r"
  using pi_ge_two by (simp_all add: calculateDistanceInMeters_antipodal)

lemma calculateDistanceInMeters_antipodal_gt [model_simps]:
  "r < 12742000 \<Longrightarrow> r < calculateDistanceInMeters (0, 0) (0, 180)"
  "r < 12742000 \<Longrightarrow> r < calculateDistanceInMeters (0, 180) (0, 0)"
  using pi_ge_two by (simp_all add: calculateDistanceInMeters_antipodal)

text \<open>Two points on the equator 90 degrees of longitude apart are a quarter of a great
  circle apart.\<close>

lemma calculateDistanceInMeters_quarter:
  assumes "b - a = 90 \<or> a - b = 90"
  shows "calculateDistanceInMeters (0, a) (0, b) = 6371000 * pi / 2"
proof -
  have "(b - a) * pi / 180 / 2 = pi / 4 \<or> (b - a) * pi / 180 / 2 = - (pi / 4)"
    using assms by (auto simp: field_simps)
  then have "sin ((b - a) * pi / 180 / 2) * sin ((b - a) * pi / 180 / 2) = 1 / 2"
    by (auto simp: sin_45)
  then have h: "haversine_a (0, a) (0, b) = 1 / 2"
    by (simp add: haversine_a_def)
  have "calculateDistanceInMeters (0, a) (0, b) =
        6371000 * (2 * js_atan2 (sqrt (1 / 2)) (sqrt (1 - 1 / 2)))"
    by (simp only: calculateDistanceInMeters_def Let_def h)
  also have "js_atan2 (sqrt (1 / 2)) (sqrt (1 - 1 / 2)) = pi / 4"
    by (simp add: js_atan2_def arctan_one)
  finally show ?thesis by simp
qed

lemma calculateDistanceInMeters_quarter_far [model_simps]:
  "b - a = 90 \<or> a - b = 90 \<Longrightarrow> r < 6371000 \<Longrightarrow> \<not> calculateDistanceInMeters (0, a) (0, b) \<le> r"
  "b - a = 90 \<or> a - b = 90 \<Longrightarrow> r < 6371000 \<Longrightarrow> r < calculateDistanceInMeters (0, a) (0, b)"
proof -
  assume "b - a = 90 \<or> a - b = 90" and r: "r < 6371000"
  moreover have "6371000 \<le> 6371000 * pi / 2" using pi_ge_two by simp
  ultimately show "\<not> calculateDistanceInMeters (0, a) (0, b) \<le> r"
    and "r < calculateDistanceInMeters (0, a) (0, b)"
    by (simp_all add: calculateDistanceInMeters_quarter)
qed

text \<open>A lower bound by the latitude difference: the great-circle distance is at least the
  distance along a meridian, \<open>R\<close> times the latitude difference in radians.\<close>

lemma js_atan2_half_angle:
  assumes "sin d * sin d \<le> a" "a \<le> 1" "\<bar>d\<bar> \<le> pi / 2"
  shows "\<bar>d\<bar> \<le> js_atan2 (sqrt a) (sqrt (1 - a))"
proof (cases "a = 1")
  case True
  then show ?thesis using assms(3) by (simp add: js_atan2_def)
next
  case False
  with assms(2) have a1: "a < 1" by simp
  define t where "t = \<bar>d\<bar>"
  have st: "sin t * sin t = sin d * sin d"
    by (cases "0 \<le> d") (simp_all add: t_def)
  have "t \<noteq> pi / 2"
  proof
    assume h: "t = pi / 2"
    have "sin t = 1" by (simp add: h)
    with st have "sin d * sin d = 1" by simp
    with assms(1) a1 show False by simp
  qed
  then have t: "0 \<le> t" "t < pi / 2" using assms(3) by (simp_all add: t_def)
  then have ct: "0 < cos t" by (intro cos_gt_zero_pi) simp_all
  have "0 \<le> sin t" using t by (intro sin_ge_zero) simp_all
  then have tan_nn: "0 \<le> tan t" using ct by (simp add: tan_def)
  have "tan t * tan t = (sin t * sin t) / (1 - sin t * sin t)"
    using ct sin_squared_eq [of t] by (simp add: tan_def power2_eq_square)
  also have "\<dots> \<le> a / (1 - a)"
  proof -
    have s1: "sin t * sin t \<le> a" using assms(1) st by simp
    then have "sin t * sin t * (1 - a) \<le> a * (1 - sin t * sin t)" by (simp add: algebra_simps)
    moreover have "0 < 1 - sin t * sin t" using s1 a1 by simp
    ultimately show ?thesis using a1 by (simp add: divide_simps mult.commute)
  qed
  finally have "tan t \<le> sqrt (a / (1 - a))"
    using tan_nn by (metis real_le_rsqrt power2_eq_square)
  then have "tan t \<le> sqrt a / sqrt (1 - a)" by (simp add: real_sqrt_divide)
  then have "arctan (tan t) \<le> arctan (sqrt a / sqrt (1 - a))" by (simp add: arctan_le_iff)
  moreover have "arctan (tan t) = t" using t by (intro arctan_tan) simp_all
  moreover have "js_atan2 (sqrt a) (sqrt (1 - a)) = arctan (sqrt a / sqrt (1 - a))"
    using a1 by (simp add: js_atan2_def)
  ultimately show ?thesis by (simp add: t_def)
qed

lemma calculateDistanceInMeters_ge_lat:
  assumes "\<bar>fst p\<bar> \<le> 90" and "\<bar>fst q\<bar> \<le> 90"
  shows "6371000 * (\<bar>fst q - fst p\<bar> * pi / 180) \<le> calculateDistanceInMeters p q"
proof -
  define d where "d = (fst q - fst p) * pi / 180 / 2"
  have "\<bar>fst q - fst p\<bar> \<le> 180" using assms by linarith
  then have "\<bar>fst q - fst p\<bar> * pi \<le> 180 * pi" by (simp add: mult_right_mono)
  then have dle: "\<bar>d\<bar> \<le> pi / 2" by (simp add: d_def abs_mult)
  have c: "0 \<le> cos (fst x * pi / 180)" if "\<bar>fst x\<bar> \<le> 90" for x :: coord
    using lat_rad_bounds [OF that] by (intro cos_ge_zero) simp_all
  have lonterm: "0 \<le> cos (fst p * pi / 180) * cos (fst q * pi / 180) *
      (sin ((snd q - snd p) * pi / 180 / 2) * sin ((snd q - snd p) * pi / 180 / 2))"
    using c [OF assms(1)] c [OF assms(2)] by simp
  have "sin d * sin d \<le> haversine_a p q"
    using lonterm unfolding haversine_a_def Let_def d_def by (simp add: mult.assoc)
  then have "\<bar>d\<bar> \<le> js_atan2 (sqrt (haversine_a p q)) (sqrt (1 - haversine_a p q))"
    using js_atan2_half_angle haversine_a_le_one [OF assms] dle by blast
  moreover have "\<bar>fst q - fst p\<bar> * pi / 180 = 2 * \<bar>d\<bar>" by (simp add: d_def abs_mult)
  ultimately show ?thesis by (simp add: calculateDistanceInMeters_def Let_def)
qed

text \<open>As the simplifier uses it on concrete tracks: points more than \<open>0.004\<close> degrees of
  latitude apart are more than 250 m apart.\<close>

lemma calculateDistanceInMeters_far_lat [model_simps]:
  assumes "\<bar>fst p\<bar> \<le> 90" "\<bar>fst q\<bar> \<le> 90" "1 / 250 \<le> \<bar>fst q - fst p\<bar>" "r \<le> 250"
  shows "\<not> calculateDistanceInMeters p q \<le> r"
proof -
  have "6371000 * (1 / 250 * 2 / 180) \<le> 6371000 * (\<bar>fst q - fst p\<bar> * pi / 180)"
    using assms(3) pi_ge_two by (intro mult_left_mono divide_right_mono mult_mono) simp_all
  then show ?thesis using calculateDistanceInMeters_ge_lat [OF assms(1,2)] assms(4) by simp
qed

subsection \<open>Properties of the distance\<close>

text \<open>
  For latitudes within \<open>[-90, 90]\<close> the computed distance lies between
  \<open>0\<close> and half the Earth's circumference \<open>6371000 \<cdot> pi\<close> metres.
\<close>

theorem distance_bounds:
  assumes "\<bar>fst p\<bar> \<le> 90" and "\<bar>fst q\<bar> \<le> 90"
  shows "0 \<le> calculateDistanceInMeters p q \<and> calculateDistanceInMeters p q \<le> 6371000 * pi"
proof -
  let ?a = "haversine_a p q"
  have "0 \<le> ?a" and "?a \<le> 1"
    using haversine_a_nonneg [OF assms] haversine_a_le_one [OF assms] by simp_all
  then have "0 \<le> js_atan2 (sqrt ?a) (sqrt (1 - ?a)) \<and> js_atan2 (sqrt ?a) (sqrt (1 - ?a)) \<le> pi / 2"
    by (intro js_atan2_nonneg_bounds) simp_all
  then show ?thesis
    by (simp add: calculateDistanceInMeters_def Let_def)
qed

text \<open>
  The distance of a point to itself is zero, and the distance does not
  depend on the order of its arguments, so a centre-to-point comparison is the same as a
  point-to-centre one.
\<close>

theorem distance_zero_symmetric:
  "calculateDistanceInMeters p p = 0 \<and> calculateDistanceInMeters p q = calculateDistanceInMeters q p"
  by (simp add: calculateDistanceInMeters_sym)

end
