(* ===== verification/Pipeline.thy ===== *)
theory Pipeline
  imports Discovery Merge Materialize Geometry
begin

text \<open>
  The entry points of the location enhancer (\<open>locationEnhancer.js\<close>):
  \<open>enhanceLocationData\<close> (lines 19--49) and \<open>clusterLocationPoints\<close> (lines 84--138).
  A \<open>LocationHistory\<close> is a JavaScript object \<open>user \<rightarrow> device \<rightarrow> points\<close>. Its keys
  are visited in insertion order by \<open>Object.keys\<close>, and the result object is built in the
  same order, so it is the association list \<open>'m history\<close>.
  \<^item> \<open>enhanceLocationData\<close> first sets the four metadata fields of every point to
    \<open>null\<close> (\<open>resetHistory\<close>). This happens in place, so the caller's history changes
    too. Then, when \<open>clusteringConfig.enabled\<close> is truthy, it clusters.
  \<^item> The options are read with \<open>|| default\<close> (\<open>js_or\<close>), so \<open>0\<close> and a missing value
    both give the default. The configuration \<open>{}\<close>, the default argument, is
    \<open>default_config\<close>.
  \<^item> Per device, \<open>clusterDevice\<close> copies the list, sorts it stably by capture time, and
    runs discovery (with \<open>calculateDistanceInMeters\<close>), the merge pass and
    materialisation.
\<close>

type_synonym 'm history = "(string \<times> (string \<times> 'm location_scheme list) list) list"

record clustering_config =
  enabled :: bool
  clusterRadius :: "real option"
  minVisitClusterSize :: "nat option"
  minTravelClusterSize :: "nat option"

definition default_config :: clustering_config where
  "default_config =
     \<lparr>enabled = False, clusterRadius = None, minVisitClusterSize = None, minTravelClusterSize = None\<rparr>"

definition clusterDevice :: "real \<Rightarrow> nat \<Rightarrow> nat \<Rightarrow> 'm location_scheme list \<Rightarrow> 'm location_scheme list" where
  "clusterDevice CLUSTER_RADIUS MIN_VISIT_CLUSTER_SIZE MIN_TRAVEL_CLUSTER_SIZE deviceLocations =
     (let locations = sort_key point_time deviceLocations;
          clusters = findLocationClusters calculateDistanceInMeters locations CLUSTER_RADIUS
                       MIN_VISIT_CLUSTER_SIZE MIN_TRAVEL_CLUSTER_SIZE;
          mergedClusters = mergeConsecutiveTravelClusters clusters
      in processClusterToLocations mergedClusters locations)"

definition clusterLocationPoints :: "'m history \<Rightarrow> clustering_config \<Rightarrow> 'm history" where
  "clusterLocationPoints locationHistory clusteringConfig =
     (let CLUSTER_RADIUS = js_or (clusterRadius clusteringConfig) 20;
          MIN_VISIT_CLUSTER_SIZE = js_or (minVisitClusterSize clusteringConfig) 3;
          MIN_TRAVEL_CLUSTER_SIZE = js_or (minTravelClusterSize clusteringConfig) 7
      in map (\<lambda>(user, devices).
                (user, map (\<lambda>(device, locations).
                              (device, clusterDevice CLUSTER_RADIUS MIN_VISIT_CLUSTER_SIZE
                                         MIN_TRAVEL_CLUSTER_SIZE locations))
                         devices))
           locationHistory)"

definition resetHistory :: "'m history \<Rightarrow> 'm history" where
  "resetHistory rawLocationHistory =
     map (\<lambda>(user, devices). (user, map (\<lambda>(device, points). (device, map resetEventMetadata points)) devices))
       rawLocationHistory"

definition enhanceLocationData :: "'m history \<Rightarrow> clustering_config \<Rightarrow> 'm history" where
  "enhanceLocationData rawLocationHistory clusteringConfig =
     (let rawLocationHistory = resetHistory rawLocationHistory
      in if enabled clusteringConfig then clusterLocationPoints rawLocationHistory clusteringConfig
         else rawLocationHistory)"

declare default_config_def [model_simps] clusterDevice_def [model_simps]
  clusterLocationPoints_def [model_simps] resetHistory_def [model_simps]
  enhanceLocationData_def [model_simps]

text \<open>The history restricted to one user and device, as the expression
  \<open>h[user][device]\<close> reads it (absent keys give \<open>None\<close>).\<close>

definition device_points :: "'m history \<Rightarrow> string \<Rightarrow> string \<Rightarrow> 'm location_scheme list option" where
  "device_points h user device = Option.bind (map_of h user) (\<lambda>devices. map_of devices device)"

subsection \<open>Lemmas\<close>

lemma map_of_map_snd:
  "map_of (map (\<lambda>(k, v). (k, f v)) xs) k = map_option f (map_of xs k)"
  by (induction xs) auto

lemma map_fst_map_snd: "map fst (map (\<lambda>(k, v). (k, f v)) xs) = map fst xs"
  by (induction xs) auto

lemma device_points_map:
  "device_points (map (\<lambda>(user, devices). (user, map (\<lambda>(device, ps). (device, f ps)) devices)) h) u d =
   map_option f (device_points h u d)"
proof -
  have "map_of (map (\<lambda>(user, devices). (user, map (\<lambda>(device, ps). (device, f ps)) devices)) h) u =
        map_option (\<lambda>devices. map (\<lambda>(device, ps). (device, f ps)) devices) (map_of h u)"
    by (rule map_of_map_snd)
  then show ?thesis
    by (cases "map_of h u") (simp_all add: device_points_def map_of_map_snd)
qed

lemma resetHistory_keys: "map fst (resetHistory h) = map fst h"
  unfolding resetHistory_def by (rule map_fst_map_snd)

lemma device_points_reset:
  "device_points (resetHistory h) u d = map_option (map resetEventMetadata) (device_points h u d)"
  unfolding resetHistory_def by (rule device_points_map)

lemma device_points_cluster:
  "device_points (clusterLocationPoints h cfg) u d =
   map_option (clusterDevice (js_or (clusterRadius cfg) 20) (js_or (minVisitClusterSize cfg) 3)
                 (js_or (minTravelClusterSize cfg) 7))
     (device_points h u d)"
  unfolding clusterLocationPoints_def Let_def by (rule device_points_map)

lemma device_points_enhance:
  "device_points (enhanceLocationData h cfg) u d =
   map_option (\<lambda>ps. if enabled cfg then
                       clusterDevice (js_or (clusterRadius cfg) 20) (js_or (minVisitClusterSize cfg) 3)
                         (js_or (minTravelClusterSize cfg) 7) (map resetEventMetadata ps)
                     else map resetEventMetadata ps)
     (device_points h u d)"
  by (cases "enabled cfg")
     (simp_all add: enhanceLocationData_def device_points_reset device_points_cluster
        option.map_comp comp_def)

lemma clusterDevice_length_le: "length (clusterDevice r mv mt ps) \<le> length ps"
proof -
  let ?locs = "sort_key point_time ps"
  let ?cs = "findLocationClusters calculateDistanceInMeters ?locs r mv mt"
  have "length (clusterDevice r mv mt ps) \<le>
        length (concat (map pointIndices (mergeConsecutiveTravelClusters ?cs)))"
    unfolding clusterDevice_def Let_def
    by (rule processClusterToLocations_length_le
          [OF mergeConsecutiveTravelClusters_nonempty [OF findLocationClusters_nonempty]])
  also have "\<dots> = length (concat (map pointIndices ?cs))"
    by (simp only: mergeConsecutiveTravelClusters_indices)
  also have "\<dots> \<le> length ?locs"
    using findLocationClusters_indices [of calculateDistanceInMeters ?locs r mv mt]
    by (blast intro: sorted_less_length_bound)
  finally show ?thesis by simp
qed

lemma clusterDevice_short: "length ps \<le> 1 \<Longrightarrow> clusterDevice r mv mt ps = []"
  by (simp add: clusterDevice_def findLocationClusters_def mergeConsecutiveTravelClusters_def
        processClusterToLocations_def setTravelTiming_def)

subsection \<open>Properties of the entry points\<close>

text \<open>
  Round trip with clustering disabled (spec, section 8): every user and device keeps
  its points, in order and as many, with the four metadata fields cleared.
\<close>

theorem disabled_roundtrip:
  assumes "\<not> enabled cfg"
  shows "map fst (enhanceLocationData h cfg) = map fst h \<and>
         device_points (enhanceLocationData h cfg) u d =
           map_option (map resetEventMetadata) (device_points h u d)"
  using assms by (simp add: enhanceLocationData_def device_points_reset resetHistory_keys)

text \<open>
  C22. With clustering enabled, a device with a single point loses it: discovery returns
  no cluster for fewer than two points, so the device's output list is empty.
\<close>

theorem single_point_dropped:
  assumes "enabled cfg" and "device_points h u d = Some [p]"
  shows "device_points (enhanceLocationData h cfg) u d = Some []"
  using assms by (simp add: device_points_enhance clusterDevice_short)

text \<open>
  With clustering enabled, no device's output has more points than its input.
\<close>

theorem enhance_never_grows:
  assumes "device_points h u d = Some ps"
  shows "\<exists>qs. device_points (enhanceLocationData h cfg) u d = Some qs \<and> length qs \<le> length ps"
proof -
  have "length (clusterDevice a b c (map resetEventMetadata ps)) \<le> length ps" for a b c
    using clusterDevice_length_le [of a b c "map resetEventMetadata ps"] by simp
  with assms show ?thesis by (auto simp: device_points_enhance)
qed

lemma clusterDevice_stationary:
  assumes "2 \<le> length ps" and "mv \<le> length ps" and "0 \<le> r" and "\<forall>p\<in>set ps. coord p = x"
  shows "\<exists>v. clusterDevice r mv mt ps = [v] \<and> node_event_type v = Some Visit \<and> coord v = x \<and>
           node_event_id v = Some 1 \<and> node_event_start v = Some (Min (point_time ` set ps)) \<and>
           node_event_end v = Some (Max (point_time ` set ps))"
proof -
  let ?locs = "sort_key point_time ps"
  have len: "length ?locs = length ps" and st: "set ?locs = set ps" by simp_all
  have all: "\<forall>k<length ?locs. coord (?locs ! k) = x"
  proof (intro allI impI)
    fix k assume "k < length ?locs"
    then have "?locs ! k \<in> set ps" using nth_mem [of k ?locs] by simp
    with assms(4) show "coord (?locs ! k) = x" by blast
  qed
  have "calculateDistanceInMeters x x \<le> r" using assms(3) by simp
  then obtain c where c: "findLocationClusters calculateDistanceInMeters ?locs r mv mt = [c]"
    "ctype c = Visit" "pointIndices c = [0..<length ?locs]" "startTime c = point_time (?locs ! 0)"
    "endTime c = point_time (?locs ! (length ?locs - 1))"
    using findLocationClusters_stationary [of ?locs x calculateDistanceInMeters r mv mt] assms(1,2) all len
    by auto
  let ?v = "visitPoint ?locs c 1"
  have out: "clusterDevice r mv mt ps = [?v]"
    using c(1,2) by (simp add: clusterDevice_def mergeConsecutiveTravelClusters_def
                      processClusterToLocations_def setTravelTiming_def)
  have ne: "?locs \<noteq> []" using assms(1) len by (intro two_le_length_nonempty) simp
  have lat: "map (\<lambda>i. lat (?locs ! i)) [0..<length ps] = map (\<lambda>_. fst x) [0..<length ps]"
    and lon: "map (\<lambda>i. lon (?locs ! i)) [0..<length ps] = map (\<lambda>_. snd x) [0..<length ps]"
    using all len by (auto simp: coord_def prod_eq_iff)
  have nz: "[0..<length ps] \<noteq> []" using two_le_length_nonempty [OF assms(1)] by simp
  have "mean (map (\<lambda>i. lat (?locs ! i)) [0..<length ps]) = fst x"
    unfolding lat using nz by (rule mean_map_const)
  moreover have "mean (map (\<lambda>i. lon (?locs ! i)) [0..<length ps]) = snd x"
    unfolding lon using nz by (rule mean_map_const)
  ultimately have "coord ?v = x"
    using c(3) by (simp add: visitPoint_def Let_def comp_def)
  moreover have "point_time (?locs ! 0) = Min (point_time ` set ps)"
    using sorted_hd_Min [of point_time ?locs] ne st by (simp add: hd_conv_nth)
  moreover have "point_time (?locs ! (length ?locs - 1)) = Max (point_time ` set ps)"
    using sorted_last_Max [of point_time ?locs] ne st by (simp add: last_conv_nth)
  ultimately show ?thesis
    using out c(2,4,5) by (simp add: visitPoint_def Let_def)
qed

text \<open>
  C28. Scenario A (spec, section 8): a device whose points all lie at one place, with at
  least two points and at least \<open>minVisitClusterSize\<close> of them, becomes a single visit
  point at that place. It has id 1 and spans the first to the last capture time.
\<close>

theorem stationary_single_visit:
  assumes "2 \<le> length ps" and "mv \<le> length ps" and "0 \<le> r" and "\<forall>p\<in>set ps. coord p = x"
  shows "\<exists>v. clusterDevice r mv mt ps = [v] \<and> node_event_type v = Some Visit \<and> coord v = x \<and>
           node_event_id v = Some 1 \<and> node_event_start v = Some (Min (point_time ` set ps)) \<and>
           node_event_end v = Some (Max (point_time ` set ps))"
  using assms by (rule clusterDevice_stationary)

end
