(* ===== verification/Store.thy ===== *)
theory Store
  imports Pipeline
begin

text \<open>
  The Vuex store around the enhancer: the mutations (\<open>src/src/store/mutations.js\<close>) and
  the getters (\<open>src/src/store/getters.js\<close>).
  \<^item> The state is the record \<open>'m store_state\<close>, with the fields the mutations write.
    \<open>state.map\<close> is flattened into \<open>mapCenter\<close>, \<open>mapZoom\<close> and \<open>mapLayers\<close>, and
    \<open>state.clustering\<close> is the \<open>clustering_config\<close> of theory \<open>Pipeline\<close>. The abort
    controller is an opaque handle (\<open>nat option\<close>).
  \<^item> A mutation is a constructor of the datatype \<open>'m mutation\<close>, named after its mutation
    type, and \<open>commit\<close> is the step function that applies it.
  \<^item> The getters take the two settings they read from \<open>@/config\<close> as parameters:
    \<open>config.filters.minAccuracy\<close> (\<open>None\<close> for \<open>null\<close>) and \<open>config.map.maxPointDistance\<close>
    (\<open>None\<close> when it is not a number). \<open>distanceBetweenCoordinates\<close> from \<open>@/util\<close> is
    the parameter \<open>distanceBetweenCoordinates\<close>.
  \<^item> \<open>filteredLocationHistory\<close> calls \<open>enhanceLocationData(state.locationHistory)\<close> with no
    configuration, so the configuration is \<open>default_config\<close>. Here the getter is a
    value function; its in-place reset of the metadata fields of the objects of
    \<open>state.locationHistory\<close> is modelled over an explicit heap in theory Aliasing
    (\<open>filteredLocationHistoryHeap\<close>, lemma \<open>getter_writes_store_objects\<close>).
\<close>

record 'm store_state =
  isLoading :: bool
  recorderVersion :: string
  users :: "string list"
  devices :: "(string \<times> string list) list"
  lastLocations :: "'m location_scheme list"
  locationHistory :: "'m history"
  selectedUser :: "string option"
  selectedDevice :: "string option"
  startDateTime :: string
  endDateTime :: string
  mapCenter :: coord
  mapZoom :: real
  mapLayers :: "string \<Rightarrow> bool option"
  distanceTravelled :: real
  elevationGain :: real
  elevationLoss :: real
  requestAbortController :: "nat option"
  clustering :: clustering_config

datatype 'm mutation =
    SET_IS_LOADING bool
  | SET_RECORDER_VERSION string
  | SET_USERS "string list"
  | SET_DEVICES "(string \<times> string list) list"
  | SET_LAST_LOCATIONS "'m location_scheme list"
  | SET_LOCATION_HISTORY "'m history"
  | SET_SELECTED_USER "string option"
  | SET_SELECTED_DEVICE "string option"
  | SET_START_DATE_TIME string
  | SET_END_DATE_TIME string
  | SET_MAP_CENTER coord
  | SET_MAP_ZOOM real
  | SET_MAP_LAYER_VISIBILITY string bool
  | SET_DISTANCE_TRAVELLED real
  | SET_ELEVATION_GAIN real
  | SET_ELEVATION_LOSS real
  | SET_REQUEST_ABORT_CONTROLLER "nat option"
  | SET_CLUSTERING_ENABLED bool
  | SET_CLUSTER_RADIUS real
  | SET_MIN_VISIT_CLUSTER_SIZE nat
  | SET_MIN_TRAVEL_CLUSTER_SIZE nat

fun commit :: "'m store_state \<Rightarrow> 'm mutation \<Rightarrow> 'm store_state" where
  "commit state (SET_IS_LOADING v) = state\<lparr>isLoading := v\<rparr>"
| "commit state (SET_RECORDER_VERSION v) = state\<lparr>recorderVersion := v\<rparr>"
| "commit state (SET_USERS v) = state\<lparr>users := v\<rparr>"
| "commit state (SET_DEVICES v) = state\<lparr>devices := v\<rparr>"
| "commit state (SET_LAST_LOCATIONS v) = state\<lparr>lastLocations := v\<rparr>"
| "commit state (SET_LOCATION_HISTORY v) = state\<lparr>locationHistory := v\<rparr>"
| "commit state (SET_SELECTED_USER v) = state\<lparr>selectedUser := v\<rparr>"
| "commit state (SET_SELECTED_DEVICE v) = state\<lparr>selectedDevice := v\<rparr>"
| "commit state (SET_START_DATE_TIME v) = state\<lparr>startDateTime := v\<rparr>"
| "commit state (SET_END_DATE_TIME v) = state\<lparr>endDateTime := v\<rparr>"
| "commit state (SET_MAP_CENTER v) = state\<lparr>mapCenter := v\<rparr>"
| "commit state (SET_MAP_ZOOM v) = state\<lparr>mapZoom := v\<rparr>"
| "commit state (SET_MAP_LAYER_VISIBILITY layer visibility) =
     state\<lparr>mapLayers := (mapLayers state)(layer := Some visibility)\<rparr>"
| "commit state (SET_DISTANCE_TRAVELLED v) = state\<lparr>distanceTravelled := v\<rparr>"
| "commit state (SET_ELEVATION_GAIN v) = state\<lparr>elevationGain := v\<rparr>"
| "commit state (SET_ELEVATION_LOSS v) = state\<lparr>elevationLoss := v\<rparr>"
| "commit state (SET_REQUEST_ABORT_CONTROLLER v) = state\<lparr>requestAbortController := v\<rparr>"
| "commit state (SET_CLUSTERING_ENABLED v) = state\<lparr>clustering := (clustering state)\<lparr>enabled := v\<rparr>\<rparr>"
| "commit state (SET_CLUSTER_RADIUS v) =
     state\<lparr>clustering := (clustering state)\<lparr>clusterRadius := Some v\<rparr>\<rparr>"
| "commit state (SET_MIN_VISIT_CLUSTER_SIZE v) =
     state\<lparr>clustering := (clustering state)\<lparr>minVisitClusterSize := Some v\<rparr>\<rparr>"
| "commit state (SET_MIN_TRAVEL_CLUSTER_SIZE v) =
     state\<lparr>clustering := (clustering state)\<lparr>minTravelClusterSize := Some v\<rparr>\<rparr>"

subsection \<open>Getters\<close>

text \<open>The accuracy test of \<open>filteredLocationHistory\<close>: a point is dropped when a minimum
  accuracy is configured and \<open>location.acc\<close> exceeds it. A missing \<open>acc\<close> is
  \<open>undefined\<close>, and \<open>undefined > m\<close> is false, so the point is kept.\<close>

definition accuracyOk :: "real option \<Rightarrow> 'm location_scheme \<Rightarrow> bool" where
  "accuracyOk minAccuracy location =
     (case minAccuracy of
        None \<Rightarrow> True
      | Some m \<Rightarrow> \<not> (case acc location of None \<Rightarrow> False | Some a \<Rightarrow> m < a))"

definition filteredLocationHistory :: "real option \<Rightarrow> 'm store_state \<Rightarrow> 'm history" where
  "filteredLocationHistory minAccuracy state =
     (let enhancedLocationHistory = enhanceLocationData (locationHistory state) default_config
      in map (\<lambda>(user, userDevices).
                (user, map (\<lambda>(device, locations). (device, filter (accuracyOk minAccuracy) locations))
                         userDevices))
           enhancedLocationHistory)"

definition filteredLocationHistoryLatLngs :: "real option \<Rightarrow> 'm store_state \<Rightarrow> coord list" where
  "filteredLocationHistoryLatLngs minAccuracy state =
     concat (map (\<lambda>(user, userDevices).
                    concat (map (\<lambda>(device, locations). map (\<lambda>location. (lat location, lon location)) locations)
                              userDevices))
               (filteredLocationHistory minAccuracy state))"

text \<open>One iteration of the inner \<open>forEach\<close> of \<open>filteredLocationHistoryLatLngGroups\<close>. Its
  state is the pair of the finished \<open>groups\<close> and the open group \<open>latLngs\<close>.\<close>

definition groupStep ::
  "dist_fn \<Rightarrow> real option \<Rightarrow> coord list list \<times> coord list \<Rightarrow> 'm location_scheme \<Rightarrow>
   coord list list \<times> coord list" where
  "groupStep distanceBetweenCoordinates maxPointDistance grouping location =
     (let groups = fst grouping; latLngs = snd grouping; latLng = (lat location, lon location)
      in if (case maxPointDistance of
               None \<Rightarrow> False
             | Some m \<Rightarrow> 0 < m \<and> latLngs \<noteq> [] \<and> m < distanceBetweenCoordinates (last latLngs) latLng)
         then (groups @ [latLngs], [latLng])
         else (groups, latLngs @ [latLng]))"

definition deviceGroups ::
  "dist_fn \<Rightarrow> real option \<Rightarrow> coord list list \<Rightarrow> 'm location_scheme list \<Rightarrow> coord list list" where
  "deviceGroups distanceBetweenCoordinates maxPointDistance groups locations =
     (let grouping = foldl (groupStep distanceBetweenCoordinates maxPointDistance) (groups, []) locations
      in fst grouping @ [snd grouping])"

definition filteredLocationHistoryLatLngGroups ::
  "dist_fn \<Rightarrow> real option \<Rightarrow> real option \<Rightarrow> 'm store_state \<Rightarrow> coord list list" where
  "filteredLocationHistoryLatLngGroups distanceBetweenCoordinates maxPointDistance minAccuracy state =
     foldl (\<lambda>groups (user, userDevices).
              foldl (\<lambda>groups (device, locations).
                       deviceGroups distanceBetweenCoordinates maxPointDistance groups locations)
                groups userDevices)
       [] (filteredLocationHistory minAccuracy state)"

declare accuracyOk_def [model_simps] filteredLocationHistory_def [model_simps]
  filteredLocationHistoryLatLngs_def [model_simps] groupStep_def [model_simps]
  deviceGroups_def [model_simps] filteredLocationHistoryLatLngGroups_def [model_simps]

text \<open>Statement-level abstraction (not code): consecutive coordinates of a group are at
  most \<open>m\<close> apart.\<close>

fun close_chain :: "dist_fn \<Rightarrow> real \<Rightarrow> coord list \<Rightarrow> bool" where
  "close_chain distance m (x # y # zs) \<longleftrightarrow> distance x y \<le> m \<and> close_chain distance m (y # zs)"
| "close_chain distance m _ \<longleftrightarrow> True"

subsection \<open>Lemmas\<close>

lemma commit_locationHistory:
  "locationHistory (commit s mu) = (case mu of SET_LOCATION_HISTORY h \<Rightarrow> h | _ \<Rightarrow> locationHistory s)"
  by (cases mu) simp_all

lemma filteredLocationHistory_device:
  "device_points (filteredLocationHistory a s) u d =
   map_option (\<lambda>ps. filter (accuracyOk a) (map resetEventMetadata ps)) (device_points (locationHistory s) u d)"
  unfolding filteredLocationHistory_def Let_def
  by (simp add: device_points_map device_points_enhance default_config_def option.map_comp comp_def)

lemma groupStep_fold_concat:
  "concat (fst (foldl (groupStep distance mpd) (gs, l) locs)) @ snd (foldl (groupStep distance mpd) (gs, l) locs) =
   concat gs @ l @ map (\<lambda>p. (lat p, lon p)) locs"
  by (induction locs arbitrary: gs l) (auto simp: groupStep_def Let_def)

lemma deviceGroups_concat:
  "concat (deviceGroups distance mpd gs locs) = concat gs @ map (\<lambda>p. (lat p, lon p)) locs"
  using groupStep_fold_concat [of distance mpd gs "[]" locs] by (simp add: deviceGroups_def Let_def)

lemma devices_fold_concat:
  "concat (foldl (\<lambda>groups (device, locations). deviceGroups distance mpd groups locations) gs devs) =
   concat gs @ concat (map (\<lambda>(device, locations). map (\<lambda>p. (lat p, lon p)) locations) devs)"
  by (induction devs arbitrary: gs) (auto simp: deviceGroups_concat)

lemma users_fold_concat:
  "concat (foldl (\<lambda>groups (user, userDevices).
              foldl (\<lambda>groups (device, locations). deviceGroups distance mpd groups locations) groups userDevices)
            gs h) =
   concat gs @ concat (map (\<lambda>(user, userDevices).
                 concat (map (\<lambda>(device, locations). map (\<lambda>p. (lat p, lon p)) locations) userDevices)) h)"
  by (induction h arbitrary: gs) (auto simp: devices_fold_concat)

lemma close_chain_snoc:
  "close_chain distance m (xs @ [x]) \<longleftrightarrow> close_chain distance m xs \<and> (xs \<noteq> [] \<longrightarrow> distance (last xs) x \<le> m)"
  by (induction distance m xs rule: close_chain.induct) auto

definition groups_close :: "dist_fn \<Rightarrow> real \<Rightarrow> coord list list \<times> coord list \<Rightarrow> bool" where
  "groups_close distance m grouping \<longleftrightarrow>
     (\<forall>g\<in>set (fst grouping). close_chain distance m g) \<and> close_chain distance m (snd grouping)"

lemma groupStep_close:
  "0 < m \<Longrightarrow> groups_close distance m grouping \<Longrightarrow> groups_close distance m (groupStep distance (Some m) grouping p)"
  by (auto simp: groupStep_def Let_def groups_close_def close_chain_snoc not_less)

lemma groupStep_fold_close:
  "0 < m \<Longrightarrow> groups_close distance m grouping \<Longrightarrow>
   groups_close distance m (foldl (groupStep distance (Some m)) grouping locs)"
  by (induction locs arbitrary: grouping) (simp_all add: groupStep_close)

lemma devices_fold_close:
  assumes "0 < m" and "\<forall>g\<in>set gs. close_chain distance m g"
  shows "\<forall>g\<in>set (foldl (\<lambda>groups (device, locations). deviceGroups distance (Some m) groups locations) gs devs).
           close_chain distance m g"
  using assms(2)
proof (induction devs arbitrary: gs)
  case (Cons dv devs)
  obtain device locations where dv: "dv = (device, locations)" by fastforce
  have "groups_close distance m (foldl (groupStep distance (Some m)) (gs, []) locations)"
    using Cons.prems by (intro groupStep_fold_close [OF assms(1)]) (simp add: groups_close_def)
  then have "\<forall>g\<in>set (deviceGroups distance (Some m) gs locations). close_chain distance m g"
    by (simp add: deviceGroups_def Let_def groups_close_def)
  with Cons.IH dv show ?case by simp
qed simp

lemma users_fold_close:
  assumes "0 < m" and "\<forall>g\<in>set gs. close_chain distance m g"
  shows "\<forall>g\<in>set (foldl (\<lambda>groups (user, userDevices).
              foldl (\<lambda>groups (device, locations). deviceGroups distance (Some m) groups locations) groups userDevices)
            gs h). close_chain distance m g"
  using assms(2)
proof (induction h arbitrary: gs)
  case (Cons uh h)
  obtain user userDevices where uh: "uh = (user, userDevices)" by fastforce
  have "\<forall>g\<in>set (foldl (\<lambda>groups (device, locations). deviceGroups distance (Some m) groups locations)
                    gs userDevices). close_chain distance m g"
    by (rule devices_fold_close [OF assms(1) Cons.prems])
  from Cons.IH [OF this] uh show ?case by simp
qed simp

subsection \<open>Properties of the store\<close>

text \<open>
  C24. The getter \<open>filteredLocationHistory\<close> never clusters: for every state, each
  device's list is the stored list with the metadata cleared and the accuracy filter
  applied. \<open>state.clustering\<close>, which the \<open>SET_CLUSTERING_*\<close> mutations write, is never
  read, because the getter calls \<open>enhanceLocationData\<close> without a configuration.
\<close>

theorem getter_never_clusters:
  "device_points (filteredLocationHistory a s) u d =
   map_option (\<lambda>ps. filter (accuracyOk a) (map resetEventMetadata ps)) (device_points (locationHistory s) u d)"
  by (rule filteredLocationHistory_device)

text \<open>
  C25. Every mutation other than \<open>SET_LOCATION_HISTORY\<close>, the clustering settings
  included, leaves the filtered history unchanged.
\<close>

theorem getter_stable_under_mutations:
  assumes "\<forall>h. mu \<noteq> SET_LOCATION_HISTORY h"
  shows "filteredLocationHistory a (commit s mu) = filteredLocationHistory a s"
proof -
  have "locationHistory (commit s mu) = locationHistory s"
    using assms by (cases mu) simp_all
  then show ?thesis by (simp add: filteredLocationHistory_def)
qed

text \<open>
  C16. Splitting into groups loses and reorders no coordinate: the groups of
  \<open>filteredLocationHistoryLatLngGroups\<close>, concatenated, are the coordinates of
  \<open>filteredLocationHistoryLatLngs\<close>.
\<close>

theorem latlng_groups_concat:
  "concat (filteredLocationHistoryLatLngGroups distance mpd a s) = filteredLocationHistoryLatLngs a s"
  by (simp add: filteredLocationHistoryLatLngGroups_def filteredLocationHistoryLatLngs_def
        users_fold_concat [of distance mpd "[]"] comp_def)

text \<open>
  C27. With a positive \<open>maxPointDistance\<close> \<open>m\<close>, consecutive coordinates inside one group
  are at most \<open>m\<close> apart.
\<close>

theorem latlng_groups_close:
  assumes "0 < m"
  shows "\<forall>g\<in>set (filteredLocationHistoryLatLngGroups distance (Some m) a s). close_chain distance m g"
  unfolding filteredLocationHistoryLatLngGroups_def by (rule users_fold_close [OF assms]) simp

end
