(* ===== verification/GeoQueue.thy ===== *)
theory GeoQueue
  imports Prelude "HOL-Library.AList" "HOL-Library.Sublist"
begin

text \<open>
  The rate-limited geocoding front end of \<open>src/src/geocoding.js\<close> (lines 320--587):
  \<open>reverseGeocodeWithRateLimit\<close>, the request queue worked off by \<open>processRequestQueue\<close>,
  the circuit breaker, and \<open>clearGeoccodingCache\<close>/\<open>getGeoccodingCacheStats\<close>.
  \<^item> The module-level variables are the fields of the record \<open>geo_state\<close>. The cache
    \<open>geocodingCache\<close> is a JavaScript \<open>Map\<close>, which keeps its keys in insertion order,
    so it is an association list updated in place by \<open>AList.update\<close>.
  \<^item> A cache key \<open>`${lat.toFixed(4)},${lon.toFixed(4)}`\<close> is the pair of the two
    \<open>toFixed4\<close> values. \<open>toFixed4 x\<close> is the sign and the value rounded to \<open>10^-4\<close> with
    ties upwards, as ECMAScript \<open>Number.prototype.toFixed\<close> specifies for finite
    arguments below \<open>10^21\<close>. The string is determined by that pair and determines it.
  \<^item> Each call of \<open>reverseGeocodeWithRateLimit\<close> returns a promise, named by a callback id
    \<open>cb\<close>. Its outcome is recorded in \<open>settled\<close>, once: a promise settles only once.
    Its 30 s timer is \<open>timers cb\<close>, cleared by \<open>wrappedResolve\<close>/\<open>wrappedReject\<close>.
  \<^item> The code is asynchronous. Each function below is one synchronous segment, up to the
    next \<open>await\<close>. The awaited completions are events of \<open>geo_event\<close>: a call, a 30 s
    timer, the end of the rate-limit sleep, the end of a fetch (its result chosen by the
    environment, since \<open>reverseGeocode\<close> caches its own result, \<open>null\<close> on failure), the
    15 s race timeout, and the late end of a fetch abandoned by that timeout
    (\<open>orphans\<close>). \<open>geo_step\<close> applies an event when the code could be waiting for it.
    \<open>Date.now()\<close> is the event's time, and time does not go backwards.
  \<^item> The fields \<open>issued\<close>, \<open>fetchLog\<close>, \<open>clock\<close>, \<open>queuedKeys\<close> and \<open>fetchedKeys\<close>
    are not code: they record the callback ids used, the start times of the fetches, the
    current time, the keys of the requests pushed onto the queue, and the keys of the
    fetched requests, each in order.
\<close>

type_synonym fixed4 = "bool \<times> nat"
type_synonym cache_key = "fixed4 \<times> fixed4"

definition toFixed4 :: "real \<Rightarrow> fixed4" where
  "toFixed4 x = (x < 0, nat \<lfloor>\<bar>x\<bar> * 10000 + 1 / 2\<rfloor>)"

definition cacheKeyOf :: "real \<Rightarrow> real \<Rightarrow> cache_key" where
  "cacheKeyOf lat lon = (toFixed4 lat, toFixed4 lon)"

definition MIN_REQUEST_INTERVAL :: int where "MIN_REQUEST_INTERVAL = 500"
definition MAX_QUEUE_SIZE :: nat where "MAX_QUEUE_SIZE = 20"
definition MAX_CONSECUTIVE_ERRORS :: nat where "MAX_CONSECUTIVE_ERRORS = 3"
definition CIRCUIT_BREAKER_RESET_TIME :: int where "CIRCUIT_BREAKER_RESET_TIME = 300000"
definition maxProcessingAttempts :: nat where "maxProcessingAttempts = 50"

text \<open>The rejection reasons, by the message of the \<open>Error\<close> object.\<close>

datatype geo_error =
    GeocodingRequestTimeout  \<comment> \<open>"Geocoding request timeout", the 30 s timer\<close>
  | GeocodingQueueFull       \<comment> \<open>"Geocoding queue is full"\<close>
  | RequestTimeout           \<comment> \<open>"Request timeout", the 15 s race\<close>
  | CircuitBreakerIsOpen     \<comment> \<open>"Circuit breaker open"\<close>
  | ProcessingLimitReached   \<comment> \<open>"Processing limit reached"\<close>

datatype outcome = Resolved "string option" | Rejected geo_error

record request =
  reqLat :: real
  reqLon :: real
  cacheKey :: cache_key
  callbacks :: "nat list"

text \<open>Where \<open>processRequestQueue\<close> is suspended: not running, in the rate-limit sleep
  (until the given time), or awaiting the fetch of a request.\<close>

datatype phase = Idle | Sleeping request int | Fetching request

record geo_state =
  geocodingCache :: "(cache_key \<times> string option) list"
  requestQueue :: "request list"
  isProcessingQueue :: bool
  phase :: phase
  processedCount :: nat
  consecutiveErrors :: nat
  circuitBreakerOpen :: bool
  lastErrorTime :: int
  lastRequestTime :: int
  timers :: "nat \<Rightarrow> int option"
  orphans :: "cache_key list"
  settled :: "nat \<Rightarrow> outcome option"
  issued :: "nat list"
  fetchLog :: "int list"
  clock :: int
  queuedKeys :: "cache_key list"
  fetchedKeys :: "cache_key list"

definition geo_init :: "int \<Rightarrow> geo_state" where
  "geo_init t =
     \<lparr>geocodingCache = [], requestQueue = [], isProcessingQueue = False, phase = Idle,
      processedCount = 0, consecutiveErrors = 0, circuitBreakerOpen = False, lastErrorTime = 0,
      lastRequestTime = 0, timers = Map.empty, orphans = [], settled = Map.empty, issued = [],
      fetchLog = [], clock = t, queuedKeys = [], fetchedKeys = []\<rparr>"

subsection \<open>Settling promises\<close>

text \<open>\<open>wrappedResolve\<close>/\<open>wrappedReject\<close> (lines 373--381) and the direct returns: the
  promise takes the outcome unless it has settled already, and its timer is cleared.\<close>

definition settle :: "nat \<Rightarrow> outcome \<Rightarrow> geo_state \<Rightarrow> geo_state" where
  "settle cb result s =
     s\<lparr>settled := (case settled s cb of None \<Rightarrow> (settled s)(cb \<mapsto> result) | Some _ \<Rightarrow> settled s),
       timers := (timers s)(cb := None)\<rparr>"

definition resolveAll :: "nat list \<Rightarrow> string option \<Rightarrow> geo_state \<Rightarrow> geo_state" where
  "resolveAll cbs result s = fold (\<lambda>cb. settle cb (Resolved result)) cbs s"

definition rejectAll :: "nat list \<Rightarrow> geo_error \<Rightarrow> geo_state \<Rightarrow> geo_state" where
  "rejectAll cbs error s = fold (\<lambda>cb. settle cb (Rejected error)) cbs s"

text \<open>\<open>while (requestQueue.length > 0) { req = requestQueue.shift(); reject all }\<close>
  (lines 517--529 and 547--556).\<close>

definition rejectQueue :: "geo_error \<Rightarrow> geo_state \<Rightarrow> geo_state" where
  "rejectQueue error s =
     (fold (\<lambda>req. rejectAll (callbacks req) error) (requestQueue s) s)\<lparr>requestQueue := []\<rparr>"

lemma settle_frame [simp]:
  "requestQueue (settle cb r s) = requestQueue s" "phase (settle cb r s) = phase s"
  "isProcessingQueue (settle cb r s) = isProcessingQueue s"
  "processedCount (settle cb r s) = processedCount s"
  "geocodingCache (settle cb r s) = geocodingCache s"
  "consecutiveErrors (settle cb r s) = consecutiveErrors s"
  "circuitBreakerOpen (settle cb r s) = circuitBreakerOpen s"
  "lastErrorTime (settle cb r s) = lastErrorTime s"
  "lastRequestTime (settle cb r s) = lastRequestTime s"
  "orphans (settle cb r s) = orphans s" "issued (settle cb r s) = issued s"
  "fetchLog (settle cb r s) = fetchLog s" "clock (settle cb r s) = clock s"
  "queuedKeys (settle cb r s) = queuedKeys s" "fetchedKeys (settle cb r s) = fetchedKeys s"
  by (simp_all add: settle_def)

lemma fold_settle_frame [simp]:
  "requestQueue (fold (\<lambda>cb. settle cb (f cb)) cbs s) = requestQueue s"
  "phase (fold (\<lambda>cb. settle cb (f cb)) cbs s) = phase s"
  "isProcessingQueue (fold (\<lambda>cb. settle cb (f cb)) cbs s) = isProcessingQueue s"
  "processedCount (fold (\<lambda>cb. settle cb (f cb)) cbs s) = processedCount s"
  "geocodingCache (fold (\<lambda>cb. settle cb (f cb)) cbs s) = geocodingCache s"
  "consecutiveErrors (fold (\<lambda>cb. settle cb (f cb)) cbs s) = consecutiveErrors s"
  "circuitBreakerOpen (fold (\<lambda>cb. settle cb (f cb)) cbs s) = circuitBreakerOpen s"
  "lastErrorTime (fold (\<lambda>cb. settle cb (f cb)) cbs s) = lastErrorTime s"
  "lastRequestTime (fold (\<lambda>cb. settle cb (f cb)) cbs s) = lastRequestTime s"
  "orphans (fold (\<lambda>cb. settle cb (f cb)) cbs s) = orphans s"
  "issued (fold (\<lambda>cb. settle cb (f cb)) cbs s) = issued s"
  "fetchLog (fold (\<lambda>cb. settle cb (f cb)) cbs s) = fetchLog s"
  "clock (fold (\<lambda>cb. settle cb (f cb)) cbs s) = clock s"
  "queuedKeys (fold (\<lambda>cb. settle cb (f cb)) cbs s) = queuedKeys s"
  "fetchedKeys (fold (\<lambda>cb. settle cb (f cb)) cbs s) = fetchedKeys s"
  by (induction cbs arbitrary: s) simp_all

subsection \<open>The processing loop\<close>

definition startFetch :: "int \<Rightarrow> request \<Rightarrow> geo_state \<Rightarrow> geo_state" where
  "startFetch now request s =
     s\<lparr>lastRequestTime := now, phase := Fetching request, fetchLog := fetchLog s @ [now],
       fetchedKeys := fetchedKeys s @ [cacheKey request]\<rparr>"

text \<open>The end of \<open>processRequestQueue\<close> (lines 543--559).\<close>

definition finishRun :: "geo_state \<Rightarrow> geo_state" where
  "finishRun s =
     (let s = (if maxProcessingAttempts \<le> processedCount s then rejectQueue ProcessingLimitReached s else s)
      in s\<lparr>isProcessingQueue := False, phase := Idle, processedCount := 0\<rparr>)"

text \<open>The \<open>while\<close> loop of \<open>processRequestQueue\<close> (lines 446--481), run until it awaits
  the rate-limit sleep or the fetch, or ends.\<close>

function advance :: "int \<Rightarrow> geo_state \<Rightarrow> geo_state" where
  "advance now s =
     (if requestQueue s \<noteq> [] \<and> processedCount s < maxProcessingAttempts then
        (let request = hd (requestQueue s);
             s = s\<lparr>requestQueue := tl (requestQueue s), processedCount := Suc (processedCount s)\<rparr>
         in case map_of (geocodingCache s) (cacheKey request) of
              Some result \<Rightarrow> advance now (resolveAll (callbacks request) result s)
            | None \<Rightarrow>
                if now - lastRequestTime s < MIN_REQUEST_INTERVAL
                then s\<lparr>phase := Sleeping request (lastRequestTime s + MIN_REQUEST_INTERVAL)\<rparr>
                else startFetch now request s)
      else finishRun s)"
  by pat_completeness auto
termination
  by (relation "measure (\<lambda>(_, s). length (requestQueue s))") (auto simp: resolveAll_def)

declare advance.simps [simp del]

definition processRequestQueue :: "int \<Rightarrow> geo_state \<Rightarrow> geo_state" where
  "processRequestQueue now s =
     (if isProcessingQueue s \<or> requestQueue s = [] then s
      else advance now (s\<lparr>isProcessingQueue := True, processedCount := 0\<rparr>))"

subsection \<open>A call\<close>

text \<open>\<open>existingRequest.callbacks.push(...)\<close> on the first queued request with the key.\<close>

fun addCallback :: "cache_key \<Rightarrow> nat \<Rightarrow> request list \<Rightarrow> request list" where
  "addCallback key cb [] = []"
| "addCallback key cb (req # reqs) =
     (if cacheKey req = key then req\<lparr>callbacks := callbacks req @ [cb]\<rparr> # reqs
      else req # addCallback key cb reqs)"

text \<open>The promise executor (lines 367--429), after the 30 s timer is armed.\<close>

definition enqueueRequest :: "nat \<Rightarrow> real \<Rightarrow> real \<Rightarrow> cache_key \<Rightarrow> int \<Rightarrow> geo_state \<Rightarrow> geo_state" where
  "enqueueRequest cb lat lon key now s =
     (case find (\<lambda>req. cacheKey req = key) (requestQueue s) of
        Some existingRequest \<Rightarrow> s\<lparr>requestQueue := addCallback key cb (requestQueue s)\<rparr>
      | None \<Rightarrow>
          if MAX_QUEUE_SIZE \<le> length (requestQueue s) then settle cb (Rejected GeocodingQueueFull) s
          else
            (let s = s\<lparr>requestQueue := requestQueue s @
                         [\<lparr>reqLat = lat, reqLon = lon, cacheKey = key, callbacks = [cb]\<rparr>],
                       queuedKeys := queuedKeys s @ [key]\<rparr>
             in if \<not> isProcessingQueue s then processRequestQueue now s else s))"

definition reverseGeocodeWithRateLimit :: "nat \<Rightarrow> real \<Rightarrow> real \<Rightarrow> int \<Rightarrow> geo_state \<Rightarrow> geo_state" where
  "reverseGeocodeWithRateLimit cb lat lon now s =
     (if circuitBreakerOpen s \<and> now - lastErrorTime s < CIRCUIT_BREAKER_RESET_TIME
      then settle cb (Resolved None) s
      else
        (let s = (if circuitBreakerOpen s then s\<lparr>circuitBreakerOpen := False, consecutiveErrors := 0\<rparr> else s);
             key = cacheKeyOf lat lon
         in case map_of (geocodingCache s) key of
              Some result \<Rightarrow> settle cb (Resolved result) s
            | None \<Rightarrow> enqueueRequest cb lat lon key now (s\<lparr>timers := (timers s)(cb \<mapsto> now + 30000)\<rparr>)))"

subsection \<open>Resumptions after an await\<close>

text \<open>The fetch returned (lines 490--502): \<open>reverseGeocode\<close> has cached its result, the
  error counter is reset, every callback of the request is resolved, and the loop goes on.\<close>

definition fetchDone :: "string option \<Rightarrow> int \<Rightarrow> request \<Rightarrow> geo_state \<Rightarrow> geo_state" where
  "fetchDone result now request s =
     advance now
       (resolveAll (callbacks request) result
          (s\<lparr>geocodingCache := AList.update (cacheKey request) result (geocodingCache s),
             consecutiveErrors := 0\<rparr>))"

text \<open>The 15 s race rejected (lines 503--540). On the third consecutive error the breaker
  opens, the rest of the queue is rejected, and the loop is left with \<open>break\<close>.\<close>

definition fetchTimeout :: "int \<Rightarrow> request \<Rightarrow> geo_state \<Rightarrow> geo_state" where
  "fetchTimeout now request s =
     (let s = s\<lparr>consecutiveErrors := Suc (consecutiveErrors s), lastErrorTime := now,
                orphans := orphans s @ [cacheKey request]\<rparr>
      in if MAX_CONSECUTIVE_ERRORS \<le> consecutiveErrors s
         then finishRun ((rejectQueue CircuitBreakerIsOpen s)\<lparr>circuitBreakerOpen := True\<rparr>)
         else advance now (rejectAll (callbacks request) RequestTimeout s))"

definition orphanDone :: "cache_key \<Rightarrow> string option \<Rightarrow> geo_state \<Rightarrow> geo_state" where
  "orphanDone key result s =
     s\<lparr>geocodingCache := AList.update key result (geocodingCache s), orphans := remove1 key (orphans s)\<rparr>"

definition clearGeoccodingCache :: "geo_state \<Rightarrow> geo_state" where
  "clearGeoccodingCache s = s\<lparr>geocodingCache := []\<rparr>"

definition getGeoccodingCacheStats :: "geo_state \<Rightarrow> nat \<times> cache_key list" where
  "getGeoccodingCacheStats s = (length (geocodingCache s), map fst (geocodingCache s))"

subsection \<open>Events\<close>

datatype geo_event =
    Call nat real real int
  | TimerFires nat int
  | WakeUp int
  | FetchDone "string option" int
  | FetchTimeout int
  | OrphanDone cache_key "string option"
  | ClearCache

fun geo_step :: "geo_state \<Rightarrow> geo_event \<Rightarrow> geo_state option" where
  "geo_step s (Call cb lat lon now) =
     (if clock s \<le> now \<and> cb \<notin> set (issued s)
      then Some (reverseGeocodeWithRateLimit cb lat lon now (s\<lparr>issued := issued s @ [cb], clock := now\<rparr>))
      else None)"
| "geo_step s (TimerFires cb now) =
     (case timers s cb of
        Some deadline \<Rightarrow>
          if clock s \<le> now \<and> deadline \<le> now
          then Some (settle cb (Rejected GeocodingRequestTimeout) (s\<lparr>clock := now\<rparr>)) else None
      | None \<Rightarrow> None)"
| "geo_step s (WakeUp now) =
     (case phase s of
        Sleeping request wake \<Rightarrow>
          if clock s \<le> now \<and> wake \<le> now then Some (startFetch now request (s\<lparr>clock := now\<rparr>)) else None
      | _ \<Rightarrow> None)"
| "geo_step s (FetchDone result now) =
     (case phase s of
        Fetching request \<Rightarrow>
          if clock s \<le> now \<and> now \<le> lastRequestTime s + 15000
          then Some (fetchDone result now request (s\<lparr>clock := now\<rparr>)) else None
      | _ \<Rightarrow> None)"
| "geo_step s (FetchTimeout now) =
     (case phase s of
        Fetching request \<Rightarrow>
          if clock s \<le> now \<and> lastRequestTime s + 15000 \<le> now
          then Some (fetchTimeout now request (s\<lparr>clock := now\<rparr>)) else None
      | _ \<Rightarrow> None)"
| "geo_step s (OrphanDone key result) =
     (if key \<in> set (orphans s) then Some (orphanDone key result s) else None)"
| "geo_step s ClearCache = Some (clearGeoccodingCache s)"

fun geo_run :: "geo_state \<Rightarrow> geo_event list \<Rightarrow> geo_state option" where
  "geo_run s [] = Some s"
| "geo_run s (e # es) = Option.bind (geo_step s e) (\<lambda>s'. geo_run s' es)"

inductive geo_reachable :: "geo_state \<Rightarrow> bool" where
  init: "0 \<le> t \<Longrightarrow> geo_reachable (geo_init t)"
| step: "geo_reachable s \<Longrightarrow> geo_step s e = Some s' \<Longrightarrow> geo_reachable s'"

subsection \<open>What each event requires and does\<close>

lemma geo_step_CallE:
  assumes "geo_step s (Call cb lat lon now) = Some s'"
  obtains "clock s \<le> now" "cb \<notin> set (issued s)"
    "s' = reverseGeocodeWithRateLimit cb lat lon now (s\<lparr>issued := issued s @ [cb], clock := now\<rparr>)"
  using assms by (simp split: if_splits)

lemma geo_step_TimerFiresE:
  assumes "geo_step s (TimerFires cb now) = Some s'"
  obtains deadline where "timers s cb = Some deadline" "clock s \<le> now" "deadline \<le> now"
    "s' = settle cb (Rejected GeocodingRequestTimeout) (s\<lparr>clock := now\<rparr>)"
  using assms by (auto split: option.splits if_splits)

lemma geo_step_WakeUpE:
  assumes "geo_step s (WakeUp now) = Some s'"
  obtains r wake where "phase s = Sleeping r wake" "clock s \<le> now" "wake \<le> now"
    "s' = startFetch now r (s\<lparr>clock := now\<rparr>)"
  using assms by (auto split: phase.splits if_splits)

lemma geo_step_FetchDoneE:
  assumes "geo_step s (FetchDone result now) = Some s'"
  obtains r where "phase s = Fetching r" "clock s \<le> now" "now \<le> lastRequestTime s + 15000"
    "s' = fetchDone result now r (s\<lparr>clock := now\<rparr>)"
  using assms by (auto split: phase.splits if_splits)

lemma geo_step_FetchTimeoutE:
  assumes "geo_step s (FetchTimeout now) = Some s'"
  obtains r where "phase s = Fetching r" "clock s \<le> now" "lastRequestTime s + 15000 \<le> now"
    "s' = fetchTimeout now r (s\<lparr>clock := now\<rparr>)"
  using assms by (auto split: phase.splits if_splits)

lemma geo_step_OrphanDoneE:
  assumes "geo_step s (OrphanDone key result) = Some s'"
  obtains "key \<in> set (orphans s)" "s' = orphanDone key result s"
  using assms by (simp split: if_splits)

subsection \<open>Frames\<close>

lemma fold_rejectAll_frame [simp]:
  "requestQueue (fold (\<lambda>req. rejectAll (callbacks req) e) rs s) = requestQueue s"
  "phase (fold (\<lambda>req. rejectAll (callbacks req) e) rs s) = phase s"
  "isProcessingQueue (fold (\<lambda>req. rejectAll (callbacks req) e) rs s) = isProcessingQueue s"
  "processedCount (fold (\<lambda>req. rejectAll (callbacks req) e) rs s) = processedCount s"
  "geocodingCache (fold (\<lambda>req. rejectAll (callbacks req) e) rs s) = geocodingCache s"
  "consecutiveErrors (fold (\<lambda>req. rejectAll (callbacks req) e) rs s) = consecutiveErrors s"
  "circuitBreakerOpen (fold (\<lambda>req. rejectAll (callbacks req) e) rs s) = circuitBreakerOpen s"
  "lastErrorTime (fold (\<lambda>req. rejectAll (callbacks req) e) rs s) = lastErrorTime s"
  "lastRequestTime (fold (\<lambda>req. rejectAll (callbacks req) e) rs s) = lastRequestTime s"
  "orphans (fold (\<lambda>req. rejectAll (callbacks req) e) rs s) = orphans s"
  "issued (fold (\<lambda>req. rejectAll (callbacks req) e) rs s) = issued s"
  "fetchLog (fold (\<lambda>req. rejectAll (callbacks req) e) rs s) = fetchLog s"
  "clock (fold (\<lambda>req. rejectAll (callbacks req) e) rs s) = clock s"
  "queuedKeys (fold (\<lambda>req. rejectAll (callbacks req) e) rs s) = queuedKeys s"
  "fetchedKeys (fold (\<lambda>req. rejectAll (callbacks req) e) rs s) = fetchedKeys s"
  by (induction rs arbitrary: s) (simp_all add: rejectAll_def)

lemma finishRun_frame [simp]:
  "phase (finishRun s) = Idle" "isProcessingQueue (finishRun s) = False"
  "processedCount (finishRun s) = 0"
  "geocodingCache (finishRun s) = geocodingCache s"
  "consecutiveErrors (finishRun s) = consecutiveErrors s"
  "circuitBreakerOpen (finishRun s) = circuitBreakerOpen s"
  "lastErrorTime (finishRun s) = lastErrorTime s"
  "lastRequestTime (finishRun s) = lastRequestTime s"
  "orphans (finishRun s) = orphans s" "issued (finishRun s) = issued s"
  "fetchLog (finishRun s) = fetchLog s" "clock (finishRun s) = clock s"
  "queuedKeys (finishRun s) = queuedKeys s" "fetchedKeys (finishRun s) = fetchedKeys s"
  by (simp_all add: finishRun_def rejectQueue_def)

lemma requestQueue_finishRun:
  "requestQueue (finishRun s) = (if maxProcessingAttempts \<le> processedCount s then [] else requestQueue s)"
  by (simp add: finishRun_def rejectQueue_def)

text \<open>A promise, once settled, keeps its outcome, and a promise with an armed timer stays
  settled or armed.\<close>

definition keeps_promises :: "geo_state \<Rightarrow> geo_state \<Rightarrow> bool" where
  "keeps_promises s s' \<longleftrightarrow>
     (\<forall>cb. settled s cb \<noteq> None \<longrightarrow> settled s' cb = settled s cb) \<and>
     (\<forall>cb. timers s cb \<noteq> None \<longrightarrow> settled s' cb \<noteq> None \<or> timers s' cb \<noteq> None)"

lemma keeps_promises_refl [simp]: "keeps_promises s s"
  by (simp add: keeps_promises_def)

lemma keeps_promises_same [intro]:
  "settled s' = settled s \<Longrightarrow> timers s' = timers s \<Longrightarrow> keeps_promises s s'"
  by (simp add: keeps_promises_def)

lemma keeps_promises_trans:
  "keeps_promises s s' \<Longrightarrow> keeps_promises s' s'' \<Longrightarrow> keeps_promises s s''"
  unfolding keeps_promises_def by (intro conjI allI impI) (simp_all, metis)

lemma keeps_promises_arm:
  "settled s' = settled s \<Longrightarrow> timers s' = (timers s)(cb \<mapsto> t) \<Longrightarrow> keeps_promises s s'"
  by (simp add: keeps_promises_def)

lemma keeps_promises_settle: "keeps_promises s (settle cb r s)"
  by (auto simp: keeps_promises_def settle_def split: option.splits)

lemma settled_settle: "settled (settle cb r s) cb = (case settled s cb of None \<Rightarrow> Some r | Some r' \<Rightarrow> Some r')"
  by (simp add: settle_def split: option.splits)

lemma keeps_promises_fold_settle: "keeps_promises s (fold (\<lambda>cb. settle cb (f cb)) cbs s)"
proof (induction cbs arbitrary: s)
  case (Cons cb cbs)
  show ?case using keeps_promises_trans [OF keeps_promises_settle Cons.IH] by simp
qed simp

lemma keeps_promises_rejectQueue: "keeps_promises s (rejectQueue e s)"
proof -
  have "keeps_promises s (fold (\<lambda>req. rejectAll (callbacks req) e) rs s)" for rs
  proof (induction rs arbitrary: s)
    case (Cons req rs)
    show ?case
      using keeps_promises_trans [OF keeps_promises_fold_settle Cons.IH] by (simp add: rejectAll_def)
  qed simp
  then show ?thesis by (simp add: rejectQueue_def keeps_promises_def)
qed

lemma keeps_promises_finishRun: "keeps_promises s (finishRun s)"
  using keeps_promises_rejectQueue [of s ProcessingLimitReached]
  by (simp add: finishRun_def keeps_promises_def)

lemmas keeps_promises_ops = keeps_promises_settle keeps_promises_fold_settle
  keeps_promises_rejectQueue keeps_promises_finishRun

subsection \<open>The shape of a run of the loop\<close>

text \<open>The three branches of one iteration: the loop condition fails, the head of the
  queue is a cache hit, or it is a miss (and the loop awaits).\<close>

lemma advance_stop:
  assumes "\<not> (requestQueue s \<noteq> [] \<and> processedCount s < maxProcessingAttempts)"
  shows "advance now s = finishRun s"
  by (subst advance.simps) (rule if_not_P [OF assms])

lemma advance_hit:
  "requestQueue s = q0 # qs \<Longrightarrow> processedCount s < maxProcessingAttempts \<Longrightarrow>
   map_of (geocodingCache s) (cacheKey q0) = Some result \<Longrightarrow>
   advance now s = advance now (resolveAll (callbacks q0) result
                     (s\<lparr>requestQueue := qs, processedCount := Suc (processedCount s)\<rparr>))"
  by (subst advance.simps) simp

lemma advance_miss:
  "requestQueue s = q0 # qs \<Longrightarrow> processedCount s < maxProcessingAttempts \<Longrightarrow>
   map_of (geocodingCache s) (cacheKey q0) = None \<Longrightarrow>
   advance now s =
     (let s' = s\<lparr>requestQueue := qs, processedCount := Suc (processedCount s)\<rparr>
      in if now - lastRequestTime s < MIN_REQUEST_INTERVAL
         then s'\<lparr>phase := Sleeping q0 (lastRequestTime s + MIN_REQUEST_INTERVAL)\<rparr>
         else startFetch now q0 s')"
  by (subst advance.simps) (simp add: Let_def)

lemma advance_induct [case_names stop hit miss]:
  assumes stop: "\<And>s. \<not> (requestQueue s \<noteq> [] \<and> processedCount s < maxProcessingAttempts) \<Longrightarrow> P s"
    and hit: "\<And>s q0 qs result. requestQueue s = q0 # qs \<Longrightarrow> processedCount s < maxProcessingAttempts \<Longrightarrow>
       map_of (geocodingCache s) (cacheKey q0) = Some result \<Longrightarrow>
       P (resolveAll (callbacks q0) result
            (s\<lparr>requestQueue := qs, processedCount := Suc (processedCount s)\<rparr>)) \<Longrightarrow> P s"
    and miss: "\<And>s q0 qs. requestQueue s = q0 # qs \<Longrightarrow> processedCount s < maxProcessingAttempts \<Longrightarrow>
       map_of (geocodingCache s) (cacheKey q0) = None \<Longrightarrow> P s"
  shows "P s"
proof -
  fix now :: int
  show ?thesis
  proof (induction now s rule: advance.induct)
    case (1 now s)
    show ?case
    proof (cases "requestQueue s \<noteq> [] \<and> processedCount s < maxProcessingAttempts")
      case True
      then obtain q0 qs where q: "requestQueue s = q0 # qs" by (cases "requestQueue s") auto
      then show ?thesis
        using True "1.IH" [OF True refl refl] hit [of s q0 qs] miss [of s q0 qs]
        by (cases "map_of (geocodingCache s) (cacheKey q0)") auto
    qed (rule stop)
  qed
qed

lemma advance_frame:
  "geocodingCache (advance now s) = geocodingCache s \<and>
   consecutiveErrors (advance now s) = consecutiveErrors s \<and>
   circuitBreakerOpen (advance now s) = circuitBreakerOpen s \<and>
   lastErrorTime (advance now s) = lastErrorTime s \<and> orphans (advance now s) = orphans s \<and>
   issued (advance now s) = issued s \<and> clock (advance now s) = clock s"
proof (induction s rule: advance_induct)
  case (hit s q0 qs result)
  then show ?case by (simp add: advance_hit [OF hit(1-3)] resolveAll_def)
qed (simp_all add: advance_stop advance_miss Let_def startFetch_def)

lemma keeps_promises_advance: "keeps_promises s (advance now s)"
proof (induction s rule: advance_induct)
  case (hit s q0 qs result)
  have "keeps_promises s (s\<lparr>requestQueue := qs, processedCount := Suc (processedCount s)\<rparr>)"
    by (rule keeps_promises_same) simp_all
  from keeps_promises_trans [OF keeps_promises_trans [OF this keeps_promises_fold_settle]
         hit(4) [unfolded resolveAll_def]]
  show ?case unfolding advance_hit [OF hit(1-3)] resolveAll_def .
qed (simp_all add: advance_stop advance_miss Let_def startFetch_def keeps_promises_finishRun
       keeps_promises_same)

text \<open>A run of the loop ends idle with an empty queue, or is suspended in the sleep or the
  fetch of a request it took from the queue; a fetch starts only \<open>MIN_REQUEST_INTERVAL\<close>
  after the previous one, and a sleep lasts until then.\<close>

lemma advance_ends:
  "(phase (advance now s) = Idle \<and> \<not> isProcessingQueue (advance now s) \<and>
    requestQueue (advance now s) = [] \<and> processedCount (advance now s) = 0 \<and>
    lastRequestTime (advance now s) = lastRequestTime s \<and> fetchLog (advance now s) = fetchLog s) \<or>
   (requestQueue s \<noteq> [] \<and> suffix (requestQueue (advance now s)) (tl (requestQueue s)) \<and>
    isProcessingQueue (advance now s) = isProcessingQueue s \<and>
    ((\<exists>r. phase (advance now s) = Sleeping r (lastRequestTime s + MIN_REQUEST_INTERVAL) \<and>
          lastRequestTime (advance now s) = lastRequestTime s \<and> fetchLog (advance now s) = fetchLog s) \<or>
     (\<exists>r. phase (advance now s) = Fetching r \<and> lastRequestTime s + MIN_REQUEST_INTERVAL \<le> now \<and>
          lastRequestTime (advance now s) = now \<and> fetchLog (advance now s) = fetchLog s @ [now])))"
proof (induction s rule: advance_induct)
  case (stop s)
  then show ?case by (auto simp: advance_stop requestQueue_finishRun)
next
  case (hit s q0 qs result)
  let ?s = "resolveAll (callbacks q0) result
              (s\<lparr>requestQueue := qs, processedCount := Suc (processedCount s)\<rparr>)"
  have f: "requestQueue ?s = qs" "isProcessingQueue ?s = isProcessingQueue s"
    "lastRequestTime ?s = lastRequestTime s" "fetchLog ?s = fetchLog s"
    by (simp_all add: resolveAll_def)
  have "suffix xs (tl qs) \<Longrightarrow> suffix xs (tl (requestQueue s))" for xs
    using suffix_tl [of qs] by (auto simp: hit(1) intro: suffix_order.trans)
  then show ?case
    using hit(4) unfolding advance_hit [OF hit(1-3)] f by (auto simp: hit(1))
next
  case (miss s q0 qs)
  show ?case
  proof (cases "now - lastRequestTime s < MIN_REQUEST_INTERVAL")
    case True
    then show ?thesis using miss by (simp add: advance_miss)
  next
    case False
    then have "lastRequestTime s + MIN_REQUEST_INTERVAL \<le> now" by simp
    then show ?thesis using miss False by (simp add: advance_miss startFetch_def)
  qed
qed

subsection \<open>The invariant\<close>

text \<open>Fetch start times at least \<open>MIN_REQUEST_INTERVAL\<close> apart.\<close>

fun spaced :: "int list \<Rightarrow> bool" where
  "spaced (a # b # xs) = (a + MIN_REQUEST_INTERVAL \<le> b \<and> spaced (b # xs))"
| "spaced _ = True"

definition queue_wf :: "request list \<Rightarrow> bool" where
  "queue_wf q \<longleftrightarrow> length q \<le> MAX_QUEUE_SIZE \<and> distinct (map cacheKey q)"

definition run_ok :: "geo_state \<Rightarrow> bool" where
  "run_ok s \<longleftrightarrow> (isProcessingQueue s \<longleftrightarrow> phase s \<noteq> Idle) \<and>
     (\<not> isProcessingQueue s \<longrightarrow> requestQueue s = [] \<and> processedCount s = 0)"

definition breaker_ok :: "geo_state \<Rightarrow> bool" where
  "breaker_ok s \<longleftrightarrow> consecutiveErrors s \<le> MAX_CONSECUTIVE_ERRORS \<and>
     (circuitBreakerOpen s \<longleftrightarrow> consecutiveErrors s = MAX_CONSECUTIVE_ERRORS) \<and>
     (circuitBreakerOpen s \<longrightarrow> \<not> isProcessingQueue s)"

definition log_ok :: "geo_state \<Rightarrow> bool" where
  "log_ok s \<longleftrightarrow> spaced (fetchLog s) \<and> (fetchLog s \<noteq> [] \<longrightarrow> last (fetchLog s) = lastRequestTime s)"

definition sleep_ok :: "geo_state \<Rightarrow> bool" where
  "sleep_ok s \<longleftrightarrow>
     (\<forall>r wake. phase s = Sleeping r wake \<longrightarrow> wake = lastRequestTime s + MIN_REQUEST_INTERVAL)"

definition promises_ok :: "geo_state \<Rightarrow> bool" where
  "promises_ok s \<longleftrightarrow> (\<forall>cb\<in>set (issued s). settled s cb \<noteq> None \<or> timers s cb \<noteq> None)"

definition core_inv :: "geo_state \<Rightarrow> bool" where
  "core_inv s \<longleftrightarrow> queue_wf (requestQueue s) \<and> run_ok s \<and> breaker_ok s \<and> log_ok s \<and> sleep_ok s"

definition geo_inv :: "geo_state \<Rightarrow> bool" where
  "geo_inv s \<longleftrightarrow> core_inv s \<and> promises_ok s"

lemma spaced_snoc:
  "spaced (xs @ [x]) \<longleftrightarrow> spaced xs \<and> (xs \<noteq> [] \<longrightarrow> last xs + MIN_REQUEST_INTERVAL \<le> x)"
  by (induction xs rule: spaced.induct) auto

lemma log_ok_fetch:
  "log_ok s \<Longrightarrow> lastRequestTime s + MIN_REQUEST_INTERVAL \<le> now \<Longrightarrow>
   fetchLog s' = fetchLog s @ [now] \<Longrightarrow> lastRequestTime s' = now \<Longrightarrow> log_ok s'"
  by (auto simp: log_ok_def spaced_snoc)

lemma queue_wf_suffix: "suffix q' q \<Longrightarrow> queue_wf q \<Longrightarrow> queue_wf q'"
  by (auto simp: queue_wf_def suffix_def)

lemma queue_wf_tl: "queue_wf q \<Longrightarrow> queue_wf (tl q)"
  by (rule queue_wf_suffix [OF suffix_tl])

lemma promises_ok_keep:
  "promises_ok s \<Longrightarrow> keeps_promises s s' \<Longrightarrow> issued s' = issued s \<Longrightarrow> promises_ok s'"
  by (fastforce simp: promises_ok_def keeps_promises_def)

lemma geo_inv_init: "geo_inv (geo_init t)"
  by (simp add: geo_inv_def core_inv_def geo_init_def queue_wf_def run_ok_def breaker_ok_def log_ok_def
      sleep_ok_def promises_ok_def MAX_CONSECUTIVE_ERRORS_def)

lemma core_inv_irrelevant [simp]:
  "core_inv (s\<lparr>geocodingCache := c\<rparr>) = core_inv s" "core_inv (s\<lparr>orphans := os\<rparr>) = core_inv s"
  "core_inv (s\<lparr>timers := t\<rparr>) = core_inv s" "core_inv (s\<lparr>issued := i\<rparr>) = core_inv s"
  "core_inv (s\<lparr>clock := n\<rparr>) = core_inv s"
  by (simp_all add: core_inv_def run_ok_def breaker_ok_def log_ok_def sleep_ok_def)

lemma core_inv_settle: "core_inv s \<Longrightarrow> core_inv (settle cb r s)"
  by (auto simp: core_inv_def run_ok_def breaker_ok_def log_ok_def sleep_ok_def)

lemma core_inv_fold_settle: "core_inv s \<Longrightarrow> core_inv (fold (\<lambda>cb. settle cb (f cb)) cbs s)"
  by (auto simp: core_inv_def run_ok_def breaker_ok_def log_ok_def sleep_ok_def)

text \<open>A run of the loop, entered while processing with the breaker closed, re-establishes
  the invariant.\<close>

lemma core_inv_advance:
  assumes "queue_wf (requestQueue s)" "isProcessingQueue s" "\<not> circuitBreakerOpen s"
    "consecutiveErrors s < MAX_CONSECUTIVE_ERRORS" "log_ok s"
  shows "core_inv (advance now s)"
proof -
  let ?s = "advance now s"
  have "queue_wf (requestQueue ?s) \<and> run_ok ?s \<and> log_ok ?s \<and> sleep_ok ?s"
    using advance_ends [of now s] assms(1,2,5)
    by (auto simp: run_ok_def sleep_ok_def queue_wf_def log_ok_def spaced_snoc
             dest: queue_wf_suffix [OF _ queue_wf_tl])
  moreover have "breaker_ok ?s"
    using advance_frame [of now s] assms(3,4) by (simp add: breaker_ok_def)
  ultimately show ?thesis by (simp add: core_inv_def)
qed

lemma core_inv_running:
  "core_inv s \<Longrightarrow> isProcessingQueue s \<Longrightarrow>
   \<not> circuitBreakerOpen s \<and> consecutiveErrors s < MAX_CONSECUTIVE_ERRORS"
  by (auto simp: core_inv_def breaker_ok_def)

subsection \<open>Each operation keeps the invariant\<close>

lemma addCallback_keys [simp]: "map cacheKey (addCallback key cb q) = map cacheKey q"
  by (induction q) auto

lemma addCallback_length [simp]: "length (addCallback key cb q) = length q"
  by (induction q) auto

lemma addCallback_Nil_iff [simp]: "addCallback key cb q = [] \<longleftrightarrow> q = []"
  by (cases q) auto

lemma keeps_promises_processRequestQueue: "keeps_promises s (processRequestQueue now s)"
  unfolding processRequestQueue_def
  by (auto intro: keeps_promises_trans [OF keeps_promises_same keeps_promises_advance])

lemma keeps_promises_enqueue: "keeps_promises s (enqueueRequest cb lat lon key now s)"
  unfolding enqueueRequest_def Let_def
  by (auto split: option.split
      intro: keeps_promises_settle keeps_promises_trans [OF keeps_promises_same keeps_promises_processRequestQueue])

lemma keeps_promises_call: "keeps_promises s (reverseGeocodeWithRateLimit cb lat lon now s)"
  unfolding reverseGeocodeWithRateLimit_def Let_def
  by (auto split: option.split
      intro: keeps_promises_settle keeps_promises_trans [OF keeps_promises_same keeps_promises_settle]
             keeps_promises_trans [OF keeps_promises_arm keeps_promises_enqueue]
             keeps_promises_trans [OF keeps_promises_same keeps_promises_trans [OF keeps_promises_arm keeps_promises_enqueue]])

text \<open>Every call settles its promise at once or arms its 30 s timer.\<close>

lemma call_answered:
  "settled (reverseGeocodeWithRateLimit cb lat lon now s) cb \<noteq> None \<or>
   timers (reverseGeocodeWithRateLimit cb lat lon now s) cb \<noteq> None"
proof -
  have "settled (enqueueRequest cb lat lon key now s') cb \<noteq> None \<or>
        timers (enqueueRequest cb lat lon key now s') cb \<noteq> None"
    if "timers s' cb \<noteq> None" for s' key
    using keeps_promises_enqueue [of s' cb lat lon key now] that by (auto simp: keeps_promises_def)
  then show ?thesis
    unfolding reverseGeocodeWithRateLimit_def Let_def
    by (auto simp: settled_settle split: option.split)
qed

lemma core_inv_enqueue:
  assumes inv: "core_inv s" and closed: "\<not> circuitBreakerOpen s"
  shows "core_inv (enqueueRequest cb lat lon key now s)"
proof (cases "find (\<lambda>req. cacheKey req = key) (requestQueue s)")
  case (Some r)
  then show ?thesis using inv
    by (auto simp: enqueueRequest_def core_inv_def queue_wf_def run_ok_def breaker_ok_def
        log_ok_def sleep_ok_def)
next
  case None
  let ?new = "\<lparr>reqLat = lat, reqLon = lon, cacheKey = key, callbacks = [cb]\<rparr>"
  let ?s1 = "s\<lparr>requestQueue := requestQueue s @ [?new], queuedKeys := queuedKeys s @ [key]\<rparr>"
  have nk: "key \<notin> set (map cacheKey (requestQueue s))"
    using None by (auto simp: find_None_iff)
  have wf: "queue_wf (requestQueue ?s1)" if "length (requestQueue s) < MAX_QUEUE_SIZE"
    using inv nk that by (simp add: core_inv_def queue_wf_def)
  have run: "core_inv ?s1" if "isProcessingQueue s" "length (requestQueue s) < MAX_QUEUE_SIZE"
    using inv wf that by (auto simp: core_inv_def run_ok_def breaker_ok_def log_ok_def sleep_ok_def)
  have start: "core_inv (processRequestQueue now ?s1)"
    if "\<not> isProcessingQueue s" "length (requestQueue s) < MAX_QUEUE_SIZE"
  proof -
    have "consecutiveErrors s < MAX_CONSECUTIVE_ERRORS" "log_ok s"
      using inv closed by (auto simp: core_inv_def breaker_ok_def)
    then show ?thesis
      using wf [OF that(2)] that(1) closed
      by (auto simp: processRequestQueue_def log_ok_def intro!: core_inv_advance)
  qed
  show ?thesis
    using None inv run start by (auto simp: enqueueRequest_def Let_def not_le intro: core_inv_settle)
qed

lemma core_inv_call:
  assumes inv: "core_inv s"
  shows "core_inv (reverseGeocodeWithRateLimit cb lat lon now s)"
proof -
  let ?s1 = "if circuitBreakerOpen s then s\<lparr>circuitBreakerOpen := False, consecutiveErrors := 0\<rparr> else s"
  have s1: "core_inv ?s1" "\<not> circuitBreakerOpen ?s1"
    using inv by (auto simp: core_inv_def run_ok_def breaker_ok_def log_ok_def sleep_ok_def
                     MAX_CONSECUTIVE_ERRORS_def)
  then have "core_inv (?s1\<lparr>timers := t\<rparr>)" "\<not> circuitBreakerOpen (?s1\<lparr>timers := t\<rparr>)" for t
    by (simp_all add: core_inv_def run_ok_def breaker_ok_def log_ok_def sleep_ok_def)
  then show ?thesis
    using inv s1 unfolding reverseGeocodeWithRateLimit_def Let_def
    by (auto split: option.split intro: core_inv_settle core_inv_enqueue)
qed

lemma core_inv_wake:
  assumes "core_inv s" "phase s = Sleeping r wake" "wake \<le> now"
  shows "core_inv (startFetch now r s)"
proof -
  have "lastRequestTime s + MIN_REQUEST_INTERVAL \<le> now" "log_ok s"
    using assms by (auto simp: core_inv_def sleep_ok_def)
  then have "log_ok (startFetch now r s)"
    using log_ok_fetch [of s now "startFetch now r s"] by (simp add: startFetch_def)
  then show ?thesis using assms
    by (auto simp: core_inv_def run_ok_def breaker_ok_def sleep_ok_def startFetch_def)
qed

lemma core_inv_fetchDone:
  assumes inv: "core_inv s" and fetching: "phase s = Fetching r"
  shows "core_inv (fetchDone result now r s)"
proof -
  have "isProcessingQueue s" using inv fetching by (simp add: core_inv_def run_ok_def)
  then show ?thesis
    using inv core_inv_running [OF inv] unfolding fetchDone_def resolveAll_def
    by (intro core_inv_advance) (auto simp: core_inv_def log_ok_def MAX_CONSECUTIVE_ERRORS_def)
qed

lemma core_inv_fetchTimeout:
  assumes inv: "core_inv s" and fetching: "phase s = Fetching r"
  shows "core_inv (fetchTimeout now r s)"
proof -
  have run: "isProcessingQueue s" using inv fetching by (simp add: core_inv_def run_ok_def)
  then have closed: "\<not> circuitBreakerOpen s" "consecutiveErrors s < MAX_CONSECUTIVE_ERRORS"
    using core_inv_running [OF inv] by simp_all
  show ?thesis
  proof (cases "MAX_CONSECUTIVE_ERRORS \<le> Suc (consecutiveErrors s)")
    case True
    then have "Suc (consecutiveErrors s) = MAX_CONSECUTIVE_ERRORS" using closed(2) by simp
    then show ?thesis using inv
      by (simp add: fetchTimeout_def Let_def core_inv_def queue_wf_def run_ok_def breaker_ok_def
          log_ok_def sleep_ok_def requestQueue_finishRun rejectQueue_def)
  next
    case False
    then show ?thesis using inv run closed unfolding fetchTimeout_def rejectAll_def Let_def
      by (simp, intro core_inv_advance) (auto simp: core_inv_def log_ok_def)
  qed
qed

lemma keeps_promises_fetchDone: "keeps_promises s (fetchDone result now r s)"
  unfolding fetchDone_def resolveAll_def
  by (rule keeps_promises_trans [OF keeps_promises_trans [OF keeps_promises_same keeps_promises_fold_settle]
        keeps_promises_advance]) simp_all

lemma keeps_promises_fetchTimeout: "keeps_promises s (fetchTimeout now r s)"
proof -
  let ?s1 = "s\<lparr>consecutiveErrors := Suc (consecutiveErrors s), lastErrorTime := now,
               orphans := orphans s @ [cacheKey r]\<rparr>"
  have s1: "keeps_promises s ?s1" by (rule keeps_promises_same) simp_all
  have "keeps_promises s (rejectQueue CircuitBreakerIsOpen ?s1)"
    by (rule keeps_promises_trans [OF s1 keeps_promises_rejectQueue])
  then have "keeps_promises s ((rejectQueue CircuitBreakerIsOpen ?s1)\<lparr>circuitBreakerOpen := True\<rparr>)"
    by (simp add: keeps_promises_def)
  moreover have "keeps_promises s (advance now (rejectAll (callbacks r) RequestTimeout ?s1))"
    unfolding rejectAll_def
    by (rule keeps_promises_trans [OF keeps_promises_trans [OF s1 keeps_promises_fold_settle]
          keeps_promises_advance])
  ultimately show ?thesis
    by (auto simp: fetchTimeout_def Let_def intro: keeps_promises_trans [OF _ keeps_promises_finishRun])
qed

lemma issued_ops [simp]:
  "issued (reverseGeocodeWithRateLimit cb lat lon now s) = issued s"
  "issued (fetchDone result now r s) = issued s" "issued (fetchTimeout now r s) = issued s"
proof -
  have "issued (processRequestQueue now s') = issued s'" for s'
    using advance_frame by (simp add: processRequestQueue_def)
  then show "issued (reverseGeocodeWithRateLimit cb lat lon now s) = issued s"
    by (simp add: reverseGeocodeWithRateLimit_def enqueueRequest_def Let_def split: option.split)
  show "issued (fetchDone result now r s) = issued s"
    using advance_frame by (simp add: fetchDone_def resolveAll_def)
  show "issued (fetchTimeout now r s) = issued s"
    using advance_frame by (simp add: fetchTimeout_def Let_def rejectAll_def rejectQueue_def)
qed

lemma geo_inv_clock: "geo_inv s \<Longrightarrow> geo_inv (s\<lparr>clock := t\<rparr>)"
  by (simp add: geo_inv_def promises_ok_def)

lemma geo_inv_after:
  assumes "geo_inv s" "core_inv s'" "keeps_promises s s'" "issued s' = issued s"
  shows "geo_inv s'"
  using assms(1,2) promises_ok_keep [OF _ assms(3,4)] by (simp add: geo_inv_def)

lemma geo_step_inv: "geo_inv s \<Longrightarrow> geo_step s e = Some s' \<Longrightarrow> geo_inv s'"
proof (induction s e rule: geo_step.induct)
  case (1 s cb lat lon now)
  let ?s0 = "s\<lparr>issued := issued s @ [cb], clock := now\<rparr>"
  let ?s2 = "reverseGeocodeWithRateLimit cb lat lon now ?s0"
  have core: "core_inv ?s0" and p: "promises_ok s"
    using "1.prems"(1) by (simp_all add: geo_inv_def)
  have k: "keeps_promises s ?s2"
    by (rule keeps_promises_trans [OF _ keeps_promises_call]) (rule keeps_promises_same; simp)
  have "promises_ok ?s2" unfolding promises_ok_def
  proof
    fix c assume "c \<in> set (issued ?s2)"
    then consider "c \<in> set (issued s)" | "c = cb" by auto
    then show "settled ?s2 c \<noteq> None \<or> timers ?s2 c \<noteq> None"
    proof cases
      case 1
      then show ?thesis using p k unfolding promises_ok_def keeps_promises_def by metis
    qed (use call_answered in blast)
  qed
  then show ?case using "1.prems"(2) core_inv_call [OF core]
    by (auto simp: geo_inv_def split: if_splits)
next
  case (2 s cb now)
  from "2.prems"(2) obtain deadline where "timers s cb = Some deadline" "clock s \<le> now" "deadline \<le> now"
    and s': "s' = settle cb (Rejected GeocodingRequestTimeout) (s\<lparr>clock := now\<rparr>)"
    by (rule geo_step_TimerFiresE)
  have g: "geo_inv (s\<lparr>clock := now\<rparr>)" by (rule geo_inv_clock [OF "2.prems"(1)])
  then have "core_inv (s\<lparr>clock := now\<rparr>)" by (simp add: geo_inv_def)
  then show ?case unfolding s'
    by (intro geo_inv_after [OF g] core_inv_settle keeps_promises_settle) simp_all
next
  case (3 s now)
  from "3.prems"(2) obtain r wake where ph: "phase s = Sleeping r wake" "clock s \<le> now" "wake \<le> now"
    and s': "s' = startFetch now r (s\<lparr>clock := now\<rparr>)"
    by (rule geo_step_WakeUpE)
  have g: "geo_inv (s\<lparr>clock := now\<rparr>)" by (rule geo_inv_clock [OF "3.prems"(1)])
  then have c: "core_inv (s\<lparr>clock := now\<rparr>)" by (simp add: geo_inv_def)
  show ?case unfolding s'
    by (intro geo_inv_after [OF g] core_inv_wake [OF c _ ph(3)] keeps_promises_same) (simp_all add: ph startFetch_def)
next
  case (4 s result now)
  from "4.prems"(2) obtain r where ph: "phase s = Fetching r" "clock s \<le> now" "now \<le> lastRequestTime s + 15000"
    and s': "s' = fetchDone result now r (s\<lparr>clock := now\<rparr>)"
    by (rule geo_step_FetchDoneE)
  have g: "geo_inv (s\<lparr>clock := now\<rparr>)" by (rule geo_inv_clock [OF "4.prems"(1)])
  then have c: "core_inv (s\<lparr>clock := now\<rparr>)" by (simp add: geo_inv_def)
  show ?case unfolding s'
    by (intro geo_inv_after [OF g] core_inv_fetchDone [OF c] keeps_promises_fetchDone) (simp_all add: ph)
next
  case (5 s now)
  from "5.prems"(2) obtain r where ph: "phase s = Fetching r" "clock s \<le> now" "lastRequestTime s + 15000 \<le> now"
    and s': "s' = fetchTimeout now r (s\<lparr>clock := now\<rparr>)"
    by (rule geo_step_FetchTimeoutE)
  have g: "geo_inv (s\<lparr>clock := now\<rparr>)" by (rule geo_inv_clock [OF "5.prems"(1)])
  then have c: "core_inv (s\<lparr>clock := now\<rparr>)" by (simp add: geo_inv_def)
  show ?case unfolding s'
    by (intro geo_inv_after [OF g] core_inv_fetchTimeout [OF c] keeps_promises_fetchTimeout) (simp_all add: ph)
next
  case (6 s key result)
  from "6.prems"(2) obtain "key \<in> set (orphans s)" and s': "s' = orphanDone key result s"
    by (rule geo_step_OrphanDoneE)
  have "core_inv s" using "6.prems"(1) by (simp add: geo_inv_def)
  then show ?case unfolding s' orphanDone_def
    by (intro geo_inv_after [OF "6.prems"(1)] keeps_promises_same) simp_all
next
  case (7 s)
  then have s': "s' = clearGeoccodingCache s" by simp
  have "core_inv s" using "7.prems"(1) by (simp add: geo_inv_def)
  then show ?case unfolding s' clearGeoccodingCache_def
    by (intro geo_inv_after [OF "7.prems"(1)] keeps_promises_same) simp_all
qed

lemma geo_reachable_inv: "geo_reachable s \<Longrightarrow> geo_inv s"
  by (induction rule: geo_reachable.induct) (auto intro: geo_inv_init geo_step_inv)

lemma fetchDone_cache:
  "geocodingCache (fetchDone result now r s) = AList.update (cacheKey r) result (geocodingCache s) \<and>
   circuitBreakerOpen (fetchDone result now r s) = circuitBreakerOpen s"
  using advance_frame by (simp add: fetchDone_def resolveAll_def)

subsection \<open>Runs of events\<close>

lemma geo_run_append:
  "geo_run s (es @ es') = Option.bind (geo_run s es) (\<lambda>s'. geo_run s' es')"
  by (induction es arbitrary: s) (auto split: Option.bind_splits)

lemma geo_step_keeps: "geo_step s e = Some s' \<Longrightarrow> keeps_promises s s' \<and> set (issued s) \<subseteq> set (issued s')"
proof (induction s e rule: geo_step.induct)
  case (1 s cb lat lon now)
  then show ?case
    by (auto split: if_splits
        intro: keeps_promises_trans [OF keeps_promises_same keeps_promises_call])
next
  case (2 s cb now)
  then show ?case
    by (auto split: option.splits if_splits
        intro: keeps_promises_trans [OF keeps_promises_same keeps_promises_settle])
next
  case (3 s now)
  then show ?case
    by (auto split: phase.splits if_splits simp: startFetch_def intro: keeps_promises_same)
next
  case (4 s result now)
  then show ?case
    by (auto split: phase.splits if_splits
        intro: keeps_promises_trans [OF keeps_promises_same keeps_promises_fetchDone])
next
  case (5 s now)
  then show ?case
    by (auto split: phase.splits if_splits
        intro: keeps_promises_trans [OF keeps_promises_same keeps_promises_fetchTimeout])
qed (auto split: if_splits simp: orphanDone_def clearGeoccodingCache_def intro: keeps_promises_same)

lemma geo_run_keeps:
  "geo_run s es = Some s' \<Longrightarrow> geo_inv s \<Longrightarrow>
   keeps_promises s s' \<and> set (issued s) \<subseteq> set (issued s') \<and> geo_inv s'"
proof (induction es arbitrary: s)
  case (Cons e es)
  then obtain s1 where s1: "geo_step s e = Some s1" "geo_run s1 es = Some s'"
    by (auto split: Option.bind_splits)
  then show ?case
    using Cons.IH [OF s1(2) geo_step_inv [OF Cons.prems(2) s1(1)]] geo_step_keeps [OF s1(1)]
    by (blast intro: keeps_promises_trans)
qed simp

definition drain_measure :: "geo_state \<Rightarrow> nat" where
  "drain_measure s =
     2 * length (requestQueue s) + (case phase s of Sleeping r wake \<Rightarrow> 1 | _ \<Rightarrow> 0)"

lemma advance_progress:
  "phase (advance now s) = Idle \<or> drain_measure (advance now s) < 2 * length (requestQueue s)"
proof -
  have "length xs \<le> length (tl (requestQueue s)) \<Longrightarrow> requestQueue s \<noteq> [] \<Longrightarrow>
        2 * length xs + 1 < 2 * length (requestQueue s)" for xs :: "request list"
    by (cases "requestQueue s") auto
  then show ?thesis
    using advance_ends [of now s] by (auto simp: drain_measure_def dest!: suffix_length_le)
qed

lemma fetchDone_progress:
  "phase (fetchDone result now r s) = Idle \<or>
   drain_measure (fetchDone result now r s) < 2 * length (requestQueue s)"
  using advance_progress [of now "resolveAll (callbacks r) result
          (s\<lparr>geocodingCache := AList.update (cacheKey r) result (geocodingCache s), consecutiveErrors := 0\<rparr>)"]
  unfolding fetchDone_def by (simp add: resolveAll_def)

lemma fetchTimeout_progress:
  "phase (fetchTimeout now r s) = Idle \<or>
   drain_measure (fetchTimeout now r s) < 2 * length (requestQueue s)"
  using advance_progress [of now "rejectAll (callbacks r) RequestTimeout
          (s\<lparr>consecutiveErrors := Suc (consecutiveErrors s), lastErrorTime := now,
             orphans := orphans s @ [cacheKey r]\<rparr>)"]
  unfolding fetchTimeout_def Let_def by (simp add: rejectAll_def)

text \<open>Whatever state the queue is in, the environment can bring it back to rest: end the
  sleep, then answer or time out each fetch.\<close>

lemma geo_drains: "\<exists>es s'. geo_run s es = Some s' \<and> phase s' = Idle"
proof (induction "drain_measure s" arbitrary: s rule: less_induct)
  case less
  show ?case
  proof (cases "phase s")
    case Idle
    then show ?thesis by (intro exI [of _ "[]"]) simp
  next
    case (Sleeping r wake)
    let ?s1 = "startFetch (max (clock s) wake) r (s\<lparr>clock := max (clock s) wake\<rparr>)"
    have "geo_step s (WakeUp (max (clock s) wake)) = Some ?s1" using Sleeping by simp
    moreover have "drain_measure ?s1 < drain_measure s"
      using Sleeping by (simp add: drain_measure_def startFetch_def)
    ultimately show ?thesis
      using less [of ?s1] by (metis geo_run.simps(2) bind.simps(2))
  next
    case (Fetching r)
    have m: "drain_measure s = 2 * length (requestQueue s)" using Fetching by (simp add: drain_measure_def)
    obtain e s1 where e: "geo_step s e = Some s1" and p: "phase s1 = Idle \<or> drain_measure s1 < drain_measure s"
    proof (cases "clock s \<le> lastRequestTime s + 15000")
      case True
      show ?thesis
        using Fetching True fetchDone_progress [of None "clock s" r "s\<lparr>clock := clock s\<rparr>"]
          that [of "FetchDone None (clock s)"]
        by (simp add: m)
    next
      case False
      show ?thesis
        using Fetching False fetchTimeout_progress [of "clock s" r "s\<lparr>clock := clock s\<rparr>"]
          that [of "FetchTimeout (clock s)"]
        by (simp add: m)
    qed
    then show ?thesis
    proof (cases "phase s1 = Idle")
      case True
      then show ?thesis using e by (intro exI [of _ "[e]"]) simp
    next
      case False
      then obtain es s' where "geo_run s1 es = Some s'" "phase s' = Idle"
        using less [of s1] p by blast
      then show ?thesis using e by (intro exI [of _ "e # es"]) simp
    qed
  qed
qed

text \<open>With the loop at rest, the 30 s timers settle every promise still pending.\<close>

lemma geo_fire_timers:
  assumes "geo_inv s" "set cbs \<subseteq> set (issued s)"
  shows "\<exists>es s'. geo_run s es = Some s' \<and> phase s' = phase s \<and> requestQueue s' = requestQueue s \<and>
           (\<forall>cb\<in>set cbs. settled s' cb \<noteq> None)"
  using assms
proof (induction cbs arbitrary: s)
  case Nil
  then show ?case by (intro exI [of _ "[]"]) simp
next
  case (Cons cb cbs)
  obtain es1 s1 where e: "geo_run s es1 = Some s1"
    and st: "settled s1 cb \<noteq> None" and fr: "phase s1 = phase s" "requestQueue s1 = requestQueue s"
  proof (cases "settled s cb")
    case None
    with Cons.prems obtain d where d: "timers s cb = Some d"
      by (auto simp: geo_inv_def promises_ok_def)
    let ?s1 = "settle cb (Rejected GeocodingRequestTimeout) (s\<lparr>clock := max (clock s) d\<rparr>)"
    have "geo_run s [TimerFires cb (max (clock s) d)] = Some ?s1" using d by simp
    then show ?thesis by (rule that) (simp_all add: settled_settle None)
  qed (rule that [of "[]" s]; simp)
  from geo_run_keeps [OF e Cons.prems(1)] have inv: "geo_inv s1" and iss: "set (issued s) \<subseteq> set (issued s1)"
    by simp_all
  have "set cbs \<subseteq> set (issued s1)" using Cons.prems(2) iss by auto
  then obtain es s' where r: "geo_run s1 es = Some s'" "phase s' = phase s1"
    "requestQueue s' = requestQueue s1" "\<forall>c\<in>set cbs. settled s' c \<noteq> None"
    using Cons.IH [OF inv] by blast
  then have "settled s' cb \<noteq> None"
    using geo_run_keeps [OF r(1) inv] st by (auto simp: keeps_promises_def)
  then show ?case using e r fr
    by (intro exI [of _ "es1 @ es"] exI [of _ s']) (auto simp: geo_run_append)
qed

lemma geo_run_reachable: "geo_reachable s \<Longrightarrow> geo_run s es = Some s' \<Longrightarrow> geo_reachable s'"
proof (induction es arbitrary: s)
  case (Cons e es)
  then show ?case by (auto split: Option.bind_splits intro: geo_reachable.step)
qed simp

lemma spaced_nth:
  "spaced xs \<Longrightarrow> Suc i < length xs \<Longrightarrow> xs ! i + MIN_REQUEST_INTERVAL \<le> xs ! Suc i"
  by (induction xs arbitrary: i rule: spaced.induct) (auto simp: nth_Cons split: nat.splits)

lemma settle_other:
  "cb \<notin> set cbs \<Longrightarrow> settled (fold (\<lambda>c. settle c (f c)) cbs s) cb = settled s cb \<and>
                       timers (fold (\<lambda>c. settle c (f c)) cbs s) cb = timers s cb"
  by (induction cbs arbitrary: s) (auto simp: settle_def split: option.split)

lemma requestQueue_rejectQueue [simp]: "requestQueue (rejectQueue e s) = []"
  by (simp add: rejectQueue_def)

lemma finishRun_idle_queue:
  "requestQueue s = [] \<Longrightarrow> settled (finishRun s) = settled s \<and> timers (finishRun s) = timers s"
  by (simp add: finishRun_def rejectQueue_def)

lemma rejectQueue_other:
  "cb \<notin> set (concat (map callbacks (requestQueue s))) \<Longrightarrow>
   settled (rejectQueue e s) cb = settled s cb \<and> timers (rejectQueue e s) cb = timers s cb"
proof -
  have "cb \<notin> set (concat (map callbacks rs)) \<Longrightarrow>
        settled (fold (\<lambda>req. rejectAll (callbacks req) e) rs s) cb = settled s cb \<and>
        timers (fold (\<lambda>req. rejectAll (callbacks req) e) rs s) cb = timers s cb" for rs
    by (induction rs arbitrary: s) (simp_all add: rejectAll_def settle_other)
  then show "cb \<notin> set (concat (map callbacks (requestQueue s))) \<Longrightarrow> ?thesis"
    by (simp add: rejectQueue_def)
qed

subsection \<open>A concrete run\<close>

text \<open>Two calls at time 1000, then three fetches that each time out, with a new call queued
  before each of the last two timeouts.\<close>

definition breaker_trace :: "geo_event list" where
  "breaker_trace = [Call 1 0 0 1000, Call 2 1 1 1000, FetchTimeout 16000, Call 3 2 2 20000,
     FetchTimeout 31000, Call 4 3 3 31000, FetchTimeout 46000]"

lemmas geo_eval = geo_init_def reverseGeocodeWithRateLimit_def enqueueRequest_def
  processRequestQueue_def settle_def resolveAll_def rejectAll_def rejectQueue_def finishRun_def
  startFetch_def fetchTimeout_def fetchDone_def cacheKeyOf_def toFixed4_def MIN_REQUEST_INTERVAL_def
  MAX_QUEUE_SIZE_def MAX_CONSECUTIVE_ERRORS_def CIRCUIT_BREAKER_RESET_TIME_def
  maxProcessingAttempts_def Let_def advance.simps

lemma breaker_trace_reachable:
  "geo_reachable (the (geo_run (geo_init 0) (butlast breaker_trace)))"
  "geo_reachable (the (geo_run (geo_init 0) breaker_trace))"
proof -
  have i: "geo_reachable (geo_init 0)" by (rule geo_reachable.init) simp
  show "geo_reachable (the (geo_run (geo_init 0) (butlast breaker_trace)))"
    by (rule geo_run_reachable [OF i, of "butlast breaker_trace"]) (simp add: breaker_trace_def geo_eval)
  show "geo_reachable (the (geo_run (geo_init 0) breaker_trace))"
    by (rule geo_run_reachable [OF i, of breaker_trace]) (simp add: breaker_trace_def geo_eval)
qed

subsection \<open>Properties of the request queue\<close>

text \<open>C33: in every reachable state the request queue holds at most \<open>MAX_QUEUE_SIZE\<close> (20)
  requests, and no two queued requests have the same cache key.\<close>

theorem queue_bounded_distinct:
  "geo_reachable s \<Longrightarrow>
   length (requestQueue s) \<le> MAX_QUEUE_SIZE \<and> distinct (map cacheKey (requestQueue s))"
  using geo_reachable_inv [of s] by (simp add: geo_inv_def core_inv_def queue_wf_def)

theorem queue_bounded_distinct_witness:
  "length (requestQueue (the (geo_run (geo_init 0) (butlast breaker_trace)))) = 1 \<and>
   length (requestQueue (the (geo_run (geo_init 0) (butlast breaker_trace)))) \<le> MAX_QUEUE_SIZE \<and>
   distinct (map cacheKey (requestQueue (the (geo_run (geo_init 0) (butlast breaker_trace)))))"
  using queue_bounded_distinct [OF breaker_trace_reachable(1)]
  by (simp add: breaker_trace_def geo_eval)

text \<open>C34: requests to Nominatim start at least \<open>MIN_REQUEST_INTERVAL\<close> (500 ms) apart: in
  every reachable state consecutive entries of the log of fetch start times differ by at
  least 500.\<close>

theorem requests_spaced:
  "geo_reachable s \<Longrightarrow> Suc i < length (fetchLog s) \<Longrightarrow>
   fetchLog s ! i + MIN_REQUEST_INTERVAL \<le> fetchLog s ! Suc i"
  using geo_reachable_inv [of s] spaced_nth by (simp add: geo_inv_def core_inv_def log_ok_def)

theorem requests_spaced_witness:
  "Suc 1 < length (fetchLog (the (geo_run (geo_init 0) breaker_trace))) \<and>
   fetchLog (the (geo_run (geo_init 0) breaker_trace)) ! 1 + MIN_REQUEST_INTERVAL \<le>
   fetchLog (the (geo_run (geo_init 0) breaker_trace)) ! Suc 1"
  using requests_spaced [OF breaker_trace_reachable(2), of 1]
  by (simp add: breaker_trace_def geo_eval)

text \<open>C35: no request is stranded: the queue is being processed exactly when the loop is
  suspended in a sleep or a fetch, and whenever a request is queued the loop is running.\<close>

theorem no_stranded_requests:
  "geo_reachable s \<Longrightarrow>
   (isProcessingQueue s \<longleftrightarrow> phase s \<noteq> Idle) \<and> (requestQueue s \<noteq> [] \<longrightarrow> isProcessingQueue s)"
  using geo_reachable_inv [of s] by (auto simp: geo_inv_def core_inv_def run_ok_def)

theorem no_stranded_requests_witness:
  "isProcessingQueue (the (geo_run (geo_init 0) (butlast breaker_trace))) \<and>
   phase (the (geo_run (geo_init 0) (butlast breaker_trace))) \<noteq> Idle \<and>
   requestQueue (the (geo_run (geo_init 0) (butlast breaker_trace))) \<noteq> []"
  using no_stranded_requests [OF breaker_trace_reachable(1)]
  by (simp add: breaker_trace_def geo_eval)

text \<open>C36: liveness. From every reachable state some sequence of environment events (the end
  of each sleep, the answer or the timeout of each fetch, the 30 s timers) brings the loop to
  rest with an empty queue and every promise returned so far settled.\<close>

theorem queue_eventually_settles:
  "geo_reachable s \<Longrightarrow>
   \<exists>es s'. geo_run s es = Some s' \<and> phase s' = Idle \<and> \<not> isProcessingQueue s' \<and>
     requestQueue s' = [] \<and> (\<forall>cb\<in>set (issued s). settled s' cb \<noteq> None)"
proof -
  assume r: "geo_reachable s"
  have inv: "geo_inv s" by (rule geo_reachable_inv [OF r])
  obtain es1 s1 where 1: "geo_run s es1 = Some s1" "phase s1 = Idle"
    using geo_drains by blast
  from geo_run_keeps [OF 1(1) inv] have inv1: "geo_inv s1"
    and iss: "set (issued s) \<subseteq> set (issued s1)" by simp_all
  obtain es2 s2 where 2: "geo_run s1 es2 = Some s2" "phase s2 = phase s1"
    "requestQueue s2 = requestQueue s1" "\<forall>cb\<in>set (issued s1). settled s2 cb \<noteq> None"
    using geo_fire_timers [OF inv1 subset_refl] by blast
  have "geo_inv s2" using geo_run_keeps [OF 2(1) inv1] by simp
  then show ?thesis using 1 2 iss inv1
    by (intro exI [of _ "es1 @ es2"] exI [of _ s2])
       (auto simp: geo_run_append geo_inv_def core_inv_def run_ok_def)
qed

theorem queue_eventually_settles_witness:
  "\<exists>es s'. geo_run (the (geo_run (geo_init 0) breaker_trace)) es = Some s' \<and> phase s' = Idle \<and>
     requestQueue s' = [] \<and> settled s' 3 \<noteq> None \<and> settled s' 4 \<noteq> None"
  using queue_eventually_settles [OF breaker_trace_reachable(2)]
  by (simp add: breaker_trace_def geo_eval) blast

text \<open>C37: the consecutive-error counter never exceeds \<open>MAX_CONSECUTIVE_ERRORS\<close> (3), the
  breaker is open exactly when it has reached 3, and no queue is processed while it is open.\<close>

theorem breaker_counter_bounds:
  "geo_reachable s \<Longrightarrow>
   consecutiveErrors s \<le> MAX_CONSECUTIVE_ERRORS \<and>
   (circuitBreakerOpen s \<longleftrightarrow> consecutiveErrors s = MAX_CONSECUTIVE_ERRORS) \<and>
   (circuitBreakerOpen s \<longrightarrow> \<not> isProcessingQueue s)"
  using geo_reachable_inv [of s] by (simp add: geo_inv_def core_inv_def breaker_ok_def)

theorem breaker_counter_bounds_witness:
  "circuitBreakerOpen (the (geo_run (geo_init 0) breaker_trace)) \<and>
   consecutiveErrors (the (geo_run (geo_init 0) breaker_trace)) = MAX_CONSECUTIVE_ERRORS \<and>
   \<not> isProcessingQueue (the (geo_run (geo_init 0) breaker_trace))"
  using breaker_counter_bounds [OF breaker_trace_reachable(2)]
  by (simp add: breaker_trace_def geo_eval)

text \<open>C38: error path. A call whose key is neither cached nor queued, made while the queue
  holds \<open>MAX_QUEUE_SIZE\<close> requests and the breaker is closed, is rejected with
  "Geocoding queue is full"; its timer is cleared and the queue is left as it was.\<close>

theorem full_queue_rejects:
  assumes "\<not> circuitBreakerOpen s" "map_of (geocodingCache s) (cacheKeyOf lat lon) = None"
    "cacheKeyOf lat lon \<notin> set (map cacheKey (requestQueue s))"
    "MAX_QUEUE_SIZE \<le> length (requestQueue s)" "settled s cb = None"
  shows "settled (reverseGeocodeWithRateLimit cb lat lon now s) cb = Some (Rejected GeocodingQueueFull) \<and>
         timers (reverseGeocodeWithRateLimit cb lat lon now s) cb = None \<and>
         requestQueue (reverseGeocodeWithRateLimit cb lat lon now s) = requestQueue s"
proof -
  have "find (\<lambda>req. cacheKey req = cacheKeyOf lat lon) (requestQueue s) = None"
    unfolding find_None_iff using assms(3) by force
  then show ?thesis using assms
    by (simp add: reverseGeocodeWithRateLimit_def enqueueRequest_def settle_def)
qed

definition full_queue_state :: geo_state where
  "full_queue_state =
     (geo_init 0)\<lparr>requestQueue := map (\<lambda>k. \<lparr>reqLat = 0, reqLon = 0, cacheKey = ((False, k), (False, 0)),
                                              callbacks = [k]\<rparr>) [0..<20],
                  isProcessingQueue := True,
                  phase := Fetching \<lparr>reqLat = 0, reqLon = 0, cacheKey = ((False, 0), (True, 0)), callbacks = [20]\<rparr>,
                  issued := [0..<21], timers := (\<lambda>k. if k \<le> 20 then Some 30000 else None)\<rparr>"

theorem full_queue_rejects_witness:
  "settled (reverseGeocodeWithRateLimit 21 1 1 500 full_queue_state) 21 = Some (Rejected GeocodingQueueFull) \<and>
   timers (reverseGeocodeWithRateLimit 21 1 1 500 full_queue_state) 21 = None \<and>
   length (requestQueue (reverseGeocodeWithRateLimit 21 1 1 500 full_queue_state)) = 20"
  using full_queue_rejects [of full_queue_state 1 1 21 500]
  by (simp add: full_queue_state_def geo_init_def cacheKeyOf_def toFixed4_def MAX_QUEUE_SIZE_def
      upt_conv_Cons del: upt_Suc)

text \<open>C39: error path. While the breaker is open and less than \<open>CIRCUIT_BREAKER_RESET_TIME\<close>
  (5 minutes) has passed since the last error, a call resolves at once to \<open>null\<close>, and
  neither the queue, the cache nor the fetch log changes; the breaker stays open.\<close>

theorem open_breaker_answers_null:
  assumes "circuitBreakerOpen s" "now - lastErrorTime s < CIRCUIT_BREAKER_RESET_TIME"
    "settled s cb = None"
  shows "settled (reverseGeocodeWithRateLimit cb lat lon now s) cb = Some (Resolved None) \<and>
         requestQueue (reverseGeocodeWithRateLimit cb lat lon now s) = requestQueue s \<and>
         geocodingCache (reverseGeocodeWithRateLimit cb lat lon now s) = geocodingCache s \<and>
         fetchLog (reverseGeocodeWithRateLimit cb lat lon now s) = fetchLog s \<and>
         circuitBreakerOpen (reverseGeocodeWithRateLimit cb lat lon now s)"
  using assms by (simp add: reverseGeocodeWithRateLimit_def settle_def)

theorem open_breaker_answers_null_witness:
  "settled (reverseGeocodeWithRateLimit 5 4 4 47000 (the (geo_run (geo_init 0) breaker_trace))) 5 =
     Some (Resolved None) \<and>
   requestQueue (reverseGeocodeWithRateLimit 5 4 4 47000 (the (geo_run (geo_init 0) breaker_trace))) = []"
  using open_breaker_answers_null [of "the (geo_run (geo_init 0) breaker_trace)" 47000 5 4 4]
  by (simp add: breaker_trace_def geo_eval)

text \<open>C40 (a defect of the code): when a fetch times out for the third consecutive time, the
  breaker opens and the queued requests are rejected, but the loop leaves with \<open>break\<close> before
  rejecting the callbacks of the request whose fetch failed. A caller waiting only on that
  request stays unsettled, with nothing queued or in flight for it: only its own 30 s timer
  will settle it, with "Geocoding request timeout".\<close>

theorem breaker_trip_strands_inflight:
  assumes "phase s = Fetching r" "Suc (consecutiveErrors s) = MAX_CONSECUTIVE_ERRORS"
    "cb \<in> set (callbacks r)" "cb \<notin> set (concat (map callbacks (requestQueue s)))"
    "settled s cb = None"
  shows "settled (fetchTimeout now r s) cb = None \<and> timers (fetchTimeout now r s) cb = timers s cb \<and>
         phase (fetchTimeout now r s) = Idle \<and> requestQueue (fetchTimeout now r s) = [] \<and>
         circuitBreakerOpen (fetchTimeout now r s)"
proof -
  let ?s1 = "s\<lparr>consecutiveErrors := Suc (consecutiveErrors s), lastErrorTime := now,
               orphans := orphans s @ [cacheKey r]\<rparr>"
  have eq: "fetchTimeout now r s =
            finishRun ((rejectQueue CircuitBreakerIsOpen ?s1)\<lparr>circuitBreakerOpen := True\<rparr>)"
    using assms(2) by (simp add: fetchTimeout_def Let_def)
  have "settled (rejectQueue CircuitBreakerIsOpen ?s1) cb = None \<and>
        timers (rejectQueue CircuitBreakerIsOpen ?s1) cb = timers s cb"
    using rejectQueue_other [of cb ?s1] assms(4,5) by simp
  then show ?thesis unfolding eq
    using finishRun_idle_queue [of "(rejectQueue CircuitBreakerIsOpen ?s1)\<lparr>circuitBreakerOpen := True\<rparr>"]
    by (simp add: requestQueue_finishRun)
qed

theorem breaker_trip_strands_inflight_witness:
  "phase (the (geo_run (geo_init 0) (butlast breaker_trace))) =
     Fetching \<lparr>reqLat = 2, reqLon = 2, cacheKey = cacheKeyOf 2 2, callbacks = [3]\<rparr> \<and>
   settled (fetchTimeout 46000 \<lparr>reqLat = 2, reqLon = 2, cacheKey = cacheKeyOf 2 2, callbacks = [3]\<rparr>
              (the (geo_run (geo_init 0) (butlast breaker_trace)))) 3 = None \<and>
   timers (fetchTimeout 46000 \<lparr>reqLat = 2, reqLon = 2, cacheKey = cacheKeyOf 2 2, callbacks = [3]\<rparr>
              (the (geo_run (geo_init 0) (butlast breaker_trace)))) 3 = Some 50000 \<and>
   settled (fetchTimeout 46000 \<lparr>reqLat = 2, reqLon = 2, cacheKey = cacheKeyOf 2 2, callbacks = [3]\<rparr>
              (the (geo_run (geo_init 0) (butlast breaker_trace)))) 4 = Some (Rejected CircuitBreakerIsOpen)"
  using breaker_trip_strands_inflight
    [of "the (geo_run (geo_init 0) (butlast breaker_trace))"
        "\<lparr>reqLat = 2, reqLon = 2, cacheKey = cacheKeyOf 2 2, callbacks = [3]\<rparr>" 3 46000]
  by (simp add: breaker_trace_def geo_eval)

end
