(* ===== verification/GeoName.thy ===== *)
theory GeoName
  imports GeoQueue
begin

text \<open>
  The name extraction of \<open>reverseGeocode\<close> (\<open>src/src/geocoding.js\<close>, lines 16--318): how a
  Nominatim reply becomes a place name or \<open>null\<close>.
  \<^item> A JavaScript string is an Isabelle \<open>string\<close>, one \<open>char\<close> per UTF-16 code unit. This is
    exact for strings whose code units are below 256 (Latin-1). The Swedish pattern of
    line 158 holds the code units \<open>0xC3 0xA5\<close>, so it is such a string.
  \<^item> \<open>toLowerCase\<close> is \<open>lower_char\<close>, which lowers \<open>A-Z\<close> and the Latin-1 capitals. The
    case-insensitive regular expressions (\<open>/i\<close>) compare characters after \<open>canon\<close>, the
    \<open>Canonicalize\<close> operation of ECMAScript restricted to Latin-1. \<open>\s\<close> and \<open>trim\<close> use
    \<open>is_js_space\<close>, the white space and line terminators below 256.
  \<^item> Each regular expression of the code is a bool-valued function. Backtracking is not
    needed, because in every pattern \<open>\s*\<close> is followed by a class that excludes white space.
  \<^item> The reply \<open>data\<close> is the record \<open>nominatim\<close>, and \<open>data.address\<close> is the record
    \<open>address\<close>. A field is \<open>string option\<close>, with \<open>None\<close> for a missing field; fields that
    are not strings are not modelled. JavaScript truthiness of such a field is \<open>truthy\<close>.
\<close>

subsection \<open>Characters and strings\<close>

definition is_js_space :: "char \<Rightarrow> bool" where
  "is_js_space c = (let n = of_char c :: nat in (9 \<le> n \<and> n \<le> 13) \<or> n = 32 \<or> n = 160)"

definition is_digit :: "char \<Rightarrow> bool" where
  "is_digit c = (let n = of_char c :: nat in 48 \<le> n \<and> n \<le> 57)"

definition is_lower_ascii :: "char \<Rightarrow> bool" where
  "is_lower_ascii c = (let n = of_char c :: nat in 97 \<le> n \<and> n \<le> 122)"

text \<open>\<open>String.prototype.toLowerCase\<close> on Latin-1 code units.\<close>

definition lower_char :: "char \<Rightarrow> char" where
  "lower_char c =
     (let n = of_char c :: nat
      in if (65 \<le> n \<and> n \<le> 90) \<or> (192 \<le> n \<and> n \<le> 222 \<and> n \<noteq> 215) then char_of (n + 32) else c)"

definition toLowerCase :: "string \<Rightarrow> string" where
  "toLowerCase s = map lower_char s"

text \<open>\<open>Canonicalize\<close> of a case-insensitive pattern: the upper case of a Latin-1 code unit.
  \<open>0xB5\<close> and \<open>0xFF\<close> have upper cases above 255 that no other Latin-1 unit shares, so they
  stand for themselves.\<close>

definition canon :: "char \<Rightarrow> char" where
  "canon c =
     (let n = of_char c :: nat
      in if (97 \<le> n \<and> n \<le> 122) \<or> (224 \<le> n \<and> n \<le> 254 \<and> n \<noteq> 247) then char_of (n - 32) else c)"

definition is_alnum_ci :: "char \<Rightarrow> bool" where
  "is_alnum_ci c = (is_digit c \<or> is_lower_ascii (lower_char c) \<and> of_char c < (128::nat))"

definition trim :: "string \<Rightarrow> string" where
  "trim s = rev (dropWhile is_js_space (rev (dropWhile is_js_space s)))"

text \<open>\<open>s.split(c)\<close>: the pieces between the separators, at least one.\<close>

fun split_on :: "char \<Rightarrow> string \<Rightarrow> string list" where
  "split_on c [] = [[]]"
| "split_on c (x # xs) =
     (if x = c then [] # split_on c xs else (let ps = split_on c xs in (x # hd ps) # tl ps))"

text \<open>\<open>s.includes(t)\<close>.\<close>

fun js_includes :: "string \<Rightarrow> string \<Rightarrow> bool" where
  "js_includes [] t = (t = [])"
| "js_includes (c # cs) t = (prefix t (c # cs) \<or> js_includes cs t)"

text \<open>\<open>parts.join(sep)\<close>.\<close>

fun join :: "string \<Rightarrow> string list \<Rightarrow> string" where
  "join sep [] = []"
| "join sep [p] = p"
| "join sep (p # ps) = p @ sep @ join sep ps"

text \<open>JavaScript truthiness of an optional string, and \<open>a || b\<close> on such values.\<close>

definition truthy :: "string option \<Rightarrow> bool" where
  "truthy v = (case v of Some s \<Rightarrow> s \<noteq> [] | None \<Rightarrow> False)"

definition js_or_s :: "string option \<Rightarrow> string option \<Rightarrow> string option" where
  "js_or_s a b = (if truthy a then a else b)"

subsection \<open>The regular expressions\<close>

definition ci_prefix :: "string \<Rightarrow> string \<Rightarrow> bool" where
  "ci_prefix w s = prefix (map canon w) (map canon s)"

definition digits1 :: "string \<Rightarrow> bool" where
  "digits1 s = (s \<noteq> [] \<and> list_all is_digit s)"

text \<open>\<open>/(station|airport|...|hauptbahnhof)/i\<close> (lines 86, 99, 108), matched anywhere.\<close>

definition facility_words :: "string list" where
  "facility_words = [''station'', ''airport'', ''mall'', ''center'', ''centre'', ''terminal'',
     ''bahnhof'', ''flygplats'', ''centrum'', ''hauptbahnhof'']"

definition facility_match :: "string \<Rightarrow> bool" where
  "facility_match s = list_ex (\<lambda>w. js_includes (map canon s) (map canon w)) facility_words"

text \<open>The four patterns of lines 130--133: \<open>/^\d+$/\<close>, \<open>/^\d+[a-z]$/i\<close>,
  \<open>/^[a-z]\d+$/i\<close> and \<open>/^\d+\/\d+$/\<close>.\<close>

definition re_number_letter :: "string \<Rightarrow> bool" where
  "re_number_letter s = (s \<noteq> [] \<and> digits1 (butlast s) \<and> is_lower_ascii (lower_char (last s)) \<and>
                          of_char (last s) < (128::nat))"

definition re_letter_number :: "string \<Rightarrow> bool" where
  "re_letter_number s =
     (case s of c # r \<Rightarrow> is_lower_ascii (lower_char c) \<and> of_char c < (128::nat) \<and> digits1 r | [] \<Rightarrow> False)"

definition re_fraction :: "string \<Rightarrow> bool" where
  "re_fraction s = (case split_on (CHR ''/'') s of [a, b] \<Rightarrow> digits1 a \<and> digits1 b | _ \<Rightarrow> False)"

text \<open>\<open>/^(w1|...|wk)\s*X/i\<close>: one of the words, case-insensitively, then white space, then a
  character of the class \<open>X\<close>.\<close>

definition word_then :: "string list \<Rightarrow> (char \<Rightarrow> bool) \<Rightarrow> string \<Rightarrow> bool" where
  "word_then ws p s =
     list_ex (\<lambda>w. ci_prefix w s \<and>
                   (case dropWhile is_js_space (drop (length w) s) of c # _ \<Rightarrow> p c | [] \<Rightarrow> False)) ws"

text \<open>\<open>/^\d+[a-z]?$/\<close> (line 163), the one pattern without \<open>/i\<close>.\<close>

definition re_number_opt_lower :: "string \<Rightarrow> bool" where
  "re_number_opt_lower s = (digits1 s \<or> s \<noteq> [] \<and> digits1 (butlast s) \<and> is_lower_ascii (last s))"

text \<open>The Swedish word of line 158, as written in the source: \<open>sp\<close>, the code units
  \<open>0xC3 0xA5\<close> (the UTF-8 bytes of \<open>\<aa>\<close> read as Latin-1), then \<open>r\<close>.\<close>

definition swedish_track_word :: string where
  "swedish_track_word = [CHR ''s'', CHR ''p'', char_of (195::nat), char_of (165::nat), CHR ''r'']"

definition specificPatterns :: "(string \<Rightarrow> bool) list" where
  "specificPatterns =
     [word_then [''track'', ''platform'', ''gate'', ''terminal'', ''pier'', ''dock'', ''bay'', ''stand''] is_digit,
      word_then [swedish_track_word, ''plattform'', ''terminal'', ''gate''] is_digit,
      word_then [''gleis'', ''bahnsteig''] is_digit,
      word_then [''voie'', ''quai''] is_digit,
      word_then [''level''] is_digit,
      word_then [''floor''] is_digit,
      re_number_opt_lower,
      word_then [''terminal'', ''hall'', ''wing'', ''section''] is_alnum_ci]"

definition isSpecificLocation :: "string \<Rightarrow> bool" where
  "isSpecificLocation s = list_ex (\<lambda>p. p s) specificPatterns"

text \<open>\<open>/^(yes|no|true|false|\d+)$/i\<close> (lines 209--228): a tag value that is not a name.\<close>

definition re_placeholder :: "string \<Rightarrow> bool" where
  "re_placeholder s = (list_ex (\<lambda>w. map canon w = map canon s) [''yes'', ''no'', ''true'', ''false''] \<or> digits1 s)"

subsection \<open>The reply\<close>

record address =
  building :: "string option"
  public_building :: "string option"
  amenity :: "string option"
  railway :: "string option"
  aeroway :: "string option"
  leisure :: "string option"
  tourism :: "string option"
  man_made :: "string option"
  shop :: "string option"
  road :: "string option"
  pedestrian :: "string option"
  path :: "string option"
  house_number :: "string option"
  neighbourhood :: "string option"
  suburb :: "string option"
  city_district :: "string option"
  city :: "string option"
  town :: "string option"
  village :: "string option"

record nominatim =
  data_error :: bool
  namedetails_name :: "string option"
  display_name :: "string option"
  address :: "address option"
  place_type :: "string option"
  place_class :: "string option"

text \<open>The outcome of \<open>fetch\<close> and \<open>response.json()\<close>: the fetch fails, or a response with a
  status and a body that is not JSON, is JSON \<open>null\<close>, or is a reply.\<close>

datatype json_body = InvalidJson | JsonNull | JsonData nominatim

datatype fetch_outcome = NetworkFailure | Response nat json_body

subsection \<open>Extracting the name\<close>

text \<open>Lines 64--117: a major facility from the address fields, else from the name, else
  from the first three parts of \<open>display_name\<close>.\<close>

definition facilityFields :: "address \<Rightarrow> string option list" where
  "facilityFields addr = [building addr, public_building addr, amenity addr, railway addr,
     aeroway addr, leisure addr, tourism addr, man_made addr]"

definition mainFacilityOf :: "nominatim \<Rightarrow> string option" where
  "mainFacilityOf d =
     (case address d of
        None \<Rightarrow> None
      | Some addr \<Rightarrow>
          (case find (\<lambda>f. truthy f \<and> facility_match (the f)) (facilityFields addr) of
             Some field \<Rightarrow> field
           | None \<Rightarrow>
               if truthy (namedetails_name d) \<and> facility_match (the (namedetails_name d))
               then namedetails_name d
               else if truthy (display_name d)
               then find facility_match (take 3 (map trim (split_on (CHR '','') (the (display_name d)))))
               else None))"

text \<open>Lines 119--138: the POI name, else the first part of \<open>display_name\<close> unless it is
  a number, a number and a letter, a letter and a number, or a fraction.\<close>

definition poiNameOf :: "nominatim \<Rightarrow> string option" where
  "poiNameOf d =
     (if truthy (namedetails_name d) then namedetails_name d
      else if truthy (display_name d) then
        (let firstPart = trim (hd (split_on (CHR '','') (the (display_name d))))
         in if firstPart \<noteq> [] \<and> \<not> digits1 firstPart \<and> \<not> re_number_letter firstPart \<and>
               \<not> re_letter_number firstPart \<and> \<not> re_fraction firstPart
            then Some firstPart else None)
      else None)"

text \<open>The test of lines 174--178: the context differs from the name, ignoring case, and the
  name does not contain the context's first word.\<close>

definition usable_context :: "string \<Rightarrow> string \<Rightarrow> bool" where
  "usable_context ctx name =
     (toLowerCase ctx \<noteq> toLowerCase name \<and>
      \<not> js_includes (toLowerCase name) (hd (split_on (CHR '' '') (toLowerCase ctx))))"

text \<open>Lines 145--199: the context put in front of a specific location such as a track.\<close>

definition contextOf :: "address \<Rightarrow> string option \<Rightarrow> string option \<Rightarrow> string option" where
  "contextOf addr mainFacilityName locationName =
     (let buildingContext = js_or_s (building addr) (js_or_s (public_building addr) (amenity addr));
          areaContext = js_or_s (aeroway addr) (js_or_s (railway addr) (js_or_s (leisure addr) (tourism addr)))
      in if truthy locationName \<and> (truthy buildingContext \<or> truthy areaContext \<or> truthy mainFacilityName) \<and>
            isSpecificLocation (the locationName)
         then (if truthy mainFacilityName \<and> usable_context (the mainFacilityName) (the locationName)
               then mainFacilityName
               else if truthy buildingContext \<and> usable_context (the buildingContext) (the locationName)
               then buildingContext
               else if truthy areaContext \<and> usable_context (the areaContext) (the locationName)
               then areaContext
               else None)
         else None)"

text \<open>Lines 207--231: the first address tag that is a name rather than a placeholder.\<close>

definition tagNameOf :: "address \<Rightarrow> string option" where
  "tagNameOf addr =
     (case find (\<lambda>v. truthy v \<and> \<not> re_placeholder (the v))
             [amenity addr, building addr, shop addr, leisure addr, tourism addr] of
        Some v \<Rightarrow> v | None \<Rightarrow> None)"

text \<open>Lines 245--293: street (with house number), locality, and the city, town or village
  unless a part already contains it.\<close>

definition addressParts :: "address \<Rightarrow> string list" where
  "addressParts addr =
     (let parts = (if truthy (road addr) then [the (road addr)]
                   else if truthy (pedestrian addr) then [the (pedestrian addr)]
                   else if truthy (path addr) then [the (path addr)] else []);
          parts = (if truthy (house_number addr) \<and> parts \<noteq> []
                   then (the (house_number addr) @ '' '' @ hd parts) # tl parts else parts);
          parts = (if truthy (neighbourhood addr) then parts @ [the (neighbourhood addr)]
                   else if truthy (suburb addr) then parts @ [the (suburb addr)]
                   else if truthy (city_district addr) then parts @ [the (city_district addr)] else parts);
          fresh = (\<lambda>v. truthy v \<and> \<not> list_ex (\<lambda>part. js_includes (toLowerCase part) (toLowerCase (the v))) parts)
      in if fresh (city addr) then parts @ [the (city addr)]
         else if fresh (town addr) then parts @ [the (town addr)]
         else if fresh (village addr) then parts @ [the (village addr)] else parts)"

text \<open>Lines 62--305: the whole extraction, in the order of the code.\<close>

definition locationNameOf :: "nominatim \<Rightarrow> string option" where
  "locationNameOf d =
     (let mainFacilityName = mainFacilityOf d;
          locationName = poiNameOf d;
          (locationName, contextName) =
            (case address d of
               None \<Rightarrow> (locationName, None)
             | Some addr \<Rightarrow>
                 (let contextName = contextOf addr mainFacilityName locationName;
                      locationName = (if \<not> truthy locationName \<and> truthy mainFacilityName
                                      then mainFacilityName else locationName);
                      locationName = (if \<not> truthy locationName \<and> tagNameOf addr \<noteq> None
                                      then tagNameOf addr else locationName)
                  in (locationName, contextName)));
          locationName = (if truthy locationName \<and> truthy contextName
                          then Some (the contextName @ '', '' @ the locationName) else locationName);
          locationName = (case address d of
                            Some addr \<Rightarrow>
                              if \<not> truthy locationName \<and> addressParts addr \<noteq> []
                              then Some (join '', '' (take 3 (addressParts addr))) else locationName
                          | None \<Rightarrow> locationName)
      in if \<not> truthy locationName \<and> truthy (place_type d) \<and> truthy (place_class d)
         then Some (the (place_type d) @ '' ('' @ the (place_class d) @ '')'') else locationName)"

text \<open>Lines 26--54 and 307--316: an HTTP status outside 200--299, a failed fetch, a body
  that is not JSON, \<open>null\<close> or an error reply all give \<open>null\<close>; otherwise the extracted
  name.\<close>

definition reverseGeocodeBody :: "fetch_outcome \<Rightarrow> string option" where
  "reverseGeocodeBody r =
     (case r of
        NetworkFailure \<Rightarrow> None
      | Response status body \<Rightarrow>
          if \<not> (200 \<le> status \<and> status < 300) then None
          else (case body of
                  InvalidJson \<Rightarrow> None
                | JsonNull \<Rightarrow> None
                | JsonData d \<Rightarrow> if data_error d then None else locationNameOf d))"

text \<open>\<open>reverseGeocode\<close> with its cache (lines 16--24 and the two \<open>geocodingCache.set\<close>).\<close>

definition reverseGeocode ::
  "(cache_key \<times> string option) list \<Rightarrow> real \<Rightarrow> real \<Rightarrow> fetch_outcome \<Rightarrow>
   (cache_key \<times> string option) list \<times> string option" where
  "reverseGeocode cache lat lon r =
     (let key = cacheKeyOf lat lon
      in case map_of cache key of
           Some cached \<Rightarrow> (cache, cached)
         | None \<Rightarrow> (let v = reverseGeocodeBody r in (AList.update key v cache, v)))"

subsection \<open>Lemmas\<close>

lemma split_on_nonempty [simp]: "split_on c s \<noteq> []"
  by (induction s) (simp_all add: Let_def)

lemma js_includes_Nil [simp]: "js_includes [] t \<longleftrightarrow> t = []"
  by simp

lemma facility_match_nonempty: "facility_match s \<Longrightarrow> s \<noteq> []"
  by (auto simp: facility_match_def facility_words_def)

lemma find_truthy: "find (\<lambda>v. truthy v \<and> P v) xs = Some v \<Longrightarrow> v \<noteq> Some []"
  by (auto simp: find_Some_iff truthy_def)

lemma truthy_not_empty: "truthy v \<Longrightarrow> v \<noteq> Some []"
  by (cases v) (simp_all add: truthy_def)

lemma truthy_Some [simp]: "truthy (Some s) \<longleftrightarrow> s \<noteq> []"
  by (simp add: truthy_def)

lemma truthy_None [simp]: "\<not> truthy None"
  by (simp add: truthy_def)

lemma join_nonempty: "ps \<noteq> [] \<Longrightarrow> hd ps \<noteq> [] \<Longrightarrow> join sep ps \<noteq> []"
  by (induction sep ps rule: join.induct) auto

lemma mainFacilityOf_not_empty: "mainFacilityOf d \<noteq> Some []"
proof -
  have "find facility_match ps \<noteq> Some []" for ps
    using facility_match_nonempty by (auto simp: find_Some_iff)
  then show ?thesis unfolding mainFacilityOf_def
    by (auto split: option.split dest: find_truthy truthy_not_empty)
qed

lemma poiNameOf_not_empty: "poiNameOf d \<noteq> Some []"
  by (auto simp: poiNameOf_def Let_def dest: truthy_not_empty)

lemma contextOf_not_empty: "truthy (contextOf addr m n) \<or> contextOf addr m n = None"
  by (simp add: contextOf_def Let_def)

lemma tagNameOf_not_empty: "tagNameOf addr \<noteq> Some []"
  unfolding tagNameOf_def by (auto split: option.split dest: find_truthy)

lemma the_truthy: "truthy v \<Longrightarrow> the v \<noteq> []"
  by (cases v) simp_all

text \<open>At most three parts, none empty: the \<open>slice(0, 3)\<close> of line 298 never cuts.\<close>

lemma addressParts_shape:
  "length (addressParts addr) \<le> 3 \<and> (\<forall>p\<in>set (addressParts addr). p \<noteq> [])"
proof -
  define p1 where "p1 = (if truthy (road addr) then [the (road addr)]
                   else if truthy (pedestrian addr) then [the (pedestrian addr)]
                   else if truthy (path addr) then [the (path addr)] else [])"
  define p2 where "p2 = (if truthy (house_number addr) \<and> p1 \<noteq> []
                   then (the (house_number addr) @ '' '' @ hd p1) # tl p1 else p1)"
  define p3 where "p3 = (if truthy (neighbourhood addr) then p2 @ [the (neighbourhood addr)]
                   else if truthy (suburb addr) then p2 @ [the (suburb addr)]
                   else if truthy (city_district addr) then p2 @ [the (city_district addr)] else p2)"
  define fresh where "fresh v = (truthy v \<and>
    \<not> list_ex (\<lambda>part. js_includes (toLowerCase part) (toLowerCase (the v))) p3)" for v
  have eq: "addressParts addr =
    (if fresh (city addr) then p3 @ [the (city addr)]
     else if fresh (town addr) then p3 @ [the (town addr)]
     else if fresh (village addr) then p3 @ [the (village addr)] else p3)"
    unfolding addressParts_def Let_def p1_def p2_def p3_def fresh_def by (rule refl)
  have "length p1 \<le> 1 \<and> (\<forall>p\<in>set p1. p \<noteq> [])" by (simp add: p1_def the_truthy)
  then have "length p2 \<le> 1 \<and> (\<forall>p\<in>set p2. p \<noteq> [])" by (cases p1) (simp_all add: p2_def)
  then have "length p3 \<le> 2 \<and> (\<forall>p\<in>set p3. p \<noteq> [])" by (simp add: p3_def the_truthy)
  then show ?thesis
    using the_truthy [of "city addr"] the_truthy [of "town addr"] the_truthy [of "village addr"]
    unfolding eq fresh_def by simp
qed

lemma addressParts_nonempty: "p \<in> set (addressParts addr) \<Longrightarrow> p \<noteq> []"
  using addressParts_shape by blast

text \<open>Each assignment of \<open>locationName\<close> in \<open>reverseGeocode\<close> keeps it \<open>null\<close> or non-empty.\<close>

lemma if_not_empty: "(P \<Longrightarrow> x \<noteq> Some []) \<Longrightarrow> y \<noteq> Some [] \<Longrightarrow> (if P then x else y) \<noteq> Some []"
  by simp

lemma locationNameOf_not_empty: "locationNameOf d \<noteq> Some []"
proof -
  define ln0 where "ln0 = poiNameOf d"
  define mf where "mf = mainFacilityOf d"
  have ln0: "ln0 \<noteq> Some []" and mf: "mf \<noteq> Some []"
    unfolding ln0_def mf_def by (rule poiNameOf_not_empty mainFacilityOf_not_empty)+
  define tail where "tail ln = (if \<not> truthy ln \<and> truthy (place_type d) \<and> truthy (place_class d)
      then Some (the (place_type d) @ '' ('' @ the (place_class d) @ '')'') else ln)" for ln
  have tail: "ln \<noteq> Some [] \<Longrightarrow> tail ln \<noteq> Some []" for ln
    unfolding tail_def by (rule if_not_empty) simp_all
  show ?thesis
  proof (cases "address d")
    case None
    then have "locationNameOf d = tail ln0"
      by (simp add: locationNameOf_def Let_def ln0_def tail_def)
    then show ?thesis using tail [OF ln0] by simp
  next
    case (Some addr)
    define ln1 where "ln1 = (if \<not> truthy ln0 \<and> truthy mf then mf else ln0)"
    define ln2 where "ln2 = (if \<not> truthy ln1 \<and> tagNameOf addr \<noteq> None then tagNameOf addr else ln1)"
    define ctx where "ctx = contextOf addr mf ln0"
    define ln3 where "ln3 = (if truthy ln2 \<and> truthy ctx then Some (the ctx @ '', '' @ the ln2) else ln2)"
    define ln4 where "ln4 = (if \<not> truthy ln3 \<and> addressParts addr \<noteq> []
                             then Some (join '', '' (take 3 (addressParts addr))) else ln3)"
    have "locationNameOf d = tail ln4"
      using Some by (simp add: locationNameOf_def Let_def ln0_def mf_def ln1_def ln2_def ctx_def
                       ln3_def ln4_def tail_def)
    moreover have "ln1 \<noteq> Some []" unfolding ln1_def using ln0 mf by simp
    then have "ln2 \<noteq> Some []" unfolding ln2_def using tagNameOf_not_empty by simp
    then have "ln3 \<noteq> Some []" unfolding ln3_def by simp
    then have "ln4 \<noteq> Some []" unfolding ln4_def
    proof (rule if_not_empty [rotated])
      assume "\<not> truthy ln3 \<and> addressParts addr \<noteq> []"
      then show "Some (join '', '' (take 3 (addressParts addr))) \<noteq> Some []"
        using addressParts_nonempty [of "hd (addressParts addr)" addr]
        by (simp add: join_nonempty hd_take)
    qed
    ultimately show ?thesis using tail by simp
  qed
qed

lemma char_eq_of_char: "(c = d) = (of_char c = (of_char d :: nat))"
  by (simp add: of_char_eq_iff)

lemmas name_eval = locationNameOf_def mainFacilityOf_def poiNameOf_def contextOf_def tagNameOf_def
  addressParts_def usable_context_def isSpecificLocation_def specificPatterns_def word_then_def
  ci_prefix_def canon_def facility_match_def facility_words_def js_or_s_def toLowerCase_def
  lower_char_def is_digit_def is_js_space_def re_number_opt_lower_def digits1_def is_alnum_ci_def
  is_lower_ascii_def swedish_track_word_def facilityFields_def re_placeholder_def trim_def
  re_number_letter_def re_letter_number_def re_fraction_def char_eq_of_char Let_def

subsection \<open>Concrete replies\<close>

definition no_address :: address where
  "no_address = \<lparr>building = None, public_building = None, amenity = None, railway = None,
     aeroway = None, leisure = None, tourism = None, man_made = None, shop = None, road = None,
     pedestrian = None, path = None, house_number = None, neighbourhood = None, suburb = None,
     city_district = None, city = None, town = None, village = None\<rparr>"

text \<open>A named place inside Stockholm's central station.\<close>

definition station_reply :: "string \<Rightarrow> nominatim" where
  "station_reply n =
     \<lparr>data_error = False, namedetails_name = Some n, display_name = None,
      address = Some (no_address\<lparr>building := Some ''Stockholm Centralstation''\<rparr>),
      place_type = None, place_class = None\<rparr>"

text \<open>A street address with no name.\<close>

definition street_reply :: nominatim where
  "street_reply =
     \<lparr>data_error = False, namedetails_name = None, display_name = None,
      address = Some (no_address\<lparr>road := Some ''Drottninggatan'', house_number := Some ''5'',
                                  suburb := Some ''Norrmalm'', city := Some ''Stockholm''\<rparr>),
      place_type = Some ''house'', place_class = Some ''building''\<rparr>"

subsection \<open>Properties of the name extraction\<close>

text \<open>C6: the reverse geocoder returns \<open>null\<close> or a non-empty name, never the empty string,
  whatever the reply (the contract "a place name or null" of the spec).\<close>

theorem name_never_empty: "reverseGeocodeBody r \<noteq> Some []"
  by (simp add: reverseGeocodeBody_def locationNameOf_not_empty
      split: fetch_outcome.split json_body.split)

text \<open>C23: a reply with no name, no facility and no name-like tag falls back to its street
  address: the non-empty parts (house number and street, locality, city) joined by
  \<open>", "\<close>, and there are at most three of them.\<close>

theorem address_fallback:
  assumes "address d = Some addr" "poiNameOf d = None" "mainFacilityOf d = None"
    "tagNameOf addr = None" "addressParts addr \<noteq> []"
  shows "locationNameOf d = Some (join '', '' (addressParts addr)) \<and> length (addressParts addr) \<le> 3"
proof -
  have "length (addressParts addr) \<le> 3" using addressParts_shape by blast
  moreover have "join '', '' (addressParts addr) \<noteq> []"
    using assms(5) addressParts_nonempty [of "hd (addressParts addr)" addr] by (simp add: join_nonempty)
  moreover have "contextOf addr None None = None" by (simp add: contextOf_def Let_def)
  ultimately show ?thesis using assms by (simp add: locationNameOf_def Let_def)
qed

theorem address_fallback_witness:
  "address street_reply = Some (no_address\<lparr>road := Some ''Drottninggatan'', house_number := Some ''5'',
                                  suburb := Some ''Norrmalm'', city := Some ''Stockholm''\<rparr>) \<and>
   locationNameOf street_reply = Some ''5 Drottninggatan, Norrmalm, Stockholm''"
  using address_fallback [of street_reply "no_address\<lparr>road := Some ''Drottninggatan'',
      house_number := Some ''5'', suburb := Some ''Norrmalm'', city := Some ''Stockholm''\<rparr>"]
  by (simp add: street_reply_def no_address_def name_eval)

text \<open>C30 (a defect of the code): the Swedish alternative of line 158 was saved with its
  \<open>\<aa>\<close> double-encoded, as the code units \<open>0xC3 0xA5\<close>. No name that starts with the
  Swedish word for track, \<open>sp\<aa>r\<close> (\<open>\<aa>\<close> = \<open>0xE5\<close>), in lower or upper case, is ever
  recognised as a specific location, whatever follows it, while the other Swedish word
  of the same pattern, \<open>plattform\<close>, followed by a digit always is.\<close>

theorem swedish_track_never_specific:
  "\<not> isSpecificLocation (''sp'' @ char_of (229::nat) # ''r'' @ rest) \<and>
   \<not> isSpecificLocation (''SP'' @ char_of (197::nat) # ''R'' @ rest) \<and>
   (is_digit c \<longrightarrow> isSpecificLocation (''plattform'' @ c # rest))"
  by (simp add: isSpecificLocation_def specificPatterns_def word_then_def ci_prefix_def canon_def
      swedish_track_word_def re_number_opt_lower_def digits1_def is_digit_def is_js_space_def Let_def)

theorem swedish_track_never_specific_witness:
  "\<not> isSpecificLocation (''sp'' @ char_of (229::nat) # ''r 2'') \<and>
   \<not> isSpecificLocation (''SP'' @ char_of (197::nat) # ''R 2'') \<and>
   is_digit (CHR ''2'') \<and> isSpecificLocation (''plattform'' @ CHR ''2'' # '' 2'')"
  using swedish_track_never_specific [of "'' 2''" "CHR ''2''"]
  by (simp add: is_digit_def)

text \<open>At a station the effect is visible in the name: \<open>Track 2\<close> gets the station as
  context, \<open>sp\<aa>r 2\<close> stays bare, and only the double-encoded spelling is recognised.\<close>

lemma swedish_track_unrecognised:
  "locationNameOf (station_reply ''Track 2'') = Some ''Stockholm Centralstation, Track 2'' \<and>
   locationNameOf (station_reply [CHR ''s'', CHR ''p'', char_of (229::nat), CHR ''r'', CHR '' '', CHR ''2'']) =
     Some [CHR ''s'', CHR ''p'', char_of (229::nat), CHR ''r'', CHR '' '', CHR ''2''] \<and>
   locationNameOf (station_reply (swedish_track_word @ '' 2'')) =
     Some (''Stockholm Centralstation, '' @ swedish_track_word @ '' 2'')"
  by (simp add: station_reply_def no_address_def name_eval)

end
