(* ===== verification/NearbyMerge.thy ===== *)
theory NearbyMerge
  imports Location
begin

text \<open>
  \<open>mergeNearbyVisitClusters\<close> (\<open>src/src/store/locationEnhancer.js\<close>, lines 448--516). The
  pipeline does not call it (line 116 is commented out); it is exported through
  \<open>_internal\<close> for tests. The outer \<open>for\<close> loop is a fold over the indices with the output
  list and the set \<open>processed\<close>. The inner \<open>for\<close> loop, which collects the later unprocessed
  visits whose centre lies within the radius, is a filter over the later indices. The
  distance is a parameter, as in discovery. Lemmas: every input point index reaches the
  output exactly as often as it occurs in the input (a multiset equation), and the output
  has at most as many clusters as the input.
\<close>

definition centre :: "cluster \<Rightarrow> coord" where
  "centre c = (the (centerLat c), the (centerLon c))"

text \<open>Lines 461--474: the visit itself and every later unprocessed visit within
  \<open>mergeRadius\<close> of its centre.\<close>

definition nearbyVisits :: "dist_fn \<Rightarrow> real \<Rightarrow> cluster list \<Rightarrow> nat set \<Rightarrow> nat \<Rightarrow> nat list" where
  "nearbyVisits distance mergeRadius clusters processed i =
     i # filter (\<lambda>j. j \<notin> processed \<and> ctype (clusters ! j) = Visit \<and>
                     distance (centre (clusters ! i)) (centre (clusters ! j)) \<le> mergeRadius)
            [Suc i..<length clusters]"

text \<open>Lines 476--497: the merged visit. \<open>Math.min\<close>/\<open>Math.max\<close> from \<open>Infinity\<close> and
  \<open>-Infinity\<close> over a non-empty list are the fold from its first element.\<close>

definition mergedVisit :: "cluster list \<Rightarrow> nat list \<Rightarrow> cluster" where
  "mergedVisit clusters toMerge =
     \<lparr>ctype = Visit,
      pointIndices = concat (map (\<lambda>k. pointIndices (clusters ! k)) toMerge),
      startTime = fold min (map (\<lambda>k. startTime (clusters ! k)) (tl toMerge)) (startTime (clusters ! hd toMerge)),
      endTime = fold max (map (\<lambda>k. endTime (clusters ! k)) (tl toMerge)) (endTime (clusters ! hd toMerge)),
      centerLat = centerLat (clusters ! hd toMerge), centerLon = centerLon (clusters ! hd toMerge),
      travelStartTime = None, travelEndTime = None\<rparr>"

text \<open>One iteration of the outer loop (lines 455--512).\<close>

definition nearbyStep ::
  "dist_fn \<Rightarrow> real \<Rightarrow> cluster list \<Rightarrow> cluster list \<times> nat set \<Rightarrow> nat \<Rightarrow> cluster list \<times> nat set" where
  "nearbyStep distance mergeRadius clusters st i =
     (let (mergedClusters, processed) = st
      in if i \<in> processed then (mergedClusters, processed)
         else if ctype (clusters ! i) = Visit then
           (let toMerge = nearbyVisits distance mergeRadius clusters processed i
            in if 1 < length toMerge
               then (mergedClusters @ [mergedVisit clusters toMerge], processed \<union> set toMerge)
               else (mergedClusters @ [clusters ! i], insert i processed))
         else (mergedClusters @ [clusters ! i], insert i processed))"

definition mergeNearbyVisitClusters :: "dist_fn \<Rightarrow> real \<Rightarrow> cluster list \<Rightarrow> cluster list" where
  "mergeNearbyVisitClusters distance mergeRadius clusters =
     (if length clusters \<le> 1 then clusters
      else fst (foldl (nearbyStep distance mergeRadius clusters) ([], {}) [0..<length clusters]))"

subsection \<open>Lemmas\<close>

definition indices_of :: "cluster list \<Rightarrow> nat multiset" where
  "indices_of cs = mset (concat (map pointIndices cs))"

text \<open>The loop invariant: the output holds the indices of exactly the processed clusters,
  and there is at most one output cluster per processed cluster.\<close>

definition nearby_inv :: "cluster list \<Rightarrow> cluster list \<times> nat set \<Rightarrow> bool" where
  "nearby_inv clusters st \<longleftrightarrow>
     snd st \<subseteq> {..<length clusters} \<and>
     indices_of (fst st) = (\<Sum>k\<in>snd st. mset (pointIndices (clusters ! k))) \<and>
     length (fst st) \<le> card (snd st)"

lemma nearbyVisits_props:
  assumes "i \<notin> processed" "i < length clusters"
  shows "distinct (nearbyVisits d r clusters processed i)"
    and "set (nearbyVisits d r clusters processed i) \<inter> processed = {}"
    and "set (nearbyVisits d r clusters processed i) \<subseteq> {..<length clusters}"
    and "hd (nearbyVisits d r clusters processed i) = i"
  using assms by (auto simp: nearbyVisits_def)

lemma sum_mset_concat:
  "distinct ks \<Longrightarrow> (\<Sum>k\<in>set ks. mset (f k)) = mset (concat (map f ks))"
  by (induction ks) auto

lemma nearby_inv_step:
  assumes inv: "nearby_inv clusters st" and i: "i < length clusters"
  shows "nearby_inv clusters (nearbyStep d r clusters st i)"
proof -
  obtain out processed where st: "st = (out, processed)" by fastforce
  have fin: "finite processed" using inv st finite_subset by (auto simp: nearby_inv_def)
  show ?thesis
  proof (cases "i \<in> processed")
    case True
    then show ?thesis using inv by (simp add: nearbyStep_def st)
  next
    case False
    let ?ks = "nearbyVisits d r clusters processed i"
    note ks = nearbyVisits_props [OF False i, of d r]
    have add1: "nearby_inv clusters (out @ [clusters ! i], insert i processed)"
      using inv False fin i by (simp add: nearby_inv_def st indices_of_def)
    have "nearby_inv clusters (out @ [mergedVisit clusters ?ks], processed \<union> set ?ks)"
      if "1 < length ?ks"
    proof -
      have "(\<Sum>k\<in>processed \<union> set ?ks. mset (pointIndices (clusters ! k))) =
            (\<Sum>k\<in>processed. mset (pointIndices (clusters ! k))) + mset (concat (map (\<lambda>k. pointIndices (clusters ! k)) ?ks))"
      proof -
        have "processed \<inter> set ?ks = {}" using ks(2) by blast
        then show ?thesis
          by (simp only: sum.union_disjoint [OF fin finite_set] sum_mset_concat [OF ks(1)])
      qed
      moreover have "card processed + 1 \<le> card (processed \<union> set ?ks)"
      proof -
        have "i \<in> set ?ks" by (simp add: nearbyVisits_def)
        then have "processed \<subset> processed \<union> set ?ks" using False by blast
        then show ?thesis using fin by (simp add: psubset_card_mono Suc_le_eq)
      qed
      ultimately show ?thesis
        using inv ks(3) by (auto simp: nearby_inv_def st indices_of_def mergedVisit_def)
    qed
    then show ?thesis using add1 False by (simp add: nearbyStep_def st Let_def)
  qed
qed

lemma nearby_inv_fold:
  "set is \<subseteq> {..<length clusters} \<Longrightarrow> nearby_inv clusters st \<Longrightarrow>
   nearby_inv clusters (foldl (nearbyStep d r clusters) st is) \<and>
   set is \<union> snd st \<subseteq> snd (foldl (nearbyStep d r clusters) st is)"
proof (induction "is" arbitrary: st)
  case (Cons i "is")
  have "nearby_inv clusters (nearbyStep d r clusters st i)"
    using Cons.prems by (intro nearby_inv_step) auto
  moreover have "insert i (snd st) \<subseteq> snd (nearbyStep d r clusters st i)"
    by (auto simp: nearbyStep_def Let_def nearbyVisits_def split: prod.split)
  ultimately show ?case using Cons.IH [of "nearbyStep d r clusters st i"] Cons.prems by auto
qed simp

theorem mergeNearby_indices:
  "indices_of (mergeNearbyVisitClusters d r clusters) = indices_of clusters \<and>
   length (mergeNearbyVisitClusters d r clusters) \<le> length clusters"
proof (cases "length clusters \<le> 1")
  case False
  let ?st = "foldl (nearbyStep d r clusters) ([], {}) [0..<length clusters]"
  have init: "nearby_inv clusters ([], {})" by (simp add: nearby_inv_def indices_of_def)
  have sub: "set [0..<length clusters] \<subseteq> {..<length clusters}" by auto
  from nearby_inv_fold [OF sub init, of d r]
  have inv: "nearby_inv clusters ?st" and ge: "{..<length clusters} \<subseteq> snd ?st"
    by (simp_all add: atLeast0LessThan)
  then have all: "snd ?st = {..<length clusters}" by (auto simp: nearby_inv_def)
  have "map (\<lambda>k. pointIndices (clusters ! k)) [0..<length clusters] = map pointIndices clusters"
    by (rule nth_equalityI) simp_all
  then have "(\<Sum>k\<in>{..<length clusters}. mset (pointIndices (clusters ! k))) = indices_of clusters"
    using sum_mset_concat [of "[0..<length clusters]" "\<lambda>k. pointIndices (clusters ! k)"]
    by (simp add: indices_of_def atLeast0LessThan [symmetric])
  moreover from inv have "indices_of (fst ?st) = (\<Sum>k\<in>snd ?st. mset (pointIndices (clusters ! k)))"
    and "length (fst ?st) \<le> card (snd ?st)"
    unfolding nearby_inv_def by blast+
  ultimately have "indices_of (fst ?st) = indices_of clusters \<and> length (fst ?st) \<le> length clusters"
    unfolding all card_lessThan by simp
  moreover have "mergeNearbyVisitClusters d r clusters = fst ?st"
    unfolding mergeNearbyVisitClusters_def by (rule if_not_P [OF False])
  ultimately show ?thesis by simp
qed (simp add: mergeNearbyVisitClusters_def)

end
