(* ===== verification/GeoLoop.thy ===== *)
theory GeoLoop
  imports GeoQueue
begin

text \<open>
  Termination of one processing run of \<open>processRequestQueue\<close> (\<open>src/src/geocoding.js\<close>,
  lines 432--559) while calls keep arriving. Calls made during a run append to the queue that
  the run is draining, so the length of the queue is no variant: only the cap
  \<open>processedCount < maxProcessingAttempts\<close> of line 446 bounds the run. The variant
  \<open>run_rank\<close> counts the loop events still possible: two per iteration left (the end of the
  rate-limit sleep, then the answer or the timeout of the fetch). Every loop event of a run
  decreases it, and every other event (a call, a 30 s timer, a late answer, clearing the
  cache) leaves it unchanged. A run therefore sees at most \<open>2 * maxProcessingAttempts + 2\<close>
  loop events, however many calls arrive meanwhile.
\<close>

definition run_rank :: "geo_state \<Rightarrow> nat" where
  "run_rank s =
     (case phase s of
        Idle \<Rightarrow> 0
      | Fetching r \<Rightarrow> 2 * (maxProcessingAttempts - processedCount s) + 1
      | Sleeping r wake \<Rightarrow> 2 * (maxProcessingAttempts - processedCount s) + 2)"

text \<open>The events that resume the loop after an \<open>await\<close>.\<close>

fun loop_event :: "geo_event \<Rightarrow> bool" where
  "loop_event (WakeUp now) = True"
| "loop_event (FetchDone result now) = True"
| "loop_event (FetchTimeout now) = True"
| "loop_event _ = False"

subsection \<open>The variant\<close>

lemma run_rank_le: "run_rank s \<le> 2 * (maxProcessingAttempts - processedCount s) + 2"
  by (simp add: run_rank_def split: phase.split)

lemma run_rank_cong:
  "phase s' = phase s \<Longrightarrow> processedCount s' = processedCount s \<Longrightarrow> run_rank s' = run_rank s"
  by (simp add: run_rank_def split: phase.split)

text \<open>Each iteration of the loop takes one request and counts it, so a run of the loop that
  is still suspended afterwards has counted more, and never more than the cap.\<close>

lemma advance_counts:
  "phase (advance now s) = Idle \<or>
   processedCount s < processedCount (advance now s) \<and>
   processedCount (advance now s) \<le> maxProcessingAttempts"
proof (induction s rule: advance_induct)
  case (stop s)
  then show ?case by (simp add: advance_stop)
next
  case (hit s q0 qs result)
  then show ?case unfolding advance_hit [OF hit(1-3)] by (auto simp: resolveAll_def)
next
  case (miss s q0 qs)
  then show ?case by (simp add: advance_miss Let_def startFetch_def)
qed

lemma run_rank_advance:
  "run_rank (advance now s) < 2 * (maxProcessingAttempts - processedCount s) + 1"
  using advance_counts [of now s] run_rank_le
  by (auto simp: run_rank_def split: phase.split)

lemma run_rank_Fetching: "phase s = Fetching r \<Longrightarrow> run_rank s = 2 * (maxProcessingAttempts - processedCount s) + 1"
  by (simp add: run_rank_def)

lemma run_rank_Sleeping: "phase s = Sleeping r wake \<Longrightarrow> run_rank s = 2 * (maxProcessingAttempts - processedCount s) + 2"
  by (simp add: run_rank_def)

lemma call_running_frame:
  assumes "isProcessingQueue s"
  shows "phase (reverseGeocodeWithRateLimit cb lat lon now s) = phase s \<and>
         processedCount (reverseGeocodeWithRateLimit cb lat lon now s) = processedCount s"
  using assms
  by (simp add: reverseGeocodeWithRateLimit_def enqueueRequest_def processRequestQueue_def Let_def
           split: option.split)

lemma geo_step_rank:
  assumes "geo_inv s" "phase s \<noteq> Idle" "geo_step s e = Some s'"
  shows "run_rank s' + (if loop_event e then 1 else 0) \<le> run_rank s"
  using assms
proof (induction s e rule: geo_step.induct)
  case (1 s cb lat lon now)
  then have "isProcessingQueue s"
    by (simp add: geo_inv_def core_inv_def run_ok_def)
  moreover have "s' = reverseGeocodeWithRateLimit cb lat lon now (s\<lparr>issued := issued s @ [cb], clock := now\<rparr>)"
    using "1.prems"(3) by (rule geo_step_CallE)
  ultimately have "run_rank s' = run_rank s"
    using call_running_frame [of "s\<lparr>issued := issued s @ [cb], clock := now\<rparr>" cb lat lon now]
    by (intro run_rank_cong) simp_all
  then show ?case by simp
next
  case (2 s cb now)
  then have "s' = settle cb (Rejected GeocodingRequestTimeout) (s\<lparr>clock := now\<rparr>)"
    by (simp split: option.splits if_splits)
  then have "run_rank s' = run_rank s" by (intro run_rank_cong) simp_all
  then show ?case by simp
next
  case (3 s now)
  from "3.prems"(3) obtain r wake where ph: "phase s = Sleeping r wake" "clock s \<le> now" "wake \<le> now"
    and s': "s' = startFetch now r (s\<lparr>clock := now\<rparr>)"
    by (rule geo_step_WakeUpE)
  have "phase s' = Fetching r" "processedCount s' = processedCount s" by (simp_all add: s' startFetch_def)
  then show ?case by (simp add: run_rank_Fetching run_rank_Sleeping [OF ph(1)])
next
  case (4 s result now)
  from "4.prems"(3) obtain r where ph: "phase s = Fetching r" "clock s \<le> now" "now \<le> lastRequestTime s + 15000"
    and s': "s' = fetchDone result now r (s\<lparr>clock := now\<rparr>)"
    by (rule geo_step_FetchDoneE)
  let ?s1 = "resolveAll (callbacks r) result
      (s\<lparr>clock := now, geocodingCache := AList.update (cacheKey r) result (geocodingCache s),
         consecutiveErrors := 0\<rparr>)"
  have "processedCount ?s1 = processedCount s" by (simp add: resolveAll_def)
  then have "run_rank s' < 2 * (maxProcessingAttempts - processedCount s) + 1"
    using run_rank_advance [of now ?s1] by (simp add: s' fetchDone_def)
  then show ?case by (simp add: run_rank_Fetching [OF ph(1)])
next
  case (5 s now)
  from "5.prems"(3) obtain r where ph: "phase s = Fetching r" "clock s \<le> now" "lastRequestTime s + 15000 \<le> now"
    and s': "s' = fetchTimeout now r (s\<lparr>clock := now\<rparr>)"
    by (rule geo_step_FetchTimeoutE)
  let ?s1 = "s\<lparr>clock := now, consecutiveErrors := Suc (consecutiveErrors s), lastErrorTime := now,
               orphans := orphans s @ [cacheKey r]\<rparr>"
  have "processedCount (rejectAll (callbacks r) RequestTimeout ?s1) = processedCount s"
    by (simp add: rejectAll_def)
  then have "run_rank (advance now (rejectAll (callbacks r) RequestTimeout ?s1)) <
             2 * (maxProcessingAttempts - processedCount s) + 1"
    using run_rank_advance [of now "rejectAll (callbacks r) RequestTimeout ?s1"] by simp
  moreover have "run_rank (finishRun s'') = 0" for s'' by (simp add: run_rank_def)
  ultimately have "run_rank s' < 2 * (maxProcessingAttempts - processedCount s) + 1"
    by (simp add: s' fetchTimeout_def Let_def)
  then show ?case by (simp add: run_rank_Fetching [OF ph(1)])
next
  case (6 s key result)
  then have "s' = orphanDone key result s" by (simp split: if_splits)
  then have "run_rank s' = run_rank s" by (intro run_rank_cong) (simp_all add: orphanDone_def)
  then show ?case by simp
next
  case (7 s)
  then have "s' = clearGeoccodingCache s" by simp
  then have "run_rank s' = run_rank s" by (intro run_rank_cong) (simp_all add: clearGeoccodingCache_def)
  then show ?case by simp
qed

lemma geo_run_rank:
  assumes "geo_reachable s" "geo_run s es = Some s'"
    "\<forall>k<length es. phase (the (geo_run s (take k es))) \<noteq> Idle"
  shows "length (filter loop_event es) + run_rank s' \<le> run_rank s"
  using assms
proof (induction es arbitrary: s)
  case (Cons e es)
  from Cons.prems(2) obtain s1 where s1: "geo_step s e = Some s1" "geo_run s1 es = Some s'"
    by (cases "geo_step s e") auto
  have r1: "geo_reachable s1" by (rule geo_reachable.step [OF Cons.prems(1) s1(1)])
  have "phase s \<noteq> Idle" using Cons.prems(3) [rule_format, of 0] by simp
  then have step: "run_rank s1 + (if loop_event e then 1 else 0) \<le> run_rank s"
    using geo_step_rank [OF geo_reachable_inv [OF Cons.prems(1)] _ s1(1)] by blast
  have "\<forall>k<length es. phase (the (geo_run s1 (take k es))) \<noteq> Idle"
  proof (intro allI impI)
    fix k assume "k < length es"
    then have "phase (the (geo_run s (take (Suc k) (e # es)))) \<noteq> Idle"
      using Cons.prems(3) [rule_format, of "Suc k"] by simp
    then show "phase (the (geo_run s1 (take k es))) \<noteq> Idle" using s1(1) by simp
  qed
  from Cons.IH [OF r1 s1(2) this] step show ?case by (simp split: if_splits)
qed simp

subsection \<open>A concrete run\<close>

text \<open>A call at time 1000 starts a fetch; a second call arrives during it; both fetches
  answer, and the run ends.\<close>

definition run_trace :: "geo_event list" where
  "run_trace = [Call 2 1 1 1200, FetchDone None 2000, FetchDone None 2600]"

lemma first_call_reachable: "geo_reachable (the (geo_run (geo_init 0) [Call 1 0 0 1000]))"
proof -
  have i: "geo_reachable (geo_init 0)" by (rule geo_reachable.init) simp
  show ?thesis by (rule geo_run_reachable [OF i, of "[Call 1 0 0 1000]"]) (simp add: geo_eval)
qed

subsection \<open>Termination of a processing run\<close>

text \<open>C12: termination. A processing run cannot go on forever, even while calls keep
  arriving: along any sequence of events from a reachable state during which the loop stays
  suspended in its sleep or its fetch, at most \<open>2 * maxProcessingAttempts + 2\<close> events
  resume the loop (ends of the rate-limit sleep, fetch answers, fetch timeouts).\<close>

theorem processing_run_bounded:
  assumes "geo_reachable s" "geo_run s es = Some s'"
    "\<forall>k<length es. phase (the (geo_run s (take k es))) \<noteq> Idle"
  shows "length (filter loop_event es) \<le> 2 * maxProcessingAttempts + 2"
  using geo_run_rank [OF assms] run_rank_le [of s] by linarith

theorem processing_run_bounded_witness:
  "length (filter loop_event run_trace) = 2 \<and>
   phase (the (geo_run (the (geo_run (geo_init 0) [Call 1 0 0 1000])) run_trace)) = Idle \<and>
   length (filter loop_event run_trace) \<le> 2 * maxProcessingAttempts + 2"
  using processing_run_bounded [OF first_call_reachable, of run_trace]
  by (simp add: run_trace_def geo_eval less_Suc_eq numeral_3_eq_3)

end
