(* ===== verification/GeoLegacy.thy ===== *)
theory GeoLegacy
  imports GeoQueue
begin

text \<open>
  \<open>legacyReverseGeocodeWithRateLimit\<close> (\<open>src/src/geocoding.js\<close>, lines 566--580). The
  module neither exports nor calls it; its comment calls it a legacy function "not rate
  limited". It shares the module variables \<open>lastRequestTime\<close> and \<open>geocodingCache\<close> with
  the queue of \<open>GeoQueue\<close>. A call reads \<open>Date.now()\<close>, sleeps until
  \<open>MIN_REQUEST_INTERVAL\<close> after the last request if that time has not come yet, sets
  \<open>lastRequestTime\<close>, and calls \<open>originalReverseGeocode\<close>. That function answers from
  the cache (lines 17--24) or fetches and caches its result (lines 52 and 315); the
  result of a fetch is chosen by the environment, as for the queue's fetches.
  \<^item> \<open>legacy_state\<close> pairs the module state \<open>geo_state\<close> with the legacy calls suspended in
    the sleep (\<open>sleepers\<close>: callback, coordinates, wake-up time) and in the fetch
    (\<open>inflight\<close>).
  \<^item> \<open>legacy_step\<close> runs the legacy calls' events and lifts \<open>geo_step\<close> for the queue's
    events, so that the two users of \<open>lastRequestTime\<close> interleave.
  Lemmas: a call made while no other legacy call is pending fetches no earlier than
  \<open>MIN_REQUEST_INTERVAL\<close> after the previous request; two calls made at the same instant
  both sleep until the same time and fetch together.
\<close>

record legacy_state =
  world :: geo_state
  sleepers :: "(nat \<times> real \<times> real \<times> int) list"
  inflight :: "(nat \<times> real \<times> real) list"

text \<open>Lines 578--579 and lines 17--24 of \<open>reverseGeocode\<close>: record the request time, then
  answer from the cache or start the fetch.\<close>

definition legacyFetch :: "nat \<Rightarrow> real \<Rightarrow> real \<Rightarrow> int \<Rightarrow> legacy_state \<Rightarrow> legacy_state" where
  "legacyFetch cb lat lon now ls =
     (let s = (world ls)\<lparr>lastRequestTime := now\<rparr>
      in case map_of (geocodingCache s) (cacheKeyOf lat lon) of
           Some cached \<Rightarrow> ls\<lparr>world := settle cb (Resolved cached) s\<rparr>
         | None \<Rightarrow> ls\<lparr>world := s\<lparr>fetchLog := fetchLog s @ [now]\<rparr>, inflight := inflight ls @ [(cb, lat, lon)]\<rparr>)"

text \<open>Lines 567--576: the call, up to the \<open>await\<close> of the sleep.\<close>

definition legacyReverseGeocodeWithRateLimit ::
  "nat \<Rightarrow> real \<Rightarrow> real \<Rightarrow> int \<Rightarrow> legacy_state \<Rightarrow> legacy_state" where
  "legacyReverseGeocodeWithRateLimit cb lat lon now ls =
     (let timeSinceLastRequest = now - lastRequestTime (world ls)
      in if timeSinceLastRequest < MIN_REQUEST_INTERVAL
         then ls\<lparr>sleepers := sleepers ls @
                   [(cb, lat, lon, now + (MIN_REQUEST_INTERVAL - timeSinceLastRequest))]\<rparr>
         else legacyFetch cb lat lon now ls)"

text \<open>The end of the sleep (line 575): the call goes on at line 578.\<close>

definition legacyWake :: "nat \<Rightarrow> int \<Rightarrow> legacy_state \<Rightarrow> legacy_state option" where
  "legacyWake cb now ls =
     (case find (\<lambda>(c, _). c = cb) (sleepers ls) of
        Some (c, lat, lon, wake) \<Rightarrow>
          if wake \<le> now
          then Some (legacyFetch cb lat lon now (ls\<lparr>sleepers := remove1 (c, lat, lon, wake) (sleepers ls)\<rparr>))
          else None
      | None \<Rightarrow> None)"

text \<open>The end of the fetch: \<open>reverseGeocode\<close> caches its result and the call returns it.\<close>

definition legacyAnswer :: "nat \<Rightarrow> string option \<Rightarrow> legacy_state \<Rightarrow> legacy_state option" where
  "legacyAnswer cb result ls =
     (case find (\<lambda>(c, _). c = cb) (inflight ls) of
        Some (c, lat, lon) \<Rightarrow>
          Some (ls\<lparr>world := settle cb (Resolved result)
                             ((world ls)\<lparr>geocodingCache := AList.update (cacheKeyOf lat lon) result
                                                              (geocodingCache (world ls))\<rparr>),
                   inflight := remove1 (c, lat, lon) (inflight ls)\<rparr>)
      | None \<Rightarrow> None)"

datatype legacy_event =
    LegacyCall nat real real int
  | LegacyWake nat int
  | LegacyAnswer nat "string option"
  | QueueEvent geo_event

fun legacy_step :: "legacy_state \<Rightarrow> legacy_event \<Rightarrow> legacy_state option" where
  "legacy_step ls (LegacyCall cb lat lon now) =
     (if clock (world ls) \<le> now \<and> cb \<notin> set (issued (world ls))
      then Some (legacyReverseGeocodeWithRateLimit cb lat lon now
                   (ls\<lparr>world := (world ls)\<lparr>issued := issued (world ls) @ [cb], clock := now\<rparr>\<rparr>))
      else None)"
| "legacy_step ls (LegacyWake cb now) =
     (if clock (world ls) \<le> now then legacyWake cb now (ls\<lparr>world := (world ls)\<lparr>clock := now\<rparr>\<rparr>) else None)"
| "legacy_step ls (LegacyAnswer cb result) = legacyAnswer cb result ls"
| "legacy_step ls (QueueEvent e) = map_option (\<lambda>s. ls\<lparr>world := s\<rparr>) (geo_step (world ls) e)"

fun legacy_run :: "legacy_state \<Rightarrow> legacy_event list \<Rightarrow> legacy_state option" where
  "legacy_run ls [] = Some ls"
| "legacy_run ls (e # es) = Option.bind (legacy_step ls e) (\<lambda>ls'. legacy_run ls' es)"

definition legacy_init :: "int \<Rightarrow> legacy_state" where
  "legacy_init t = \<lparr>world = geo_init t, sleepers = [], inflight = []\<rparr>"

subsection \<open>Lemmas\<close>

lemma find_first_key:
  "c \<notin> fst ` set xs \<Longrightarrow> find (\<lambda>(c', _). c' = c) (xs @ (c, v) # ys) = Some (c, v)"
  by (induction xs) auto

lemma remove1_first_key:
  "c \<notin> fst ` set xs \<Longrightarrow> remove1 (c, v) (xs @ (c, v) # ys) = xs @ ys"
  by (induction xs) auto

text \<open>The wait of lines 571--576 ends exactly \<open>MIN_REQUEST_INTERVAL\<close> after the last request:
  a call either goes on at once, at least that long after it, or sleeps until then.\<close>

lemma legacy_call_waits:
  "(lastRequestTime (world ls) + MIN_REQUEST_INTERVAL \<le> now \<and>
    legacyReverseGeocodeWithRateLimit cb lat lon now ls = legacyFetch cb lat lon now ls) \<or>
   (now < lastRequestTime (world ls) + MIN_REQUEST_INTERVAL \<and>
    legacyReverseGeocodeWithRateLimit cb lat lon now ls =
      ls\<lparr>sleepers := sleepers ls @ [(cb, lat, lon, lastRequestTime (world ls) + MIN_REQUEST_INTERVAL)]\<rparr>)"
  by (auto simp: legacyReverseGeocodeWithRateLimit_def Let_def)

lemma legacyFetch_log:
  "fetchLog (world (legacyFetch cb lat lon now ls)) =
     fetchLog (world ls) @ (if map_of (geocodingCache (world ls)) (cacheKeyOf lat lon) = None then [now] else []) \<and>
   lastRequestTime (world (legacyFetch cb lat lon now ls)) = now \<and>
   geocodingCache (world (legacyFetch cb lat lon now ls)) = geocodingCache (world ls) \<and>
   sleepers (legacyFetch cb lat lon now ls) = sleepers ls"
  by (simp add: legacyFetch_def Let_def split: option.split)

text \<open>The queue's spacing (\<open>GeoQueue.requests_spaced\<close>) relies on the queue being the only
  user of \<open>lastRequestTime\<close>. With the legacy function in use it fails: a legacy fetch at
  1000 puts both the queue's loop and a second legacy call to sleep until 1500, and both
  then fetch at 1500.\<close>

lemma queue_and_legacy_collide:
  "\<exists>ls'. legacy_run (legacy_init 0)
           [LegacyCall 1 0 0 1000, QueueEvent (Call 2 1 1 1000), LegacyCall 3 2 2 1200,
            QueueEvent (WakeUp 1500), LegacyWake 3 1500] = Some ls' \<and>
         fetchLog (world ls') = [1000, 1500, 1500]"
  by (simp add: legacy_init_def geo_eval legacyReverseGeocodeWithRateLimit_def legacyWake_def
                legacyFetch_def)

subsection \<open>Concurrent legacy calls\<close>

text \<open>C20 (a defect of the code): the legacy function spaces only calls that are made one
  after another. Two calls made at the same instant, less than \<open>MIN_REQUEST_INTERVAL\<close>
  after the last request and for uncached places, both compute the same wake-up time
  \<open>lastRequestTime + MIN_REQUEST_INTERVAL\<close>; when their sleeps end, both send their
  request to Nominatim at that same instant.\<close>

theorem legacy_concurrent_unspaced:
  assumes "clock (world ls) \<le> now" "now < lastRequestTime (world ls) + MIN_REQUEST_INTERVAL"
    "cb1 \<notin> set (issued (world ls))" "cb2 \<notin> set (issued (world ls))" "cb1 \<noteq> cb2"
    "cb1 \<notin> fst ` set (sleepers ls)" "cb2 \<notin> fst ` set (sleepers ls)"
    "map_of (geocodingCache (world ls)) (cacheKeyOf la1 lo1) = None"
    "map_of (geocodingCache (world ls)) (cacheKeyOf la2 lo2) = None"
  shows "\<exists>ls'. legacy_run ls [LegacyCall cb1 la1 lo1 now, LegacyCall cb2 la2 lo2 now,
                            LegacyWake cb1 (lastRequestTime (world ls) + MIN_REQUEST_INTERVAL),
                            LegacyWake cb2 (lastRequestTime (world ls) + MIN_REQUEST_INTERVAL)] = Some ls' \<and>
           fetchLog (world ls') = fetchLog (world ls) @
             [lastRequestTime (world ls) + MIN_REQUEST_INTERVAL, lastRequestTime (world ls) + MIN_REQUEST_INTERVAL]"
proof -
  let ?w = "lastRequestTime (world ls) + MIN_REQUEST_INTERVAL"
  let ?a1 = "(cb1, la1, lo1, ?w)" and ?a2 = "(cb2, la2, lo2, ?w)"
  have wake: "now + (MIN_REQUEST_INTERVAL - (now - lastRequestTime (world ls))) = ?w" by simp
  have f1: "find (\<lambda>(c, _). c = cb1) (sleepers ls @ [?a1, ?a2]) = Some ?a1"
    and r1: "remove1 ?a1 (sleepers ls @ [?a1, ?a2]) = sleepers ls @ [?a2]"
    using find_first_key [OF assms(6)] remove1_first_key [OF assms(6)] by simp_all
  have f2: "find (\<lambda>(c, _). c = cb2) (sleepers ls @ [?a2]) = Some ?a2"
    and r2: "remove1 ?a2 (sleepers ls @ [?a2]) = sleepers ls"
    using find_first_key [OF assms(7), of _ "[]"] remove1_first_key [OF assms(7), of _ "[]"] by simp_all
  show ?thesis
    using assms
    by (simp add: legacyReverseGeocodeWithRateLimit_def legacyWake_def legacyFetch_def Let_def wake
                  f1 r1 f2 r2)
qed

theorem legacy_concurrent_unspaced_witness:
  "\<exists>ls'. legacy_run (legacy_init 0) [LegacyCall 1 0 0 100, LegacyCall 2 1 1 100,
                                    LegacyWake 1 500, LegacyWake 2 500] = Some ls' \<and>
         fetchLog (world ls') = [500, 500]"
  using legacy_concurrent_unspaced [of "legacy_init 0" 100 1 2 0 0 1 1]
  by (simp add: legacy_init_def geo_init_def MIN_REQUEST_INTERVAL_def)

end
