(* ===== verification/GeoOrder.thy ===== *)
theory GeoOrder
  imports GeoQueue
begin

text \<open>
  The order in which queued requests reach Nominatim. New requests are appended with
  \<open>requestQueue.push\<close> (line 410) and taken from the front with \<open>requestQueue.shift()\<close>
  (line 447), so the queue is first-in first-out. The keys still pending are those of the
  request in the rate-limit sleep, then those of the queue (\<open>pendingKeys\<close>). The invariant
  \<open>fifo_ok\<close> says that they are the most recently pushed keys, and that the keys fetched so
  far are, in order, a subsequence of the keys pushed before them. Requests leave the
  pending part only at its front: fetched, answered from the cache, or rejected with the
  whole queue.
\<close>

fun sleeping_key :: "phase \<Rightarrow> cache_key list" where
  "sleeping_key (Sleeping r wake) = [cacheKey r]"
| "sleeping_key _ = []"

definition pendingKeys :: "geo_state \<Rightarrow> cache_key list" where
  "pendingKeys s = sleeping_key (phase s) @ map cacheKey (requestQueue s)"

definition fifo_ok :: "geo_state \<Rightarrow> bool" where
  "fifo_ok s \<longleftrightarrow> suffix (pendingKeys s) (queuedKeys s) \<and>
     subseq (fetchedKeys s) (take (length (queuedKeys s) - length (pendingKeys s)) (queuedKeys s))"

subsection \<open>The invariant under the four ways the pending keys change\<close>

lemma fifo_ok_iff: "fifo_ok s \<longleftrightarrow> (\<exists>A. queuedKeys s = A @ pendingKeys s \<and> subseq (fetchedKeys s) A)"
  by (auto simp: fifo_ok_def suffix_def)

lemma fifo_same:
  "pendingKeys s' = pendingKeys s \<Longrightarrow> queuedKeys s' = queuedKeys s \<Longrightarrow> fetchedKeys s' = fetchedKeys s \<Longrightarrow>
   fifo_ok s \<Longrightarrow> fifo_ok s'"
  by (simp add: fifo_ok_def)

lemma fifo_clear:
  "pendingKeys s' = [] \<Longrightarrow> queuedKeys s' = queuedKeys s \<Longrightarrow> fetchedKeys s' = fetchedKeys s \<Longrightarrow>
   fifo_ok s \<Longrightarrow> fifo_ok s'"
  unfolding fifo_ok_iff by (auto intro: subseq_rev_drop_many)

lemma fifo_take:
  assumes "pendingKeys s = k # rest" "pendingKeys s' = rest" "queuedKeys s' = queuedKeys s"
    "fetchedKeys s' = fetchedKeys s \<or> fetchedKeys s' = fetchedKeys s @ [k]" "fifo_ok s"
  shows "fifo_ok s'"
proof -
  obtain A where A: "queuedKeys s = A @ k # rest" "subseq (fetchedKeys s) A"
    using assms(1,5) unfolding fifo_ok_iff by auto
  have "subseq (fetchedKeys s') (A @ [k])"
    using assms(4) A(2) by (auto intro: subseq_rev_drop_many simp: subseq_append)
  then show ?thesis using A(1) assms(2,3) unfolding fifo_ok_iff by (intro exI [of _ "A @ [k]"]) simp
qed

lemma fifo_push:
  "pendingKeys s' = pendingKeys s @ [k] \<Longrightarrow> queuedKeys s' = queuedKeys s @ [k] \<Longrightarrow>
   fetchedKeys s' = fetchedKeys s \<Longrightarrow> fifo_ok s \<Longrightarrow> fifo_ok s'"
  unfolding fifo_ok_iff by auto

subsection \<open>The invariant under each operation\<close>

lemma fifo_advance:
  "sleeping_key (phase s) = [] \<Longrightarrow> fifo_ok s \<Longrightarrow> fifo_ok (advance now s)"
proof (induction s rule: advance_induct)
  case (stop s)
  have "requestQueue (finishRun s) = []"
    using stop.hyps by (auto simp: requestQueue_finishRun not_less)
  then have "pendingKeys (finishRun s) = []" by (simp add: pendingKeys_def)
  then show ?case unfolding advance_stop [OF stop.hyps]
    by (rule fifo_clear [OF _ _ _ stop.prems(2)]) simp_all
next
  case (hit s q0 qs result)
  let ?s1 = "resolveAll (callbacks q0) result (s\<lparr>requestQueue := qs, processedCount := Suc (processedCount s)\<rparr>)"
  have "fifo_ok ?s1"
    by (rule fifo_take [OF _ _ _ _ hit.prems(2)]) (simp_all add: pendingKeys_def hit.hyps(1) hit.prems(1) resolveAll_def)
  moreover have "sleeping_key (phase ?s1) = []" using hit.prems(1) by (simp add: resolveAll_def)
  ultimately show ?case using hit.IH by (simp add: advance_hit [OF hit.hyps])
next
  case (miss s q0 qs)
  show ?case
  proof (cases "now - lastRequestTime s < MIN_REQUEST_INTERVAL")
    case True
    then show ?thesis using miss
      by (simp add: advance_miss) (rule fifo_same [OF _ _ _ miss.prems(2)]; simp add: pendingKeys_def)
  next
    case False
    then show ?thesis using miss
      by (simp add: advance_miss)
         (rule fifo_take [OF _ _ _ _ miss.prems(2)]; simp add: pendingKeys_def startFetch_def)
  qed
qed

lemma fifo_enqueue:
  assumes "run_ok s" "fifo_ok s"
  shows "fifo_ok (enqueueRequest cb lat lon key now s)"
proof (cases "find (\<lambda>req. cacheKey req = key) (requestQueue s)")
  case (Some r)
  then show ?thesis
    by (simp add: enqueueRequest_def) (rule fifo_same [OF _ _ _ assms(2)]; simp add: pendingKeys_def)
next
  case None
  let ?s1 = "s\<lparr>requestQueue := requestQueue s @ [\<lparr>reqLat = lat, reqLon = lon, cacheKey = key, callbacks = [cb]\<rparr>],
                queuedKeys := queuedKeys s @ [key]\<rparr>"
  have s1: "fifo_ok ?s1" by (rule fifo_push [OF _ _ _ assms(2)]) (simp_all add: pendingKeys_def)
  have "fifo_ok (processRequestQueue now ?s1)" if "\<not> isProcessingQueue s"
  proof -
    have "phase s = Idle" using assms(1) that by (simp add: run_ok_def)
    moreover have "fifo_ok (?s1\<lparr>isProcessingQueue := True, processedCount := 0\<rparr>)"
      using s1 by (simp add: fifo_ok_def pendingKeys_def)
    ultimately show ?thesis using that by (simp add: processRequestQueue_def fifo_advance)
  qed
  moreover have "fifo_ok (settle cb (Rejected GeocodingQueueFull) s)"
    by (rule fifo_same [OF _ _ _ assms(2)]) (simp_all add: pendingKeys_def)
  ultimately show ?thesis using None s1 by (simp add: enqueueRequest_def Let_def)
qed

lemma fifo_ok_upd [simp]:
  "fifo_ok (s\<lparr>timers := t\<rparr>) = fifo_ok s" "fifo_ok (s\<lparr>issued := i, clock := c\<rparr>) = fifo_ok s"
  "fifo_ok (s\<lparr>circuitBreakerOpen := b, consecutiveErrors := n\<rparr>) = fifo_ok s"
  "fifo_ok (settle cb r s) = fifo_ok s"
  by (simp_all add: fifo_ok_def pendingKeys_def)

lemma run_ok_upd [simp]:
  "run_ok (s\<lparr>timers := t\<rparr>) = run_ok s" "run_ok (s\<lparr>issued := i, clock := c\<rparr>) = run_ok s"
  "run_ok (s\<lparr>circuitBreakerOpen := b, consecutiveErrors := n\<rparr>) = run_ok s"
  by (simp_all add: run_ok_def)

lemma fifo_call:
  assumes "run_ok s" "fifo_ok s"
  shows "fifo_ok (reverseGeocodeWithRateLimit cb lat lon now s)"
  using assms unfolding reverseGeocodeWithRateLimit_def Let_def
  by (auto split: option.split intro!: fifo_enqueue)

lemma fifo_step: "run_ok s \<Longrightarrow> fifo_ok s \<Longrightarrow> geo_step s e = Some s' \<Longrightarrow> fifo_ok s'"
proof (induction s e rule: geo_step.induct)
  case (1 s cb lat lon now)
  let ?s0 = "s\<lparr>issued := issued s @ [cb], clock := now\<rparr>"
  have "run_ok ?s0" "fifo_ok ?s0" using "1.prems"(1,2) by simp_all
  moreover have "s' = reverseGeocodeWithRateLimit cb lat lon now ?s0"
    using "1.prems"(3) by (rule geo_step_CallE)
  ultimately show ?case using fifo_call by simp
next
  case (2 s cb now)
  then show ?case
    by (auto split: option.splits if_splits intro: fifo_same simp: pendingKeys_def)
next
  case (3 s now)
  from "3.prems"(3) obtain r wake where ph: "phase s = Sleeping r wake" "clock s \<le> now" "wake \<le> now"
    and s': "s' = startFetch now r (s\<lparr>clock := now\<rparr>)"
    by (rule geo_step_WakeUpE)
  show ?case unfolding s'
    by (rule fifo_take [OF _ _ _ _ "3.prems"(2)]) (simp_all add: pendingKeys_def ph startFetch_def)
next
  case (4 s result now)
  from "4.prems"(3) obtain r where ph: "phase s = Fetching r" "clock s \<le> now" "now \<le> lastRequestTime s + 15000"
    and s': "s' = fetchDone result now r (s\<lparr>clock := now\<rparr>)"
    by (rule geo_step_FetchDoneE)
  let ?s1 = "resolveAll (callbacks r) result
      (s\<lparr>clock := now, geocodingCache := AList.update (cacheKey r) result (geocodingCache s),
         consecutiveErrors := 0\<rparr>)"
  have "fifo_ok ?s1"
    by (rule fifo_same [OF _ _ _ "4.prems"(2)]) (simp_all add: pendingKeys_def resolveAll_def)
  then show ?case by (simp add: s' fetchDone_def fifo_advance ph resolveAll_def)
next
  case (5 s now)
  from "5.prems"(3) obtain r where ph: "phase s = Fetching r" "clock s \<le> now" "lastRequestTime s + 15000 \<le> now"
    and s': "s' = fetchTimeout now r (s\<lparr>clock := now\<rparr>)"
    by (rule geo_step_FetchTimeoutE)
  let ?s1 = "s\<lparr>clock := now, consecutiveErrors := Suc (consecutiveErrors s), lastErrorTime := now,
               orphans := orphans s @ [cacheKey r]\<rparr>"
  have f1: "fifo_ok ?s1" by (rule fifo_same [OF _ _ _ "5.prems"(2)]) (simp_all add: pendingKeys_def)
  have f2: "fifo_ok (rejectAll (callbacks r) RequestTimeout ?s1)"
    by (rule fifo_same [OF _ _ _ f1]) (simp_all add: pendingKeys_def rejectAll_def)
  have "fifo_ok (advance now (rejectAll (callbacks r) RequestTimeout ?s1))"
    by (rule fifo_advance [OF _ f2]) (simp add: ph rejectAll_def)
  moreover have "fifo_ok (finishRun ((rejectQueue CircuitBreakerIsOpen ?s1)\<lparr>circuitBreakerOpen := True\<rparr>))"
    by (rule fifo_clear [OF _ _ _ f1]) (simp_all add: pendingKeys_def rejectQueue_def requestQueue_finishRun)
  ultimately show ?case by (simp add: s' fetchTimeout_def Let_def)
next
  case (6 s key result)
  then show ?case
    by (auto split: if_splits intro: fifo_same simp: orphanDone_def pendingKeys_def)
next
  case (7 s)
  then show ?case
    by (auto intro: fifo_same simp: clearGeoccodingCache_def pendingKeys_def)
qed

lemma geo_reachable_fifo: "geo_reachable s \<Longrightarrow> fifo_ok s"
proof (induction rule: geo_reachable.induct)
  case (init t)
  then show ?case by (simp add: fifo_ok_def pendingKeys_def geo_init_def)
next
  case (step s e s')
  have "run_ok s" using geo_reachable_inv [OF step.hyps(1)] by (simp add: geo_inv_def core_inv_def)
  then show ?case using fifo_step step.IH step.hyps(2) by blast
qed

subsection \<open>Requests reach Nominatim in queue order\<close>

text \<open>C26: ordering. In every reachable state the keys fetched so far are, in order, a
  subsequence of the keys pushed onto the queue: Nominatim receives the queued requests in
  the order in which they were queued, each at most once per push.\<close>

theorem fetches_in_queue_order:
  "geo_reachable s \<Longrightarrow> subseq (fetchedKeys s) (queuedKeys s)"
  using geo_reachable_fifo [of s] unfolding fifo_ok_iff by (auto intro: subseq_rev_drop_many)

theorem fetches_in_queue_order_witness:
  "fetchedKeys (the (geo_run (geo_init 0) breaker_trace)) =
     [cacheKeyOf 0 0, cacheKeyOf 1 1, cacheKeyOf 2 2] \<and>
   subseq (fetchedKeys (the (geo_run (geo_init 0) breaker_trace)))
          (queuedKeys (the (geo_run (geo_init 0) breaker_trace)))"
  using fetches_in_queue_order [OF breaker_trace_reachable(2)]
  by (simp add: breaker_trace_def geo_eval)

end
