(* ===== verification/Enclosure.thy ===== *)
theory Enclosure
  imports Geometry
begin

text \<open>
  Rational enclosures of the distance primitive \<open>calculateDistanceInMeters\<close>, so that a
  comparison \<open>distance \<le> r\<close> on points with decimal coordinates can be decided by
  \<open>simp\<close>. The bounds come from Machin's formula for \<open>pi\<close>
  (\<open>3.1405 \<le> pi \<le> 3.1417\<close>, \<open>pi_bounds\<close>), from Taylor bounds on \<open>arctan\<close>, \<open>sin\<close> and
  \<open>cos\<close>, each proved from the sign of a derivative, and from the monotonicity of the
  cosine on the latitudes. For latitudes in \<open>[0, 90]\<close> the Haversine term \<open>a\<close> lies
  between \<open>dist_lower k\<close> and \<open>dist_upper K\<close> (\<open>haversine_a_lower\<close>,
  \<open>haversine_a_upper\<close>), where \<open>k\<close> and \<open>K\<close> bound the cosines of the latitudes.
  \<open>distance_within\<close> and \<open>distance_beyond\<close> turn these into the two answers of a
  comparison with a radius.
\<close>

text \<open>Rational bounds on the Haversine term \<open>a\<close>, computed by \<open>simp\<close> from the
  coordinates: \<open>dist_upper K\<close> bounds it from above when \<open>K\<close> bounds the cosines of
  the latitudes from above, \<open>dist_lower k\<close> from below when \<open>k\<close> bounds them from below.\<close>

definition sin_lower :: "real \<Rightarrow> real" where
  "sin_lower d = max 0 (\<bar>d\<bar> * 31405 / 3600000 - (\<bar>d\<bar> * 31417 / 3600000) ^ 3 / 6)"

definition dist_upper :: "real \<Rightarrow> coord \<Rightarrow> coord \<Rightarrow> real" where
  "dist_upper K p q =
     ((fst q - fst p) * 31417 / 3600000)\<^sup>2 + K\<^sup>2 * ((snd q - snd p) * 31417 / 3600000)\<^sup>2"

definition dist_lower :: "real \<Rightarrow> coord \<Rightarrow> coord \<Rightarrow> real" where
  "dist_lower k p q = (sin_lower (fst q - fst p))\<^sup>2 + k\<^sup>2 * (sin_lower (snd q - snd p))\<^sup>2"

subsection \<open>Bounds on pi, arctan, sin and cos\<close>

lemma arctan_le_self: "0 \<le> x \<Longrightarrow> arctan x \<le> x"
proof -
  assume x: "0 \<le> x"
  have "(\<lambda>t. t - arctan t) 0 \<le> (\<lambda>t. t - arctan t) x"
  proof (rule DERIV_nonneg_imp_nondecreasing [OF x])
    fix t :: real
    have "DERIV (\<lambda>t. t - arctan t) t :> 1 - inverse (1 + t\<^sup>2)"
      by (intro derivative_eq_intros DERIV_arctan) auto
    moreover have "inverse (1 + t\<^sup>2) \<le> 1" by (simp add: inverse_le_1_iff)
    ultimately show "\<exists>y. DERIV (\<lambda>t. t - arctan t) t :> y \<and> 0 \<le> y" by auto
  qed
  then show ?thesis by simp
qed

lemma arctan_ge_cubic: "0 \<le> x \<Longrightarrow> x - x ^ 3 / 3 \<le> arctan x"
proof -
  assume x: "0 \<le> x"
  have "(\<lambda>t. arctan t - t + t ^ 3 / 3) 0 \<le> (\<lambda>t. arctan t - t + t ^ 3 / 3) x"
  proof (rule DERIV_nonneg_imp_nondecreasing [OF x])
    fix t :: real
    have "0 \<le> t ^ 4 / (1 + t\<^sup>2)" by (simp add: add_pos_nonneg)
    moreover have "0 < 1 + t\<^sup>2" by (simp add: add_pos_nonneg)
    then have "inverse (1 + t\<^sup>2) - 1 + t\<^sup>2 = t ^ 4 / (1 + t\<^sup>2)"
      by (simp add: field_simps)
    moreover have "DERIV (\<lambda>t. arctan t - t + t ^ 3 / 3) t :> inverse (1 + t\<^sup>2) - 1 + t\<^sup>2"
      by (auto intro!: derivative_eq_intros simp: power2_eq_square power3_eq_cube)
    ultimately show "\<exists>y. DERIV (\<lambda>t. arctan t - t + t ^ 3 / 3) t :> y \<and> 0 \<le> y" by auto
  qed
  then show ?thesis by simp
qed

lemma arctan_le_quintic: "0 \<le> x \<Longrightarrow> arctan x \<le> x - x ^ 3 / 3 + x ^ 5 / 5"
proof -
  assume x: "0 \<le> x"
  have "(\<lambda>t. t - t ^ 3 / 3 + t ^ 5 / 5 - arctan t) 0 \<le> (\<lambda>t. t - t ^ 3 / 3 + t ^ 5 / 5 - arctan t) x"
  proof (rule DERIV_nonneg_imp_nondecreasing [OF x])
    fix t :: real
    have "0 \<le> t ^ 6 / (1 + t\<^sup>2)" by (simp add: add_pos_nonneg)
    moreover have "0 < 1 + t\<^sup>2" by (simp add: add_pos_nonneg)
    then have "1 - t\<^sup>2 + t ^ 4 - inverse (1 + t\<^sup>2) = t ^ 6 / (1 + t\<^sup>2)"
      by (simp add: field_simps)
    moreover have "DERIV (\<lambda>t. t - t ^ 3 / 3 + t ^ 5 / 5 - arctan t) t :> 1 - t\<^sup>2 + t ^ 4 - inverse (1 + t\<^sup>2)"
      by (auto intro!: derivative_eq_intros simp: power2_eq_square power4_eq_xxxx)
    ultimately show "\<exists>y. DERIV (\<lambda>t. t - t ^ 3 / 3 + t ^ 5 / 5 - arctan t) t :> y \<and> 0 \<le> y" by auto
  qed
  then show ?thesis by simp
qed

lemma pi_bounds: "31405 / 10000 \<le> pi \<and> pi \<le> 31417 / 10000"
proof -
  have "pi = 16 * arctan (1 / 5) - 4 * arctan (1 / 239)" using machin by simp
  moreover have "74 / 375 \<le> arctan (1 / 5 :: real)"
    using arctan_ge_cubic [of "1 / 5"] by (simp add: eval_nat_numeral)
  moreover have "arctan (1 / 5 :: real) \<le> 9253 / 46875"
    using arctan_le_quintic [of "1 / 5"] by (simp add: eval_nat_numeral)
  moreover have "1 / 239 - 1 / 40955757 \<le> arctan (1 / 239 :: real)"
    using arctan_ge_cubic [of "1 / 239"] by (simp add: eval_nat_numeral)
  moreover have "arctan (1 / 239 :: real) \<le> 1 / 239"
    using arctan_le_self [of "1 / 239"] by simp
  ultimately show ?thesis by linarith
qed

lemma cos_ge_quadratic: "1 - x\<^sup>2 / 2 \<le> cos (x :: real)"
proof -
  have nn: "1 - t\<^sup>2 / 2 \<le> cos t" if t: "0 \<le> t" for t :: real
  proof -
    have "(\<lambda>u. cos u - 1 + u\<^sup>2 / 2) 0 \<le> (\<lambda>u. cos u - 1 + u\<^sup>2 / 2) t"
    proof (rule DERIV_nonneg_imp_nondecreasing [OF t])
      fix u :: real assume "0 \<le> u" "u \<le> t"
      then have "0 \<le> u - sin u" using sin_x_le_x [of u] by simp
      moreover have "DERIV (\<lambda>u. cos u - 1 + u\<^sup>2 / 2) u :> u - sin u"
        by (auto intro!: derivative_eq_intros simp: power2_eq_square)
      ultimately show "\<exists>y. DERIV (\<lambda>u. cos u - 1 + u\<^sup>2 / 2) u :> y \<and> 0 \<le> y" by auto
    qed
    then show ?thesis by simp
  qed
  show ?thesis
  proof (cases "0 \<le> x")
    case True then show ?thesis by (rule nn)
  next
    case False then show ?thesis using nn [of "- x"] by simp
  qed
qed

lemma sin_ge_cubic: "0 \<le> x \<Longrightarrow> x - x ^ 3 / 6 \<le> sin (x :: real)"
proof -
  assume x: "0 \<le> x"
  have "(\<lambda>u. sin u - u + u ^ 3 / 6) 0 \<le> (\<lambda>u. sin u - u + u ^ 3 / 6) x"
  proof (rule DERIV_nonneg_imp_nondecreasing [OF x])
    fix u :: real
    have "0 \<le> cos u - 1 + u\<^sup>2 / 2" using cos_ge_quadratic [of u] by simp
    moreover have "DERIV (\<lambda>u. sin u - u + u ^ 3 / 6) u :> cos u - 1 + u\<^sup>2 / 2"
      by (auto intro!: derivative_eq_intros simp: power2_eq_square power3_eq_cube)
    ultimately show "\<exists>y. DERIV (\<lambda>u. sin u - u + u ^ 3 / 6) u :> y \<and> 0 \<le> y" by auto
  qed
  then show ?thesis by simp
qed

lemma cos_le_quartic: "cos (x :: real) \<le> 1 - x\<^sup>2 / 2 + x ^ 4 / 24"
proof -
  have nn: "cos t \<le> 1 - t\<^sup>2 / 2 + t ^ 4 / 24" if t: "0 \<le> t" for t :: real
  proof -
    have "(\<lambda>u. 1 - u\<^sup>2 / 2 + u ^ 4 / 24 - cos u) 0 \<le> (\<lambda>u. 1 - u\<^sup>2 / 2 + u ^ 4 / 24 - cos u) t"
    proof (rule DERIV_nonneg_imp_nondecreasing [OF t])
      fix u :: real assume "0 \<le> u" "u \<le> t"
      then have "0 \<le> sin u - u + u ^ 3 / 6" using sin_ge_cubic [of u] by simp
      moreover have "DERIV (\<lambda>u. 1 - u\<^sup>2 / 2 + u ^ 4 / 24 - cos u) u :> sin u - u + u ^ 3 / 6"
        by (auto intro!: derivative_eq_intros simp: power2_eq_square power3_eq_cube power4_eq_xxxx)
      ultimately show "\<exists>y. DERIV (\<lambda>u. 1 - u\<^sup>2 / 2 + u ^ 4 / 24 - cos u) u :> y \<and> 0 \<le> y" by auto
    qed
    then show ?thesis by simp
  qed
  show ?thesis
  proof (cases "0 \<le> x")
    case True then show ?thesis by (rule nn)
  next
    case False then show ?thesis using nn [of "- x"] by simp
  qed
qed

lemma quartic_antimono:
  assumes "0 \<le> y" "y \<le> x" "x \<le> 2"
  shows "1 - x\<^sup>2 / 2 + x ^ 4 / 24 \<le> 1 - y\<^sup>2 / 2 + (y :: real) ^ 4 / 24"
proof -
  have "y\<^sup>2 \<le> x\<^sup>2" using assms by (intro power_mono) simp_all
  moreover have "x\<^sup>2 \<le> 2\<^sup>2" using assms by (intro power_mono) simp_all
  ultimately have "0 \<le> (x\<^sup>2 - y\<^sup>2) * (12 - x\<^sup>2 - y\<^sup>2)" by (intro mult_nonneg_nonneg) simp_all
  moreover have "(1 - y\<^sup>2 / 2 + y ^ 4 / 24) - (1 - x\<^sup>2 / 2 + x ^ 4 / 24) =
      (x\<^sup>2 - y\<^sup>2) * (12 - x\<^sup>2 - y\<^sup>2) / 24"
    by (simp add: algebra_simps power2_eq_square power4_eq_xxxx)
  ultimately show ?thesis by simp
qed

subsection \<open>Enclosures of the Haversine term\<close>

lemma cos_lat_mono:
  assumes "0 \<le> u" "u \<le> v" "v \<le> 90"
  shows "cos (v * pi / 180) \<le> cos (u * pi / 180)"
proof (rule cos_monotone_0_pi_le)
  show "0 \<le> u * pi / 180" using assms by simp
  show "u * pi / 180 \<le> v * pi / 180" using assms by (simp add: divide_right_mono mult_right_mono)
  have "v * pi \<le> 90 * pi" using assms by (simp add: mult_right_mono)
  then show "v * pi / 180 \<le> pi" by simp
qed

lemma cos_lat_nonneg: "0 \<le> v \<Longrightarrow> v \<le> 90 \<Longrightarrow> 0 \<le> cos (v * pi / 180)"
  using lat_rad_bounds [of v] by (intro cos_ge_zero) simp_all

lemma haversine_a_split:
  "haversine_a p q = (sin ((fst q - fst p) * pi / 360))\<^sup>2 +
     cos (fst p * pi / 180) * cos (fst q * pi / 180) * (sin ((snd q - snd p) * pi / 360))\<^sup>2"
  by (simp add: haversine_a_def Let_def power2_eq_square mult.assoc)

lemma pi_scale:
  "\<bar>d\<bar> * 31405 / 3600000 \<le> \<bar>d\<bar> * pi / 360 \<and> \<bar>d\<bar> * pi / 360 \<le> \<bar>d\<bar> * 31417 / 3600000"
proof -
  have "\<bar>d\<bar> * (31405 / 10000) \<le> \<bar>d\<bar> * pi" "\<bar>d\<bar> * pi \<le> \<bar>d\<bar> * (31417 / 10000)"
    using pi_bounds by (intro mult_left_mono; simp)+
  then show ?thesis by linarith
qed

lemma sin_sq_upper: "(sin (d * pi / 360))\<^sup>2 \<le> (d * 31417 / 3600000)\<^sup>2"
proof -
  have "\<bar>sin (d * pi / 360)\<bar> \<le> \<bar>d * pi / 360\<bar>" by (rule abs_sin_x_le_abs_x)
  also have "\<dots> = \<bar>d\<bar> * pi / 360" by (simp add: abs_mult)
  also have "\<dots> \<le> \<bar>d * 31417 / 3600000\<bar>" using pi_scale [of d] by (simp add: abs_mult)
  finally show ?thesis by (simp only: abs_le_square_iff)
qed

lemma sin_sq_lower:
  "(max 0 (\<bar>d\<bar> * 31405 / 3600000 - (\<bar>d\<bar> * 31417 / 3600000) ^ 3 / 6))\<^sup>2 \<le> (sin (d * pi / 360))\<^sup>2"
proof -
  define t where "t = \<bar>d\<bar> * pi / 360"
  have t0: "0 \<le> t" by (simp add: t_def)
  have lo: "\<bar>d\<bar> * 31405 / 3600000 \<le> t" and hi: "t \<le> \<bar>d\<bar> * 31417 / 3600000"
    using pi_scale [of d] by (simp_all add: t_def)
  have "t ^ 3 \<le> (\<bar>d\<bar> * 31417 / 3600000) ^ 3" using hi t0 by (rule power_mono)
  then have S: "\<bar>d\<bar> * 31405 / 3600000 - (\<bar>d\<bar> * 31417 / 3600000) ^ 3 / 6 \<le> sin t"
    using sin_ge_cubic [OF t0] lo by linarith
  have "(sin t)\<^sup>2 = (sin (d * pi / 360))\<^sup>2"
    by (cases "0 \<le> d") (simp_all add: t_def)
  moreover have "(max 0 (\<bar>d\<bar> * 31405 / 3600000 - (\<bar>d\<bar> * 31417 / 3600000) ^ 3 / 6))\<^sup>2 \<le> (sin t)\<^sup>2"
  proof (cases "\<bar>d\<bar> * 31405 / 3600000 - (\<bar>d\<bar> * 31417 / 3600000) ^ 3 / 6 \<le> 0")
    case True then show ?thesis by simp
  next
    case False then show ?thesis using S by (intro power_mono) simp_all
  qed
  ultimately show ?thesis by simp
qed

lemma haversine_a_upper:
  assumes "0 \<le> L" "L \<le> fst p" "fst p \<le> 90" "L \<le> fst q" "fst q \<le> 90"
    and "cos (L * pi / 180) \<le> K"
  shows "haversine_a p q \<le> ((fst q - fst p) * 31417 / 3600000)\<^sup>2 + K\<^sup>2 * ((snd q - snd p) * 31417 / 3600000)\<^sup>2"
proof -
  let ?c1 = "cos (fst p * pi / 180)" and ?c2 = "cos (fst q * pi / 180)"
  have c1: "0 \<le> ?c1" "?c1 \<le> K" using assms cos_lat_nonneg [of "fst p"] cos_lat_mono [of L "fst p"] by simp_all
  have c2: "0 \<le> ?c2" "?c2 \<le> K" using assms cos_lat_nonneg [of "fst q"] cos_lat_mono [of L "fst q"] by simp_all
  have "?c1 * ?c2 \<le> K\<^sup>2" using c1 c2 unfolding power2_eq_square by (intro mult_mono) simp_all
  then have "?c1 * ?c2 * (sin ((snd q - snd p) * pi / 360))\<^sup>2 \<le> K\<^sup>2 * ((snd q - snd p) * 31417 / 3600000)\<^sup>2"
    by (rule mult_mono [OF _ sin_sq_upper]) simp_all
  then show ?thesis unfolding haversine_a_split by (rule add_mono [OF sin_sq_upper])
qed

lemma haversine_a_lower:
  assumes "0 \<le> fst p" "fst p \<le> H" "0 \<le> fst q" "fst q \<le> H" "H \<le> 90"
    and "0 \<le> k" "k \<le> cos (H * pi / 180)"
  shows "(max 0 (\<bar>fst q - fst p\<bar> * 31405 / 3600000 - (\<bar>fst q - fst p\<bar> * 31417 / 3600000) ^ 3 / 6))\<^sup>2 +
         k\<^sup>2 * (max 0 (\<bar>snd q - snd p\<bar> * 31405 / 3600000 - (\<bar>snd q - snd p\<bar> * 31417 / 3600000) ^ 3 / 6))\<^sup>2
         \<le> haversine_a p q"
proof -
  let ?c1 = "cos (fst p * pi / 180)" and ?c2 = "cos (fst q * pi / 180)"
  have c1: "k \<le> ?c1" using assms cos_lat_mono [of "fst p" H] by simp
  have c2: "k \<le> ?c2" using assms cos_lat_mono [of "fst q" H] by simp
  have "k\<^sup>2 \<le> ?c1 * ?c2" using c1 c2 assms(6) unfolding power2_eq_square by (intro mult_mono) simp_all
  moreover have "0 \<le> k\<^sup>2" by simp
  ultimately have c12: "0 \<le> ?c1 * ?c2" "k\<^sup>2 \<le> ?c1 * ?c2" by linarith+
  have "k\<^sup>2 * (max 0 (\<bar>snd q - snd p\<bar> * 31405 / 3600000 - (\<bar>snd q - snd p\<bar> * 31417 / 3600000) ^ 3 / 6))\<^sup>2
      \<le> ?c1 * ?c2 * (sin ((snd q - snd p) * pi / 360))\<^sup>2"
    using c12 by (intro mult_mono [OF _ sin_sq_lower]) simp_all
  then show ?thesis unfolding haversine_a_split by (rule add_mono [OF sin_sq_lower])
qed

subsection \<open>Deciding a comparison with the radius\<close>

lemma cubic_mono:
  assumes "0 \<le> w" "w \<le> s" "s \<le> (1 :: real)"
  shows "w - w ^ 3 / 3 \<le> s - s ^ 3 / 3"
proof -
  have "s\<^sup>2 \<le> 1" "s * w \<le> 1" "w\<^sup>2 \<le> 1"
    using assms by (auto simp: power2_eq_square intro: mult_le_one)
  then have "0 \<le> (s - w) * (3 - (s\<^sup>2 + s * w + w\<^sup>2))" using assms by (intro mult_nonneg_nonneg) simp_all
  moreover have "(s - s ^ 3 / 3) - (w - w ^ 3 / 3) = (s - w) * (3 - (s\<^sup>2 + s * w + w\<^sup>2)) / 3"
    by (simp add: algebra_simps power2_eq_square power3_eq_cube)
  ultimately show ?thesis by simp
qed

lemma distance_le_of_a:
  assumes "0 \<le> haversine_a p q" "haversine_a p q \<le> A" "0 \<le> r"
    and "A * (4 * 6371000\<^sup>2 + r\<^sup>2) \<le> r\<^sup>2"
  shows "calculateDistanceInMeters p q \<le> r"
proof -
  define a where "a = haversine_a p q"
  define C :: real where "C = 4 * 6371000\<^sup>2"
  have C: "0 < C" by (simp add: C_def)
  have a0: "0 \<le> a" using assms(1) by (simp add: a_def)
  have "a * (C + r\<^sup>2) \<le> A * (C + r\<^sup>2)"
    using assms(2) C by (intro mult_right_mono) (simp_all add: a_def add_nonneg_nonneg)
  then have key: "a * (C + r\<^sup>2) \<le> r\<^sup>2" using assms(4) unfolding C_def by linarith
  have a1: "a < 1"
  proof (rule ccontr)
    assume "\<not> a < 1"
    then have "C + r\<^sup>2 \<le> a * (C + r\<^sup>2)"
      using C mult_right_mono [of 1 a "C + r\<^sup>2"] by simp
    with key C show False by linarith
  qed
  then have sq: "0 < sqrt (1 - a)" by simp
  have "C * a \<le> r\<^sup>2 * (1 - a)" using key by (simp add: algebra_simps)
  moreover have "(2 * 6371000 * sqrt a)\<^sup>2 = C * a" using a0 unfolding C_def by (simp add: power_mult_distrib)
  moreover have "(r * sqrt (1 - a))\<^sup>2 = r\<^sup>2 * (1 - a)" using a1 by (simp add: power_mult_distrib)
  ultimately have "(2 * 6371000 * sqrt a)\<^sup>2 \<le> (r * sqrt (1 - a))\<^sup>2" by simp
  then have h: "2 * 6371000 * sqrt a \<le> r * sqrt (1 - a)"
    by (rule power2_le_imp_le) (intro mult_nonneg_nonneg assms(3) real_sqrt_ge_zero; use a1 in simp)
  have le: "2 * 6371000 * (sqrt a / sqrt (1 - a)) \<le> r"
    using h pos_divide_le_eq [OF sq, of "2 * 6371000 * sqrt a" r] by (simp only: times_divide_eq_right)
  have "arctan (sqrt a / sqrt (1 - a)) \<le> sqrt a / sqrt (1 - a)"
    by (rule arctan_le_self) (intro divide_nonneg_nonneg real_sqrt_ge_zero a0; use a1 in simp)
  moreover have "calculateDistanceInMeters p q = 2 * 6371000 * arctan (sqrt a / sqrt (1 - a))"
  proof -
    have "js_atan2 (sqrt a) (sqrt (1 - a)) = arctan (sqrt a / sqrt (1 - a))"
      using sq by (simp add: js_atan2_def)
    then show ?thesis unfolding calculateDistanceInMeters_def Let_def a_def by simp
  qed
  ultimately show ?thesis using le by linarith
qed
lemma distance_gt_of_a:
  assumes "w\<^sup>2 \<le> haversine_a p q" "haversine_a p q \<le> 1" "0 \<le> w" "w \<le> 1"
    and "r < 2 * 6371000 * (w - w ^ 3 / 3)"
  shows "r < calculateDistanceInMeters p q"
proof -
  define a where "a = haversine_a p q"
  have w0: "0 \<le> w\<^sup>2" by simp
  have a0: "0 \<le> a" using assms(1) w0 unfolding a_def by linarith
  have wa: "w \<le> sqrt a" using assms(1) assms(3) unfolding a_def by (simp add: real_le_rsqrt)
  have a1: "sqrt a \<le> 1" using assms(2) unfolding a_def by simp
  have f: "w - w ^ 3 / 3 \<le> sqrt a - sqrt a ^ 3 / 3" by (rule cubic_mono [OF assms(3) wa a1])
  show ?thesis
  proof (cases "a = 1")
    case True
    have "0 \<le> w ^ 3" using assms(3) by simp
    then have "w - w ^ 3 / 3 \<le> 1" using assms(4) by linarith
    then have "2 * 6371000 * (w - w ^ 3 / 3) \<le> 2 * 6371000 * (1 :: real)" by (rule mult_left_mono) simp
    then have "r < 2 * 6371000" using assms(5) by linarith
    moreover have "js_atan2 (sqrt a) (sqrt (1 - a)) = pi / 2" using True by (simp add: js_atan2_def)
    then have "calculateDistanceInMeters p q = 6371000 * pi"
      unfolding calculateDistanceInMeters_def Let_def a_def by simp
    ultimately show ?thesis using pi_ge_two by linarith
  next
    case False
    with assms(2) have "a < 1" unfolding a_def by simp
    then have sq: "0 < sqrt (1 - a)" "sqrt (1 - a) \<le> 1" using a0 by simp_all
    have s0: "0 \<le> sqrt a" using a0 by simp
    have "sqrt a * 1 \<le> sqrt a * (1 / sqrt (1 - a))"
      using sq s0 by (intro mult_left_mono) (simp_all add: le_divide_eq a0)
    then have "arctan (sqrt a) \<le> arctan (sqrt a / sqrt (1 - a))" by (simp add: arctan_le_iff)
    moreover have "sqrt a - sqrt a ^ 3 / 3 \<le> arctan (sqrt a)" by (rule arctan_ge_cubic [OF s0])
    moreover have "js_atan2 (sqrt a) (sqrt (1 - a)) = arctan (sqrt a / sqrt (1 - a))"
      using sq by (simp add: js_atan2_def)
    then have "calculateDistanceInMeters p q = 2 * 6371000 * arctan (sqrt a / sqrt (1 - a))"
      unfolding calculateDistanceInMeters_def Let_def a_def by simp
    moreover note f
    ultimately have "w - w ^ 3 / 3 \<le> arctan (sqrt a / sqrt (1 - a))"
      and d: "calculateDistanceInMeters p q = 2 * 6371000 * arctan (sqrt a / sqrt (1 - a))" by linarith+
    then have "2 * 6371000 * (w - w ^ 3 / 3) \<le> 2 * 6371000 * arctan (sqrt a / sqrt (1 - a))"
      by (intro mult_left_mono) simp_all
    then show ?thesis using d assms(5) by linarith
  qed
qed

text \<open>Bounds on the cosine of a latitude, given in degrees, from rational arithmetic.\<close>

lemma cos_lat_le:
  assumes "0 \<le> L" "L * 31417 / 1800000 \<le> 2"
    and "1 - (L * 31405 / 1800000)\<^sup>2 / 2 + (L * 31405 / 1800000) ^ 4 / 24 \<le> K"
  shows "cos (L * pi / 180) \<le> K"
proof -
  have "L * 31405 / 3600000 \<le> L * pi / 360" "L * pi / 360 \<le> L * 31417 / 3600000"
    using pi_scale [of L] assms(1) by simp_all
  then have "L * 31405 / 1800000 \<le> L * pi / 180" and "L * pi / 180 \<le> 2"
    using assms(2) by linarith+
  then have "1 - (L * pi / 180)\<^sup>2 / 2 + (L * pi / 180) ^ 4 / 24 \<le>
      1 - (L * 31405 / 1800000)\<^sup>2 / 2 + (L * 31405 / 1800000) ^ 4 / 24"
    using assms(1) by (intro quartic_antimono) simp_all
  then show ?thesis using cos_le_quartic [of "L * pi / 180"] assms(3) by linarith
qed

lemma cos_lat_ge:
  assumes "0 \<le> H" "k \<le> 1 - (H * 31417 / 1800000)\<^sup>2 / 2"
  shows "k \<le> cos (H * pi / 180)"
proof -
  have "H * pi / 360 \<le> H * 31417 / 3600000" using pi_scale [of H] assms(1) by simp
  then have "0 \<le> H * pi / 180" "H * pi / 180 \<le> H * 31417 / 1800000" using assms(1) by simp_all
  then have "(H * pi / 180)\<^sup>2 \<le> (H * 31417 / 1800000)\<^sup>2" by (rule power_mono [rotated])
  then show ?thesis using cos_ge_quadratic [of "H * pi / 180"] assms(2) by linarith
qed

lemma distance_within:
  assumes "0 \<le> L" "L \<le> fst p" "fst p \<le> 90" "L \<le> fst q" "fst q \<le> 90"
    and "cos (L * pi / 180) \<le> K" "0 \<le> r"
    and "dist_upper K p q * (4 * 6371000\<^sup>2 + r\<^sup>2) \<le> r\<^sup>2"
  shows "calculateDistanceInMeters p q \<le> r"
proof (rule distance_le_of_a)
  show "0 \<le> haversine_a p q" using assms(1-5) by (intro haversine_a_nonneg) simp_all
  show "haversine_a p q \<le> dist_upper K p q"
    unfolding dist_upper_def by (rule haversine_a_upper [OF assms(1-6)])
qed (use assms in simp_all)

lemma distance_beyond:
  assumes "0 \<le> fst p" "fst p \<le> H" "0 \<le> fst q" "fst q \<le> H" "H \<le> 90"
    and "0 \<le> k" "k \<le> cos (H * pi / 180)" "0 \<le> w" "w \<le> 1"
    and "w\<^sup>2 \<le> dist_lower k p q" "r < 2 * 6371000 * (w - w ^ 3 / 3)"
  shows "\<not> calculateDistanceInMeters p q \<le> r"
proof -
  have "w\<^sup>2 \<le> haversine_a p q"
    using assms(10) haversine_a_lower [OF assms(1-7)] unfolding dist_lower_def sin_lower_def by linarith
  moreover have "haversine_a p q \<le> 1" using assms(1-5) by (intro haversine_a_le_one) simp_all
  ultimately have "r < calculateDistanceInMeters p q"
    using assms(8,9,11) by (rule distance_gt_of_a)
  then show ?thesis by simp
qed

end
