(* ===== verification/Demo.thy ===== *)
theory Demo
  imports Pipeline Enclosure
begin

text \<open>
  The browser demo \<open>src/public/clustering-demo.js\<close>. \<open>generateTestLocationData\<close>
  (lines 7--52) builds one user's device history: five points at Times Square, three
  travel points moving away, four points at Central Park, one minute apart from
  \<open>Date.now()\<close>. The test functions (lines 55--104) only print their configurations; the
  enabled one (radius 10 m, \<open>minVisitClusterSize\<close> 3, \<open>minTravelClusterSize\<close> 5) is
  \<open>testEnabledConfig\<close>, the disabled one \<open>testDisabledConfig\<close>.
  \<^item> \<open>Date.now()\<close> is the parameter \<open>baseTime\<close>.
  \<^item> \<open>Math.random()\<close> is the parameter \<open>mathRandom\<close>: \<open>mathRandom k\<close> is the result of the
    \<open>k\<close>-th call. The calls happen in the order of the code: for each Times Square point
    its latitude, then its longitude (calls 0--9), then the same for the Central Park
    points (calls 10--17).
\<close>

text \<open>The object literal of lines 19--25, 30--36 and 41--47.\<close>

definition demoPoint :: "real \<Rightarrow> real \<Rightarrow> int \<Rightarrow> location" where
  "demoPoint la lo t =
     \<lparr>lat = la, lon = lo, tst = Some t, timestamp = Some t, acc = Some 5,
      node_event_type = None, node_event_id = None, node_event_start = None, node_event_end = None\<rparr>"

definition generateTestLocationData :: "int \<Rightarrow> (nat \<Rightarrow> real) \<Rightarrow> unit history" where
  "generateTestLocationData baseTime mathRandom =
     (let timesSquare =
            map (\<lambda>i. demoPoint (40.7589 + (mathRandom (2 * i) - 0.5) * 0.0001)
                               (-73.9851 + (mathRandom (2 * i + 1) - 0.5) * 0.0001)
                               (baseTime + int i * 60000)) [0..<5];
          travel =
            map (\<lambda>i. demoPoint (40.7589 + real (i + 1) * 0.01) (-73.9851 + real (i + 1) * 0.01)
                               (baseTime + int (5 + i) * 60000)) [0..<3];
          centralPark =
            map (\<lambda>i. demoPoint (40.7829 + (mathRandom (10 + 2 * i) - 0.5) * 0.0001)
                               (-73.9654 + (mathRandom (11 + 2 * i) - 0.5) * 0.0001)
                               (baseTime + int (8 + i) * 60000)) [0..<4]
      in [(''testUser'', [(''testDevice'', timesSquare @ travel @ centralPark)])])"

definition testEnabledConfig :: clustering_config where
  "testEnabledConfig =
     \<lparr>enabled = True, clusterRadius = Some 10, minVisitClusterSize = Some 3, minTravelClusterSize = Some 5\<rparr>"

definition testDisabledConfig :: clustering_config where
  "testDisabledConfig =
     \<lparr>enabled = False, clusterRadius = Some 10, minVisitClusterSize = Some 3, minTravelClusterSize = Some 5\<rparr>"

subsection \<open>Evaluation\<close>

text \<open>With every \<open>Math.random()\<close> call returning \<open>0.5\<close>, each place's points lie exactly at
  the place.\<close>

definition demo_points :: "int \<Rightarrow> location list" where
  "demo_points b =
     [demoPoint 40.7589 (-73.9851) b, demoPoint 40.7589 (-73.9851) (b + 60000),
      demoPoint 40.7589 (-73.9851) (b + 120000), demoPoint 40.7589 (-73.9851) (b + 180000),
      demoPoint 40.7589 (-73.9851) (b + 240000),
      demoPoint 40.7689 (-73.9751) (b + 300000), demoPoint 40.7789 (-73.9651) (b + 360000),
      demoPoint 40.7889 (-73.9551) (b + 420000),
      demoPoint 40.7829 (-73.9654) (b + 480000), demoPoint 40.7829 (-73.9654) (b + 540000),
      demoPoint 40.7829 (-73.9654) (b + 600000), demoPoint 40.7829 (-73.9654) (b + 660000)]"

lemma generateTestLocationData_half:
  "generateTestLocationData b (\<lambda>_. 1 / 2) = [(''testUser'', [(''testDevice'', demo_points b)])]"
  by (simp add: generateTestLocationData_def demo_points_def upt_conv_Cons)

lemma point_time_demoPoint [simp]: "point_time (demoPoint la lo t) = t"
  by (simp add: point_time_def demoPoint_def)

lemma demo_points_sorted: "sort_key point_time (demo_points b) = demo_points b"
  by (rule sort_key_id_if_sorted) (simp add: demo_points_def)

lemma calculateDistanceInMeters_eq: "p = q \<Longrightarrow> calculateDistanceInMeters p q = 0"
  by simp

lemma demo_clusters:
  "findLocationClusters calculateDistanceInMeters (demo_points b) 10 3 5 =
    [\<lparr>ctype = Visit, pointIndices = [0, 1, 2, 3, 4], startTime = b, endTime = b + 240000,
       centerLat = Some 40.7589, centerLon = Some (-73.9851), travelStartTime = None, travelEndTime = None\<rparr>,
     \<lparr>ctype = Travel, pointIndices = [5, 6], startTime = b + 300000, endTime = b + 360000,
       centerLat = None, centerLon = None, travelStartTime = None, travelEndTime = None\<rparr>,
     \<lparr>ctype = Travel, pointIndices = [7, 8], startTime = b + 420000, endTime = b + 480000,
       centerLat = None, centerLon = None, travelStartTime = None, travelEndTime = None\<rparr>,
     \<lparr>ctype = Visit, pointIndices = [9, 10, 11], startTime = b + 540000, endTime = b + 660000,
       centerLat = Some 40.7829, centerLon = Some (-73.9654), travelStartTime = None, travelEndTime = None\<rparr>]"
  by (simp add: model_simps demo_points_def demoPoint_def coord_def calculateDistanceInMeters_eq)

lemma demo_points_reset: "map resetEventMetadata (demo_points b) = demo_points b"
  by (simp add: demo_points_def demoPoint_def resetEventMetadata_def)

definition demo_visit1 :: "int \<Rightarrow> cluster" where
  "demo_visit1 b = \<lparr>ctype = Visit, pointIndices = [0, 1, 2, 3, 4], startTime = b, endTime = b + 240000,
       centerLat = Some 40.7589, centerLon = Some (-73.9851), travelStartTime = None, travelEndTime = None\<rparr>"

definition demo_visit2 :: "int \<Rightarrow> cluster" where
  "demo_visit2 b = \<lparr>ctype = Visit, pointIndices = [9, 10, 11], startTime = b + 540000, endTime = b + 660000,
       centerLat = Some 40.7829, centerLon = Some (-73.9654), travelStartTime = None, travelEndTime = None\<rparr>"

lemma demo_merged:
  "mergeConsecutiveTravelClusters (findLocationClusters calculateDistanceInMeters (demo_points b) 10 3 5) =
    [demo_visit1 b,
     \<lparr>ctype = Travel, pointIndices = [5, 6, 7, 8], startTime = b + 300000, endTime = b + 480000,
       centerLat = None, centerLon = None, travelStartTime = None, travelEndTime = None\<rparr>,
     demo_visit2 b]"
  unfolding demo_clusters demo_visit1_def demo_visit2_def by (simp add: model_simps)

lemma demo_timed:
  "setTravelTiming [demo_visit1 b,
     \<lparr>ctype = Travel, pointIndices = [5, 6, 7, 8], startTime = b + 300000, endTime = b + 480000,
       centerLat = None, centerLon = None, travelStartTime = None, travelEndTime = None\<rparr>,
     demo_visit2 b] =
    [demo_visit1 b,
     \<lparr>ctype = Travel, pointIndices = [5, 6, 7, 8], startTime = b + 300000, endTime = b + 480000,
       centerLat = None, centerLon = None,
       travelStartTime = Some (js_or (Some (b + 240000)) (b + 300000)),
       travelEndTime = Some (js_or (Some (b + 540000)) (b + 480000))\<rparr>,
     demo_visit2 b]"
  by (simp add: setTravelTiming_def upt_conv_Cons findNextVisitStart.simps demo_visit1_def demo_visit2_def
           del: js_or_Some)

lemma js_or_same: "js_or (Some t) (js_or (Some t) 0) = t"
  by simp

definition demo_timed_travel :: "int \<Rightarrow> cluster" where
  "demo_timed_travel b =
     \<lparr>ctype = Travel, pointIndices = [5, 6, 7, 8], startTime = b + 300000, endTime = b + 480000,
       centerLat = None, centerLon = None,
       travelStartTime = Some (js_or (Some (b + 240000)) (b + 300000)),
       travelEndTime = Some (js_or (Some (b + 540000)) (b + 480000))\<rparr>"

lemma demo_emitted:
  "map node_event_type (emitClusters (demo_points b) 1 1 [demo_visit1 b, demo_timed_travel b, demo_visit2 b]) =
     [Some Visit, Some Travel, Some Travel, Some Travel, Some Travel, Some Visit] \<and>
   map coord (emitClusters (demo_points b) 1 1 [demo_visit1 b, demo_timed_travel b, demo_visit2 b]) =
     [(40.7589, -73.9851), (40.7689, -73.9751), (40.7789, -73.9651), (40.7889, -73.9551),
      (40.7829, -73.9654), (40.7829, -73.9654)] \<and>
   map node_event_id (emitClusters (demo_points b) 1 1 [demo_visit1 b, demo_timed_travel b, demo_visit2 b]) =
     [Some 1, Some 1, Some 1, Some 1, Some 1, Some 2] \<and>
   map point_time (emitClusters (demo_points b) 1 1 [demo_visit1 b, demo_timed_travel b, demo_visit2 b]) =
     [b, b + 300000, b + 360000, b + 420000, b + 480000, b + 540000]"
  by (simp add: demo_visit1_def demo_visit2_def demo_timed_travel_def visitPoint_def travelPoint_def
                demo_points_def demoPoint_def coord_def mean_def point_time_def js_or_same
           del: js_or_Some)

text \<open>The pipeline of one device, evaluated in stages: sorting, discovery with the merge,
  the timing back-fill, and emission, whose output is already in time order.\<close>

lemma clusterDevice_stages:
  assumes "sort_key point_time ps = ps"
    and "mergeConsecutiveTravelClusters (findLocationClusters calculateDistanceInMeters ps r mv mt) = cs"
    and "setTravelTiming cs = ts" and "sorted (map point_time (emitClusters ps 1 1 ts))"
  shows "clusterDevice r mv mt ps = emitClusters ps 1 1 ts"
  unfolding clusterDevice_def Let_def assms(1,2) processClusterToLocations_def assms(3)
  by (rule sort_key_id_if_sorted [OF assms(4)])

lemma demo_device_output:
  "clusterDevice 10 3 5 (demo_points b) =
     emitClusters (demo_points b) 1 1 [demo_visit1 b, demo_timed_travel b, demo_visit2 b]"
  using demo_emitted [of b]
  by (intro clusterDevice_stages [OF demo_points_sorted demo_merged]) (simp_all add: demo_timed demo_timed_travel_def)

subsection \<open>The demo's configurations on its data\<close>

text \<open>With \<open>testDisabledConfig\<close> the generated points come back unchanged, whatever
  \<open>Math.random()\<close> returned: they carry no metadata, and the reset sets none.\<close>

lemma demo_disabled_unchanged:
  "enhanceLocationData (generateTestLocationData b r) testDisabledConfig = generateTestLocationData b r"
  by (simp add: enhanceLocationData_def testDisabledConfig_def resetHistory_def generateTestLocationData_def
                Let_def demoPoint_def resetEventMetadata_def)

text \<open>With \<open>testEnabledConfig\<close>, and every \<open>Math.random()\<close> call returning \<open>0.5\<close>, the
  Times Square points become one visit point, but the first Central Park point becomes a
  travel point: the visit attempt at the first travel point fails, and the travel fallback
  takes \<open>minVisitClusterSize - 1 = 2\<close> points at a time, so its second chunk is the last
  travel point together with the first Central Park point. The Central Park visit point
  summarises the remaining three points.\<close>

theorem demo_dwell_start_as_travel:
  "\<exists>out. device_points (enhanceLocationData (generateTestLocationData b (\<lambda>_. 1 / 2)) testEnabledConfig)
            ''testUser'' ''testDevice'' = Some out \<and>
     map node_event_type out = [Some Visit, Some Travel, Some Travel, Some Travel, Some Travel, Some Visit] \<and>
     map coord out = [(40.7589, -73.9851), (40.7689, -73.9751), (40.7789, -73.9651), (40.7889, -73.9551),
                      (40.7829, -73.9654), (40.7829, -73.9654)] \<and>
     map node_event_id out = [Some 1, Some 1, Some 1, Some 1, Some 1, Some 2]"
proof -
  have "device_points (enhanceLocationData (generateTestLocationData b (\<lambda>_. 1 / 2)) testEnabledConfig)
          ''testUser'' ''testDevice'' = Some (clusterDevice 10 3 5 (demo_points b))"
    unfolding device_points_enhance generateTestLocationData_half
    by (simp add: device_points_def testEnabledConfig_def demo_points_reset)
  then show ?thesis using demo_emitted [of b] by (simp add: demo_device_output)
qed

subsection \<open>The jitter of \<open>Math.random()\<close>\<close>

text \<open>
  Each generated point is moved by up to \<open>0.00005\<close> degrees in latitude and longitude,
  so two points of one place can be about 14 m apart, more than the 10 m radius of
  \<open>testEnabledConfig\<close>. With \<open>Math.random()\<close> returning \<open>0, 0, 0.9, 0.9, 0, 0, \<dots>\<close>
  (\<open>demoJitter\<close>, statement-level), consecutive points of a place lie 12.5 m apart. The
  comparisons are decided by the enclosures of \<open>Enclosure\<close> for latitudes between 40.75 and
  40.79 degrees.
\<close>

definition demoJitter :: "nat \<Rightarrow> real" where
  "demoJitter k = (if k mod 4 < 2 then 0 else 9 / 10)"

definition demo_jitter_points :: "int \<Rightarrow> location list" where
  "demo_jitter_points b =
     [demoPoint 40.75885 (-73.98515) b, demoPoint 40.75894 (-73.98506) (b + 60000),
      demoPoint 40.75885 (-73.98515) (b + 120000), demoPoint 40.75894 (-73.98506) (b + 180000),
      demoPoint 40.75885 (-73.98515) (b + 240000),
      demoPoint 40.7689 (-73.9751) (b + 300000), demoPoint 40.7789 (-73.9651) (b + 360000),
      demoPoint 40.7889 (-73.9551) (b + 420000),
      demoPoint 40.78294 (-73.96536) (b + 480000), demoPoint 40.78285 (-73.96545) (b + 540000),
      demoPoint 40.78294 (-73.96536) (b + 600000), demoPoint 40.78285 (-73.96545) (b + 660000)]"

lemma demo_within_eq:
  "4075 / 100 \<le> fst p \<Longrightarrow> fst p \<le> 4079 / 100 \<Longrightarrow> 4075 / 100 \<le> fst q \<Longrightarrow> fst q \<le> 4079 / 100 \<Longrightarrow>
   dist_upper (758 / 1000) p q * (4 * 6371000\<^sup>2 + 10\<^sup>2) \<le> 10\<^sup>2 \<Longrightarrow>
   (calculateDistanceInMeters p q \<le> 10) = True"
  using distance_within [of "4075 / 100" p q "758 / 1000" 10]
    cos_lat_le [of "4075 / 100" "758 / 1000"] by (simp add: eval_nat_numeral)

lemma demo_beyond_eq:
  "4075 / 100 \<le> fst p \<Longrightarrow> fst p \<le> 4079 / 100 \<Longrightarrow> 4075 / 100 \<le> fst q \<Longrightarrow> fst q \<le> 4079 / 100 \<Longrightarrow>
   (10010 / 12742000000)\<^sup>2 \<le> dist_lower (746 / 1000) p q \<Longrightarrow>
   (calculateDistanceInMeters p q \<le> 10) = False"
  using distance_beyond [of p "4079 / 100" q "746 / 1000" "10010 / 12742000000" 10]
    cos_lat_ge [of "4079 / 100" "746 / 1000"] by (simp add: eval_nat_numeral)

lemma generateTestLocationData_jitter:
  "generateTestLocationData b demoJitter = [(''testUser'', [(''testDevice'', demo_jitter_points b)])]"
  by (simp add: generateTestLocationData_def demo_jitter_points_def demoJitter_def upt_conv_Cons)

lemma demo_jitter_clusters:
  "findLocationClusters calculateDistanceInMeters (demo_jitter_points b) 10 3 5 =
    [\<lparr>ctype = Visit, pointIndices = [0, 2, 4], startTime = b, endTime = b + 240000,
       centerLat = Some 40.75885, centerLon = Some (-73.98515), travelStartTime = None, travelEndTime = None\<rparr>,
     \<lparr>ctype = Travel, pointIndices = [5, 6], startTime = b + 300000, endTime = b + 360000,
       centerLat = None, centerLon = None, travelStartTime = None, travelEndTime = None\<rparr>,
     \<lparr>ctype = Travel, pointIndices = [7, 8], startTime = b + 420000, endTime = b + 480000,
       centerLat = None, centerLon = None, travelStartTime = None, travelEndTime = None\<rparr>,
     \<lparr>ctype = Travel, pointIndices = [9, 10], startTime = b + 540000, endTime = b + 600000,
       centerLat = None, centerLon = None, travelStartTime = None, travelEndTime = None\<rparr>,
     \<lparr>ctype = Travel, pointIndices = [11], startTime = b + 660000, endTime = b + 660000,
       centerLat = None, centerLon = None, travelStartTime = None, travelEndTime = None\<rparr>]"
  by (simp add: model_simps demo_jitter_points_def demoPoint_def coord_def calculateDistanceInMeters_eq
      demo_within_eq demo_beyond_eq dist_upper_def dist_lower_def sin_lower_def eval_nat_numeral)

definition demo_jitter_visit :: "int \<Rightarrow> cluster" where
  "demo_jitter_visit b = \<lparr>ctype = Visit, pointIndices = [0, 2, 4], startTime = b, endTime = b + 240000,
       centerLat = Some 40.75885, centerLon = Some (-73.98515), travelStartTime = None, travelEndTime = None\<rparr>"

definition demo_jitter_travel :: "int \<Rightarrow> cluster" where
  "demo_jitter_travel b = \<lparr>ctype = Travel, pointIndices = [5, 6, 7, 8, 9, 10, 11], startTime = b + 300000,
       endTime = b + 660000, centerLat = None, centerLon = None,
       travelStartTime = Some (js_or (Some (b + 240000)) (b + 300000)), travelEndTime = Some (b + 660000)\<rparr>"

lemma demo_jitter_sorted: "sort_key point_time (demo_jitter_points b) = demo_jitter_points b"
  by (rule sort_key_id_if_sorted) (simp add: demo_jitter_points_def)

lemma demo_jitter_merged:
  "mergeConsecutiveTravelClusters (findLocationClusters calculateDistanceInMeters (demo_jitter_points b) 10 3 5) =
    [demo_jitter_visit b, (demo_jitter_travel b)\<lparr>travelStartTime := None, travelEndTime := None\<rparr>]"
  unfolding demo_jitter_clusters demo_jitter_visit_def demo_jitter_travel_def by (simp add: model_simps)

lemma demo_jitter_timed:
  "setTravelTiming [demo_jitter_visit b, (demo_jitter_travel b)\<lparr>travelStartTime := None, travelEndTime := None\<rparr>] =
     [demo_jitter_visit b, demo_jitter_travel b]"
  by (simp add: setTravelTiming_def upt_conv_Cons findNextVisitStart.simps demo_jitter_visit_def
      demo_jitter_travel_def del: js_or_Some)

lemma demo_jitter_emitted:
  "map node_event_type (emitClusters (demo_jitter_points b) 1 1 [demo_jitter_visit b, demo_jitter_travel b]) =
     Some Visit # replicate 7 (Some Travel) \<and>
   map coord (emitClusters (demo_jitter_points b) 1 1 [demo_jitter_visit b, demo_jitter_travel b]) =
     [(40.75885, -73.98515), (40.7689, -73.9751), (40.7789, -73.9651), (40.7889, -73.9551),
      (40.78294, -73.96536), (40.78285, -73.96545), (40.78294, -73.96536), (40.78285, -73.96545)] \<and>
   map point_time (emitClusters (demo_jitter_points b) 1 1 [demo_jitter_visit b, demo_jitter_travel b]) =
     [b, b + 300000, b + 360000, b + 420000, b + 480000, b + 540000, b + 600000, b + 660000]"
  by (simp add: demo_jitter_visit_def demo_jitter_travel_def visitPoint_def travelPoint_def
      demo_jitter_points_def demoPoint_def coord_def mean_def point_time_def numeral_eq_Suc js_or_same
      del: js_or_Some)

text \<open>With \<open>testEnabledConfig\<close> and this jitter the demo shows no Central Park visit: its four
  points are output as travel points, and the Times Square points 1 and 3 are dropped.\<close>

theorem demo_jitter_loses_park_visit:
  "\<exists>out. device_points (enhanceLocationData (generateTestLocationData b demoJitter) testEnabledConfig)
            ''testUser'' ''testDevice'' = Some out \<and>
     map node_event_type out = Some Visit # replicate 7 (Some Travel) \<and>
     map coord out = [(40.75885, -73.98515), (40.7689, -73.9751), (40.7789, -73.9651), (40.7889, -73.9551),
      (40.78294, -73.96536), (40.78285, -73.96545), (40.78294, -73.96536), (40.78285, -73.96545)]"
proof -
  have "map resetEventMetadata (demo_jitter_points b) = demo_jitter_points b"
    by (simp add: demo_jitter_points_def demoPoint_def resetEventMetadata_def)
  then have "device_points (enhanceLocationData (generateTestLocationData b demoJitter) testEnabledConfig)
          ''testUser'' ''testDevice'' = Some (clusterDevice 10 3 5 (demo_jitter_points b))"
    unfolding device_points_enhance generateTestLocationData_jitter
    by (simp add: device_points_def testEnabledConfig_def)
  moreover have "clusterDevice 10 3 5 (demo_jitter_points b) =
      emitClusters (demo_jitter_points b) 1 1 [demo_jitter_visit b, demo_jitter_travel b]"
    using demo_jitter_emitted [of b]
    by (intro clusterDevice_stages [OF demo_jitter_sorted demo_jitter_merged demo_jitter_timed]) simp
  ultimately show ?thesis using demo_jitter_emitted [of b] by simp
qed

end
