(* ===== verification/Cost.thy ===== *)
theory Cost
  imports Discovery
begin

text \<open>
  The cost of discovery: how often \<open>findLocationClusters\<close> (\<open>locationEnhancer.js\<close>,
  lines 147--200) evaluates the distance. The spec (section 5) says that the runtime is
  linear in the number of points, since the lookahead is capped. The three loops are
  instrumented with a counter of distance evaluations: \<open>skipScanC\<close> (the \<open>for\<close> loop of
  \<open>trySkipTransientPoints\<close>, lines 361--382), \<open>growVisitC\<close> (the \<open>while\<close> loop of
  \<open>tryCreateVisitCluster\<close>, lines 237--280) and \<open>findLoopC\<close> (the \<open>while\<close> loop of
  \<open>findLocationClusters\<close>). Each returns the result of the uninstrumented loop, paired
  with the count (\<open>skipScanC_fst\<close>, \<open>growVisitC_fst\<close>, \<open>findLoopC_fst\<close>). The
  distance evaluations are linear in the number of points. The recomputation of the centre
  at each absorption (lines 250--257) is counted apart, by \<open>growVisitR\<close> and
  \<open>findLoopR\<close>: it re-reads every member of the growing cluster, and is quadratic in the
  length of a visit (\<open>growVisitR_reads\<close>, \<open>stationary_reads\<close>).
\<close>

function skipScanC :: "dist_fn \<Rightarrow> 'm location_scheme list \<Rightarrow> coord \<Rightarrow> real \<Rightarrow> nat \<Rightarrow> nat \<Rightarrow> nat option \<times> nat" where
  "skipScanC distance locs c clusterRadius k hi =
     (if k < hi then
        (if distance c (coord (locs ! k)) \<le> clusterRadius then (Some k, 1)
         else apsnd Suc (skipScanC distance locs c clusterRadius (Suc k) hi))
      else (None, 0))"
  by pat_completeness auto
termination
  by (relation "measure (\<lambda>(_, _, _, _, k, hi). hi - k)") auto

declare skipScanC.simps [simp del]

text \<open>The evaluations of one call of \<open>trySkipTransientPoints\<close>.\<close>

definition trySkipCalls :: "dist_fn \<Rightarrow> 'm location_scheme list \<Rightarrow> nat \<Rightarrow> real \<Rightarrow> real \<Rightarrow> real \<Rightarrow> nat \<Rightarrow> nat" where
  "trySkipCalls distance workingLocations startIndex cLat cLon clusterRadius minTravelClusterSize =
     snd (skipScanC distance workingLocations (cLat, cLon) clusterRadius startIndex
            (min (startIndex + (minTravelClusterSize + 1)) (length workingLocations)))"

function growVisitC :: "dist_fn \<Rightarrow> 'm location_scheme list \<Rightarrow> real \<Rightarrow> nat \<Rightarrow> visit_state \<Rightarrow> visit_state \<times> nat" where
  "growVisitC distance locs clusterRadius minTravelClusterSize s =
     (if vj s < length locs then
        (if distance (vLat s, vLon s) (coord (locs ! vj s)) \<le> clusterRadius then
           apsnd Suc (growVisitC distance locs clusterRadius minTravelClusterSize (absorbPoint locs s))
         else
           (let skipResult = trySkipTransientPoints distance locs (vj s) (vLat s) (vLon s)
                               clusterRadius minTravelClusterSize;
                scanned = trySkipCalls distance locs (vj s) (vLat s) (vLon s) clusterRadius minTravelClusterSize
            in if shouldSkip skipResult
               then apsnd (\<lambda>n. Suc scanned + n)
                      (growVisitC distance locs clusterRadius minTravelClusterSize
                         (s\<lparr>vj := continueFromIndex skipResult\<rparr>))
               else (s, Suc scanned)))
      else (s, 0))"
  by pat_completeness auto
termination
  by (relation "measure (\<lambda>(_, locs, _, _, s). length locs - vj s)")
    (auto simp: absorbPoint_def Let_def dest: trySkip_continue_gt)

declare growVisitC.simps [simp del]

function findLoopC ::
  "dist_fn \<Rightarrow> 'm location_scheme list \<Rightarrow> real \<Rightarrow> nat \<Rightarrow> nat \<Rightarrow> nat \<Rightarrow> cluster list \<times> nat" where
  "findLoopC distance workingLocations clusterRadius minVisitClusterSize minTravelClusterSize i =
     (if i < length workingLocations then
        (let visitResult = tryCreateVisitCluster distance workingLocations i clusterRadius
                             minVisitClusterSize minTravelClusterSize;
             grown = snd (growVisitC distance workingLocations clusterRadius minTravelClusterSize
                            (visitSeed workingLocations i))
         in if success visitResult
            then map_prod (Cons (the (resultCluster visitResult))) ((+) grown)
                   (findLoopC distance workingLocations clusterRadius minVisitClusterSize
                      minTravelClusterSize (nextIndex visitResult))
            else
              (let travelCluster = createTravelCluster workingLocations i minVisitClusterSize
               in if pointIndices travelCluster = [] then ([travelCluster], grown)
                  else map_prod (Cons travelCluster) ((+) grown)
                         (findLoopC distance workingLocations clusterRadius minVisitClusterSize
                            minTravelClusterSize (Suc (last (pointIndices travelCluster))))))
      else ([], 0))"
  by pat_completeness auto
termination
  by (relation "measure (\<lambda>(_, locs, _, _, _, i). length locs - i)")
    (auto simp: createTravelCluster_def Let_def intro: Suc_le_lessD [OF tryCreate_nextIndex_gt] diff_less_mono2)

declare findLoopC.simps [simp del]

definition discoveryCalls :: "dist_fn \<Rightarrow> 'm location_scheme list \<Rightarrow> real \<Rightarrow> nat \<Rightarrow> nat \<Rightarrow> nat" where
  "discoveryCalls distance locations clusterRadius minVisitClusterSize minTravelClusterSize =
     (if length locations \<le> 1 then 0
      else snd (findLoopC distance locations clusterRadius minVisitClusterSize minTravelClusterSize 0))"

subsection \<open>The instrumented loops compute the loops of the model\<close>

lemma skipScanC_fst: "fst (skipScanC d locs c r k hi) = skipScan d locs c r k hi"
  by (induction d locs c r k hi rule: skipScanC.induct)
     (subst skipScanC.simps, subst skipScan.simps, simp)

lemma growVisitC_fst: "fst (growVisitC d locs r mt s) = growVisit d locs r mt s"
  by (induction d locs r mt s rule: growVisitC.induct)
     (subst growVisitC.simps, subst growVisit.simps, simp add: Let_def)

lemma findLoopC_fst: "fst (findLoopC d locs r mv mt i) = findLoop d locs r mv mt i"
  by (induction d locs r mv mt i rule: findLoopC.induct)
     (subst findLoopC.simps, subst findLoop.simps, simp add: Let_def)

subsection \<open>The lookahead\<close>

lemma skipScanC_snd_le: "snd (skipScanC d locs c r k hi) \<le> hi - k"
  by (induction d locs c r k hi rule: skipScanC.induct) (subst skipScanC.simps, auto)

lemma skipScanC_snd_Some:
  "skipScan d locs c r k hi = Some m \<Longrightarrow> snd (skipScanC d locs c r k hi) = Suc m - k"
proof (induction d locs c r k hi rule: skipScanC.induct)
  case (1 d locs c r k hi)
  show ?case
  proof (cases "k < hi \<and> \<not> d c (coord (locs ! k)) \<le> r")
    case True
    then have m: "skipScan d locs c r (Suc k) hi = Some m"
      using "1.prems" by (simp add: skipScan.simps [of d locs c r k hi])
    have "Suc k \<le> m" using skipScan_Some [OF m] by simp
    then show ?thesis using "1.IH" [OF conjunct1 [OF True] conjunct2 [OF True] m] True
      by (simp add: skipScanC.simps [of d locs c r k hi])
  next
    case False
    then show ?thesis using "1.prems"
      by (auto simp: skipScanC.simps [of d locs c r k hi] skipScan.simps [of d locs c r k hi] split: if_splits)
  qed
qed

lemma trySkipCalls_le: "trySkipCalls d locs j cLat cLon r mt \<le> Suc mt"
  using skipScanC_snd_le [of d locs "(cLat, cLon)" r j "min (j + (mt + 1)) (length locs)"]
  by (simp add: trySkipCalls_def)

lemma trySkipCalls_skip:
  assumes "shouldSkip (trySkipTransientPoints d locs j cLat cLon r mt)"
  shows "trySkipCalls d locs j cLat cLon r mt = Suc (continueFromIndex (trySkipTransientPoints d locs j cLat cLon r mt)) - j"
proof -
  have "skipScan d locs (cLat, cLon) r j (min (j + Suc mt) (length locs)) =
        Some (continueFromIndex (trySkipTransientPoints d locs j cLat cLon r mt))"
    using assms by (auto simp: trySkipTransientPoints_def split: option.splits)
  then show ?thesis by (simp add: trySkipCalls_def skipScanC_snd_Some)
qed

subsection \<open>Growing a visit\<close>

lemma grows_vj_le: "grows d locs r mt s s' \<Longrightarrow> vj s \<le> length locs \<Longrightarrow> vj s' \<le> length locs"
proof (induction rule: grows.induct)
  case (skip s s')
  then show ?case using trySkip_continue_gt [OF skip.hyps(3,2)] by simp
qed (simp_all add: absorbPoint_def Let_def)

lemma grows_length_mono:
  "grows d locs r mt s s' \<Longrightarrow> length (pointIndices (vcl s)) \<le> length (pointIndices (vcl s'))"
  using grows_indices by fastforce

lemma skip_cost_le:
  assumes "j < k" shows "Suc (Suc k - j) \<le> (k - j) * (mt + 3)"
proof -
  have "(k - j) * 3 \<le> (k - j) * (mt + 3)" by (rule mult_le_mono2) simp
  then show ?thesis using assms by linarith
qed

text \<open>Each evaluation is charged to an index the cursor passes: the loop makes at most
  \<open>mt + 3\<close> evaluations per index it advances over, plus one block at the end.\<close>

lemma growVisitC_cost:
  "snd (growVisitC d locs r mt s) \<le> (vj (growVisit d locs r mt s) + 1 - vj s) * (mt + 3)"
proof (induction d locs r mt s rule: growVisitC.induct)
  case (1 d locs r mt s)
  let ?t = "trySkipTransientPoints d locs (vj s) (vLat s) (vLon s) r mt"
  show ?case
  proof (cases "vj s < length locs")
    case False
    then show ?thesis by (simp add: growVisitC.simps [of d locs r mt s])
  next
    case lt: True
    show ?thesis
    proof (cases "d (vLat s, vLon s) (coord (locs ! vj s)) \<le> r")
      case close: True
      let ?s1 = "absorbPoint locs s"
      have "vj ?s1 \<le> vj (growVisit d locs r mt ?s1)"
        by (rule grows_vj_mono [OF growVisit_grows])
      moreover have v1: "vj ?s1 = Suc (vj s)" by (simp add: absorbPoint_def Let_def)
      ultimately have "Suc (vj (growVisit d locs r mt ?s1)) - vj s = Suc (vj (growVisit d locs r mt ?s1) - vj s)"
        by simp
      then show ?thesis using "1.IH"(1) [OF lt close] lt close v1
        by (simp add: growVisitC.simps [of d locs r mt s] growVisit.simps [of d locs r mt s])
    next
      case far: False
      show ?thesis
      proof (cases "shouldSkip ?t")
        case skip: True
        let ?k = "continueFromIndex ?t"
        let ?s1 = "s\<lparr>vj := ?k\<rparr>"
        let ?V = "vj (growVisit d locs r mt ?s1)"
        have gt: "vj s < ?k" using trySkip_continue_gt [OF skip far] by simp
        have "?k \<le> ?V" using grows_vj_mono [OF growVisit_grows [of d locs r mt ?s1]] by simp
        then have "(?V + 1 - vj s) * (mt + 3) = (?V + 1 - ?k) * (mt + 3) + (?k - vj s) * (mt + 3)"
          using gt by (simp add: add_mult_distrib [symmetric])
        moreover have "snd (growVisitC d locs r mt s) = Suc (Suc ?k - vj s) + snd (growVisitC d locs r mt ?s1)"
          using lt far skip trySkipCalls_skip [OF skip]
          by (simp add: growVisitC.simps [of d locs r mt s] Let_def)
        moreover have "snd (growVisitC d locs r mt ?s1) \<le> (?V + 1 - ?k) * (mt + 3)"
          using "1.IH"(2) [OF lt far refl refl skip] by simp
        moreover have "growVisit d locs r mt s = growVisit d locs r mt ?s1"
          using lt far skip by (simp add: growVisit.simps [of d locs r mt s] Let_def)
        ultimately show ?thesis using skip_cost_le [OF gt, of mt] by (simp only:)
      next
        case stop: False
        then show ?thesis using lt far trySkipCalls_le [of d locs "vj s" "vLat s" "vLon s" r mt]
          by (simp add: growVisitC.simps [of d locs r mt s] growVisit.simps [of d locs r mt s])
      qed
    qed
  qed
qed

text \<open>The same cost counted in absorbed points: each absorbed point pays for itself and for
  the lookahead that found it; when the next point is absorbed, its cost is already paid.\<close>

definition absorbsNext :: "dist_fn \<Rightarrow> 'm location_scheme list \<Rightarrow> real \<Rightarrow> visit_state \<Rightarrow> bool" where
  "absorbsNext d locs r s \<longleftrightarrow> vj s < length locs \<and> d (vLat s, vLon s) (coord (locs ! vj s)) \<le> r"

lemma growVisitC_cost_absorbed:
  "snd (growVisitC d locs r mt s) + (if absorbsNext d locs r s then mt + 3 else 0)
   \<le> (2 * (length (pointIndices (vcl (growVisit d locs r mt s)))
         - length (pointIndices (vcl s))) + 1) * (mt + 3)"
proof (induction d locs r mt s rule: growVisitC.induct)
  case (1 d locs r mt s)
  let ?t = "trySkipTransientPoints d locs (vj s) (vLat s) (vLon s) r mt"
  let ?L = "\<lambda>s. length (pointIndices (vcl s))"
  show ?case
  proof (cases "vj s < length locs")
    case False
    then show ?thesis by (simp add: growVisitC.simps [of d locs r mt s] absorbsNext_def)
  next
    case lt: True
    show ?thesis
    proof (cases "d (vLat s, vLon s) (coord (locs ! vj s)) \<le> r")
      case close: True
      let ?s1 = "absorbPoint locs s"
      let ?A = "?L (growVisit d locs r mt ?s1) - ?L ?s1"
      have l1: "?L ?s1 = Suc (?L s)" by (simp add: absorbPoint_def Let_def)
      have "?L ?s1 \<le> ?L (growVisit d locs r mt ?s1)"
        by (rule grows_length_mono [OF growVisit_grows])
      then have "2 * (?L (growVisit d locs r mt ?s1) - ?L s) + 1 = (2 * ?A + 1) + 2"
        using l1 by simp
      then have "(2 * (?L (growVisit d locs r mt ?s1) - ?L s) + 1) * (mt + 3) =
                 (2 * ?A + 1) * (mt + 3) + 2 * (mt + 3)"
        by (simp only: add_mult_distrib)
      moreover have "snd (growVisitC d locs r mt ?s1) \<le> (2 * ?A + 1) * (mt + 3)"
        using "1.IH"(1) [OF lt close] by simp
      moreover have "snd (growVisitC d locs r mt s) = Suc (snd (growVisitC d locs r mt ?s1))"
        using lt close by (simp add: growVisitC.simps [of d locs r mt s])
      moreover have "growVisit d locs r mt s = growVisit d locs r mt ?s1"
        using lt close by (simp add: growVisit.simps [of d locs r mt s])
      ultimately show ?thesis using lt close by (simp add: absorbsNext_def)
    next
      case far: False
      show ?thesis
      proof (cases "shouldSkip ?t")
        case skip: True
        let ?s1 = "s\<lparr>vj := continueFromIndex ?t\<rparr>"
        have "absorbsNext d locs r ?s1"
          using trySkip_shouldSkip [OF skip] by (simp add: absorbsNext_def)
        then have "snd (growVisitC d locs r mt ?s1) + (mt + 3) \<le>
                   (2 * (?L (growVisit d locs r mt ?s1) - ?L s) + 1) * (mt + 3)"
          using "1.IH"(2) [OF lt far refl refl skip] by simp
        moreover have "snd (growVisitC d locs r mt s) =
                       Suc (trySkipCalls d locs (vj s) (vLat s) (vLon s) r mt) + snd (growVisitC d locs r mt ?s1)"
          using lt far skip by (simp add: growVisitC.simps [of d locs r mt s] Let_def)
        moreover have "growVisit d locs r mt s = growVisit d locs r mt ?s1"
          using lt far skip by (simp add: growVisit.simps [of d locs r mt s] Let_def)
        ultimately show ?thesis
          using far trySkipCalls_le [of d locs "vj s" "vLat s" "vLon s" r mt]
          by (simp add: absorbsNext_def)
      next
        case stop: False
        then show ?thesis using lt far trySkipCalls_le [of d locs "vj s" "vLat s" "vLon s" r mt]
          by (simp add: growVisitC.simps [of d locs r mt s] growVisit.simps [of d locs r mt s] absorbsNext_def)
      qed
    qed
  qed
qed

subsection \<open>The discovery loop\<close>

lemma cost_split:
  assumes "i \<le> m" and "m \<le> (n::nat)" and "a \<le> (m - i) * K" and "b \<le> (n - m) * K"
  shows "a + b \<le> (n - i) * K"
proof -
  have "n - i = (m - i) + (n - m)" using assms(1,2) by simp
  then have "(n - i) * K = (m - i) * K + (n - m) * K" by (simp only: add_mult_distrib)
  then show ?thesis using assms(3,4) by linarith
qed

lemma cost_one:
  assumes "a \<le> (K::nat)" and "i < m" shows "a \<le> (m - i) * K"
proof -
  obtain k where "m - i = Suc k" using assms(2) by (cases "m - i") auto
  then show ?thesis using assms(1) by simp
qed

lemma visit_attempt_cost:
  assumes "i < length locs"
  shows "success (tryCreateVisitCluster d locs i r mv mt) \<Longrightarrow>
           snd (growVisitC d locs r mt (visitSeed locs i)) \<le> (nextIndex (tryCreateVisitCluster d locs i r mv mt) - i) * (mt + 3)"
    and "\<not> success (tryCreateVisitCluster d locs i r mv mt) \<Longrightarrow> snd (growVisitC d locs r mt (visitSeed locs i)) \<le> (2 * mv + 1) * (mt + 3)"
proof -
  let ?g = "growVisit d locs r mt (visitSeed locs i)"
  have seed: "vj (visitSeed locs i) = Suc i" "length (pointIndices (vcl (visitSeed locs i))) = 1"
    by (simp_all add: visitSeed_def Let_def)
  show "snd (growVisitC d locs r mt (visitSeed locs i)) \<le> (nextIndex (tryCreateVisitCluster d locs i r mv mt) - i) * (mt + 3)"
    using growVisitC_cost [of d locs r mt "visitSeed locs i"] seed
    by (simp add: tryCreateVisitCluster_def Let_def)
  assume "\<not> success (tryCreateVisitCluster d locs i r mv mt)"
  then have "length (pointIndices (vcl ?g)) < mv" by (rule tryCreate_failure(1) [OF assms(1)])
  then have "2 * (length (pointIndices (vcl ?g)) - 1) + 1 \<le> 2 * mv + 1" by simp
  then have "(2 * (length (pointIndices (vcl ?g)) - 1) + 1) * (mt + 3) \<le> (2 * mv + 1) * (mt + 3)"
    by (rule mult_le_mono1)
  moreover have "snd (growVisitC d locs r mt (visitSeed locs i)) +
      (if absorbsNext d locs r (visitSeed locs i) then mt + 3 else 0)
      \<le> (2 * (length (pointIndices (vcl ?g)) - 1) + 1) * (mt + 3)"
    using growVisitC_cost_absorbed [of d locs r mt "visitSeed locs i"] by (simp only: seed(2))
  ultimately show "snd (growVisitC d locs r mt (visitSeed locs i)) \<le> (2 * mv + 1) * (mt + 3)"
    by linarith
qed

lemma nextIndex_le_length:
  "i < length locs \<Longrightarrow> nextIndex (tryCreateVisitCluster d locs i r mv mt) \<le> length locs"
  using grows_vj_le [OF growVisit_grows [of d locs r mt "visitSeed locs i"]]
  by (simp add: tryCreateVisitCluster_def Let_def visitSeed_def)

text \<open>Every attempt of the loop is paid by the indices it consumes, at
  \<open>(2 * minVisitClusterSize + 1) * (minTravelClusterSize + 3)\<close> evaluations each.\<close>

lemma findLoopC_cost:
  "snd (findLoopC d locs r mv mt i) \<le> (length locs - i) * ((2 * mv + 1) * (mt + 3))"
proof (induction d locs r mv mt i rule: findLoopC.induct)
  case (1 d locs r mv mt i)
  let ?K = "(2 * mv + 1) * (mt + 3)"
  let ?v = "tryCreateVisitCluster d locs i r mv mt"
  let ?grown = "snd (growVisitC d locs r mt (visitSeed locs i))"
  have K: "mt + 3 \<le> ?K" by simp
  show ?case
  proof (cases "i < length locs")
    case False
    then show ?thesis by (simp add: findLoopC.simps [of d locs r mv mt i])
  next
    case lt: True
    show ?thesis
    proof (cases "success ?v")
      case True
      have a: "?grown \<le> (nextIndex ?v - i) * ?K"
        using visit_attempt_cost(1) [OF lt True] mult_le_mono2 [OF K] le_trans by blast
      have eq: "snd (findLoopC d locs r mv mt i) = ?grown + snd (findLoopC d locs r mv mt (nextIndex ?v))"
        using lt True by (simp add: findLoopC.simps [of d locs r mv mt i] Let_def)
      have le: "i \<le> nextIndex ?v" using tryCreate_nextIndex_gt [of i d locs r mv mt] by simp
      show ?thesis unfolding eq
        by (rule cost_split [OF le nextIndex_le_length [OF lt] a "1.IH"(1) [OF lt refl refl True]])
    next
      case False
      let ?t = "createTravelCluster locs i mv"
      have mv: "2 \<le> mv" by (rule tryCreate_failure(2) [OF lt False])
      let ?m = "min (i + (mv - 1)) (length locs)"
      have im: "i < ?m" using lt mv by simp
      have t: "pointIndices ?t = [i..<?m]" by (rule createTravelCluster_shape(1) [OF lt mv])
      then have ne: "pointIndices ?t \<noteq> []" and last: "Suc (last (pointIndices ?t)) = ?m"
        using im by auto
      have "?grown \<le> (?m - i) * ?K"
        using cost_one [OF visit_attempt_cost(2) [OF lt False] im] .
      moreover have "snd (findLoopC d locs r mv mt i) = ?grown + snd (findLoopC d locs r mv mt ?m)"
        using lt False ne last by (simp add: findLoopC.simps [of d locs r mv mt i] Let_def)
      ultimately show ?thesis
        using cost_split [of i ?m "length locs" ?grown ?K] "1.IH"(2) [OF lt refl refl False refl ne] im last
        by simp
    qed
  qed
qed

subsection \<open>The centroid recomputation\<close>

text \<open>
  Each absorption recomputes the centre from scratch (lines 250--257): the two \<open>map\<close>s
  read the coordinates of every member of the cluster, the new point included, and the
  two \<open>reduce\<close>s sum them. \<open>growVisitR\<close> and \<open>findLoopR\<close> are \<open>growVisit\<close> and
  \<open>findLoop\<close> instrumented with the number of members re-read, \<open>k\<close> for an absorption
  that makes the cluster \<open>k\<close> points long (the four passes over the \<open>k\<close> members are a
  constant factor of it).
\<close>

function growVisitR :: "dist_fn \<Rightarrow> 'm location_scheme list \<Rightarrow> real \<Rightarrow> nat \<Rightarrow> visit_state \<Rightarrow> visit_state \<times> nat" where
  "growVisitR distance locs clusterRadius minTravelClusterSize s =
     (if vj s < length locs then
        (if distance (vLat s, vLon s) (coord (locs ! vj s)) \<le> clusterRadius then
           apsnd ((+) (Suc (length (pointIndices (vcl s)))))
             (growVisitR distance locs clusterRadius minTravelClusterSize (absorbPoint locs s))
         else
           (let skipResult = trySkipTransientPoints distance locs (vj s) (vLat s) (vLon s)
                               clusterRadius minTravelClusterSize
            in if shouldSkip skipResult
               then growVisitR distance locs clusterRadius minTravelClusterSize
                      (s\<lparr>vj := continueFromIndex skipResult\<rparr>)
               else (s, 0)))
      else (s, 0))"
  by pat_completeness auto
termination
  by (relation "measure (\<lambda>(_, locs, _, _, s). length locs - vj s)")
    (auto simp: absorbPoint_def Let_def dest: trySkip_continue_gt)

declare growVisitR.simps [simp del]

function findLoopR ::
  "dist_fn \<Rightarrow> 'm location_scheme list \<Rightarrow> real \<Rightarrow> nat \<Rightarrow> nat \<Rightarrow> nat \<Rightarrow> cluster list \<times> nat" where
  "findLoopR distance workingLocations clusterRadius minVisitClusterSize minTravelClusterSize i =
     (if i < length workingLocations then
        (let visitResult = tryCreateVisitCluster distance workingLocations i clusterRadius
                             minVisitClusterSize minTravelClusterSize;
             reads = snd (growVisitR distance workingLocations clusterRadius minTravelClusterSize
                            (visitSeed workingLocations i))
         in if success visitResult
            then map_prod (Cons (the (resultCluster visitResult))) ((+) reads)
                   (findLoopR distance workingLocations clusterRadius minVisitClusterSize
                      minTravelClusterSize (nextIndex visitResult))
            else
              (let travelCluster = createTravelCluster workingLocations i minVisitClusterSize
               in if pointIndices travelCluster = [] then ([travelCluster], reads)
                  else map_prod (Cons travelCluster) ((+) reads)
                         (findLoopR distance workingLocations clusterRadius minVisitClusterSize
                            minTravelClusterSize (Suc (last (pointIndices travelCluster))))))
      else ([], 0))"
  by pat_completeness auto
termination
  by (relation "measure (\<lambda>(_, locs, _, _, _, i). length locs - i)")
    (auto simp: createTravelCluster_def Let_def intro: Suc_le_lessD [OF tryCreate_nextIndex_gt] diff_less_mono2)

declare findLoopR.simps [simp del]

definition discoveryReads :: "dist_fn \<Rightarrow> 'm location_scheme list \<Rightarrow> real \<Rightarrow> nat \<Rightarrow> nat \<Rightarrow> nat" where
  "discoveryReads distance locations clusterRadius minVisitClusterSize minTravelClusterSize =
     (if length locations \<le> 1 then 0
      else snd (findLoopR distance locations clusterRadius minVisitClusterSize minTravelClusterSize 0))"

lemma growVisitR_fst: "fst (growVisitR d locs r mt s) = growVisit d locs r mt s"
  by (induction d locs r mt s rule: growVisitR.induct)
     (subst growVisitR.simps, subst growVisit.simps, simp add: Let_def)

lemma findLoopR_fst: "fst (findLoopR d locs r mv mt i) = findLoop d locs r mv mt i"
  by (induction d locs r mv mt i rule: findLoopR.induct)
     (subst findLoopR.simps, subst findLoop.simps, simp add: Let_def growVisitR_fst)

text \<open>Growing a visit from \<open>k0\<close> to \<open>k\<close> members re-reads \<open>(k0 + 1) + \<dots> + k\<close> members.\<close>

lemma growVisitR_reads:
  "snd (growVisitR d locs r mt s) =
     (\<Sum>m = Suc (length (pointIndices (vcl s)))..length (pointIndices (vcl (growVisit d locs r mt s))). m)"
proof (induction d locs r mt s rule: growVisitR.induct)
  case (1 d locs r mt s)
  let ?L = "\<lambda>s. length (pointIndices (vcl s))"
  show ?case
  proof (cases "vj s < length locs \<and> d (vLat s, vLon s) (coord (locs ! vj s)) \<le> r")
    case True
    let ?s1 = "absorbPoint locs s"
    have l1: "?L ?s1 = Suc (?L s)" by (simp add: absorbPoint_def Let_def)
    have "?L ?s1 \<le> ?L (growVisit d locs r mt ?s1)"
      by (rule grows_length_mono [OF growVisit_grows])
    then have "(\<Sum>m = Suc (?L s)..?L (growVisit d locs r mt ?s1). m) =
               Suc (?L s) + (\<Sum>m = Suc (Suc (?L s))..?L (growVisit d locs r mt ?s1). m)"
      using l1 by (simp add: sum.atLeast_Suc_atMost)
    then show ?thesis using "1.IH"(1) True l1
      by (simp add: growVisitR.simps [of d locs r mt s] growVisit.simps [of d locs r mt s])
  next
    case False
    then show ?thesis using "1.IH"(2)
      by (auto simp: growVisitR.simps [of d locs r mt s] growVisit.simps [of d locs r mt s] Let_def)
  qed
qed

lemma sum_two_le_square: "(\<Sum>m = 2..k. m) \<le> k * (k::nat)"
proof -
  have "(\<Sum>m = 2..k. m) \<le> (\<Sum>m = 2..k. k)" by (rule sum_mono) simp
  also have "\<dots> \<le> k * k" by (simp add: mult_le_mono1)
  finally show ?thesis .
qed

text \<open>A visit attempt from the seed re-reads \<open>2 + \<dots> + k\<close> members, \<open>k\<close> the size of the
  grown cluster, whether or not the attempt succeeds.\<close>

lemma seed_reads:
  "snd (growVisitR d locs r mt (visitSeed locs i)) =
     (\<Sum>m = 2..length (pointIndices (vcl (growVisit d locs r mt (visitSeed locs i)))). m)"
  by (simp add: growVisitR_reads visitSeed_def Let_def numeral_2_eq_2)

lemma findLoopR_visit_reads:
  "(\<Sum>c\<leftarrow>filter (\<lambda>c. ctype c = Visit) (findLoop d locs r mv mt i). \<Sum>m = 2..length (pointIndices c). m)
   \<le> snd (findLoopR d locs r mv mt i)"
proof (induction d locs r mv mt i rule: findLoopR.induct)
  case (1 d locs r mv mt i)
  let ?v = "tryCreateVisitCluster d locs i r mv mt"
  let ?g = "growVisit d locs r mt (visitSeed locs i)"
  let ?reads = "snd (growVisitR d locs r mt (visitSeed locs i))"
  show ?case
  proof (cases "i < length locs")
    case False
    then show ?thesis by (simp add: findLoop_beyond)
  next
    case lt: True
    show ?thesis
    proof (cases "success ?v")
      case True
      have c: "the (resultCluster ?v) = (vcl ?g)\<lparr>centerLat := Some (vLat ?g), centerLon := Some (vLon ?g)\<rparr>"
        and n: "nextIndex ?v = vj ?g"
        using True by (simp_all add: tryCreateVisitCluster_def Let_def split: if_splits)
      have vis: "ctype (vcl ?g) = Visit" using growVisit_seed_frame [OF lt, of d r mt] by simp
      show ?thesis using "1.IH"(1) [OF lt refl refl True] lt True c vis
        by (simp add: findLoop.simps [of d locs r mv mt i] findLoopR.simps [of d locs r mv mt i] seed_reads)
    next
      case False
      then show ?thesis using "1.IH"(2) [OF lt refl refl False refl] lt
        by (auto simp: findLoop.simps [of d locs r mv mt i] findLoopR.simps [of d locs r mv mt i] Let_def
              createTravelCluster_def)
    qed
  qed
qed

text \<open>The members of a grown cluster lie between its start and the cursor, so the reads of an
  attempt are paid by the indices it consumes, at \<open>n\<close> reads each.\<close>

lemma seed_length_le:
  assumes "i < length locs"
  shows "length (pointIndices (vcl (growVisit d locs r mt (visitSeed locs i)))) \<le>
           vj (growVisit d locs r mt (visitSeed locs i)) - i"
  using wf_indices_length [OF growVisit_seed_wf [OF assms]] growVisit_seed_hd [OF assms]
    growVisit_seed_next [OF assms] by simp

lemma reads_le_consumed:
  assumes "k \<le> m - i" and "k \<le> n" shows "(\<Sum>x = 2..k. x) \<le> (m - i) * (n::nat)"
  using sum_two_le_square [of k] mult_le_mono [OF assms] by linarith

lemma findLoopR_reads_le: "snd (findLoopR d locs r mv mt i) \<le> (length locs - i) * length locs"
proof (induction d locs r mv mt i rule: findLoopR.induct)
  case (1 d locs r mv mt i)
  let ?v = "tryCreateVisitCluster d locs i r mv mt"
  let ?g = "growVisit d locs r mt (visitSeed locs i)"
  let ?k = "length (pointIndices (vcl ?g))"
  let ?reads = "snd (growVisitR d locs r mt (visitSeed locs i))"
  let ?n = "length locs"
  show ?case
  proof (cases "i < ?n")
    case False
    then show ?thesis by (simp add: findLoopR.simps [of d locs r mv mt i])
  next
    case lt: True
    have kle: "?k \<le> vj ?g - i" by (rule seed_length_le [OF lt])
    have vjle: "vj ?g \<le> ?n" using nextIndex_le_length [OF lt, of d r mv mt]
      by (simp add: tryCreateVisitCluster_def Let_def split: if_splits)
    show ?thesis
    proof (cases "success ?v")
      case True
      have n: "nextIndex ?v = vj ?g" by (simp add: tryCreateVisitCluster_def Let_def split: if_splits)
      have a: "?reads \<le> (nextIndex ?v - i) * ?n"
        unfolding seed_reads n using kle vjle by (intro reads_le_consumed) simp_all
      have eq: "snd (findLoopR d locs r mv mt i) = ?reads + snd (findLoopR d locs r mv mt (nextIndex ?v))"
        using lt True by (simp add: findLoopR.simps [of d locs r mv mt i] Let_def)
      have le: "i \<le> nextIndex ?v" using tryCreate_nextIndex_gt [of i d locs r mv mt] by simp
      show ?thesis unfolding eq
        by (rule cost_split [OF le nextIndex_le_length [OF lt] a "1.IH"(1) [OF lt refl refl True]])
    next
      case False
      let ?t = "createTravelCluster locs i mv"
      have mv: "2 \<le> mv" and kmv: "?k < mv" using tryCreate_failure [OF lt False] by simp_all
      let ?m = "min (i + (mv - 1)) ?n"
      have im: "i < ?m" using lt mv by simp
      have t: "pointIndices ?t = [i..<?m]" by (rule createTravelCluster_shape(1) [OF lt mv])
      then have ne: "pointIndices ?t \<noteq> []" and last: "Suc (last (pointIndices ?t)) = ?m"
        using im by auto
      have "?k \<le> ?m - i" using kle kmv vjle by linarith
      then have a: "?reads \<le> (?m - i) * ?n"
        unfolding seed_reads using kle vjle by (intro reads_le_consumed) simp_all
      moreover have "snd (findLoopR d locs r mv mt i) = ?reads + snd (findLoopR d locs r mv mt ?m)"
        using lt False ne last by (simp add: findLoopR.simps [of d locs r mv mt i] Let_def)
      ultimately show ?thesis
        using cost_split [of i ?m ?n ?reads ?n] "1.IH"(2) [OF lt refl refl False refl ne] im last
        by simp
    qed
  qed
qed

text \<open>A device that never moves re-reads \<open>2 + \<dots> + n\<close> members for its \<open>n\<close> points: the
  centroid work of one dwell is quadratic in its length.\<close>

lemma stationary_reads:
  assumes "2 \<le> length locs" and "\<forall>k<length locs. coord (locs ! k) = x" and "d x x \<le> r"
    and "mv \<le> length locs"
  shows "(\<Sum>m = 2..length locs. m) \<le> discoveryReads d locs r mv mt"
proof -
  obtain c where c: "findLocationClusters d locs r mv mt = [c]" "ctype c = Visit"
    "pointIndices c = [0..<length locs]"
    using findLocationClusters_stationary [of locs x d r mv mt] assms by metis
  then show ?thesis
    using findLoopR_visit_reads [of d locs r mv mt 0] assms(1)
    by (simp add: discoveryReads_def findLocationClusters_def split: if_splits)
qed

text \<open>
  C29. The cost of discovery, against the spec's claim (section 5) that the runtime is
  linear. On \<open>n\<close> points \<open>findLocationClusters\<close> evaluates the distance at most
  \<open>n * ((2 * minVisitClusterSize + 1) * (minTravelClusterSize + 3))\<close> times, because the
  lookahead of \<open>trySkipTransientPoints\<close> is capped at \<open>minTravelClusterSize + 1\<close> points:
  that part is linear. The recomputation of the centre is not: a visit of \<open>k\<close> points
  re-reads \<open>2 + \<dots> + k\<close> members, so the members re-read are at least that sum over the
  visits found, and at most \<open>n * n\<close>.
\<close>

theorem discovery_cost:
  "discoveryCalls d locs r mv mt \<le> length locs * ((2 * mv + 1) * (mt + 3)) \<and>
   (\<Sum>c\<leftarrow>filter (\<lambda>c. ctype c = Visit) (findLocationClusters d locs r mv mt).
      \<Sum>m = 2..length (pointIndices c). m) \<le> discoveryReads d locs r mv mt \<and>
   discoveryReads d locs r mv mt \<le> length locs * length locs"
  using findLoopC_cost [of d locs r mv mt 0] findLoopR_visit_reads [of d locs r mv mt 0]
    findLoopR_reads_le [of d locs r mv mt 0]
  by (simp add: discoveryCalls_def discoveryReads_def findLocationClusters_def)

end
