(* ===== verification/Debug.thy ===== *)
theory Debug
  imports Pipeline Enclosure
begin

text \<open>
  The debug script \<open>src/debug_real_data.js\<close>. It runs the enhancer on 30 points
  recorded by a phone (\<open>realData\<close>, line 7), first through the full pipeline
  \<open>enhanceLocationData\<close>, then through the raw discovery \<open>findLocationClusters\<close>
  with radius 25 m, and prints the counts, the clusters and some distances.
  \<^item> A point of the data is \<open>realPoint\<close>. The fields the enhancer and the script read
    (\<open>lat\<close>, \<open>lon\<close>, \<open>tst\<close>, \<open>acc\<close> and the four \<open>node_event_*\<close> fields, all \<open>null\<close>)
    are modelled; the other fields of the recorder (\<open>alt\<close>, \<open>ghash\<close>, \<open>isotst\<close>, \<dots>)
    are read by nothing and left out. The data has no \<open>timestamp\<close> field.
  \<^item> The printed output is the record \<open>debug_report\<close>, and \<open>debugReport\<close> is the
    whole script, \<open>None\<close> where the script would throw.
  \<^item> The distance comparisons of discovery on this data are decided by the rules
    \<open>debug_within_eq\<close> and \<open>debug_beyond_eq\<close>, instances of the enclosures of
    \<open>Enclosure\<close> for latitudes between 55.87 and 55.89 degrees.
\<close>

definition realPoint :: "real \<Rightarrow> real \<Rightarrow> int \<Rightarrow> real \<Rightarrow> location" where
  "realPoint la lo t a =
     \<lparr>lat = la, lon = lo, tst = Some t, timestamp = None, acc = Some a,
      node_event_type = None, node_event_id = None, node_event_start = None, node_event_end = None\<rparr>"

definition realData :: "location list" where
  "realData =
    [realPoint 55.8766864 12.8333159 1751300522 7.256999969482422,
     realPoint 55.8768547 12.8331671 1751300654 4.75,
     realPoint 55.8750395 12.8298282 1751301508 38.15000152587891,
     realPoint 55.8777671 12.8337622 1751301518 72.71700286865234,
     realPoint 55.8767888 12.8332181 1751301646 3.819000005722046,
     realPoint 55.8766651 12.8332079 1751301833 12.86999988555908,
     realPoint 55.876662 12.8331931 1751301870 10.94799995422363,
     realPoint 55.8766776 12.8332084 1751301911 11.79100036621094,
     realPoint 55.8766729 12.8332084 1751303047 106,
     realPoint 55.8766657 12.8332055 1751303346 12.72799968719482,
     realPoint 55.8766776 12.8332084 1751304443 114.25,
     realPoint 55.876685 12.8332004 1751305051 100,
     realPoint 55.8767778 12.8334445 1751305605 25.97500038146973,
     realPoint 55.876875 12.8330749 1751305620 6.420000076293945,
     realPoint 55.8770245 12.8331474 1751305650 23.625,
     realPoint 55.8817579 12.8326035 1751305824 96.54199981689453,
     realPoint 55.876745 12.8333918 1751306318 100,
     realPoint 55.8766576 12.8331965 1751306589 10.98099994659424,
     realPoint 55.8766576 12.8331965 1751306978 28.23099899291992,
     realPoint 55.8767402 12.8333039 1751308361 9.336999893188477,
     realPoint 55.8716271 12.8288255 1751308920 194.5,
     realPoint 55.8751071 12.8398476 1751308965 294.77099609375,
     realPoint 55.8765212 12.8400815 1751309047 70.75,
     realPoint 55.8772504 12.8332371 1751309226 35.19400024414062,
     realPoint 55.8775978 12.8331219 1751309638 392.5,
     realPoint 55.8766628 12.8332062 1751310576 82.68499755859375,
     realPoint 55.8767063 12.8332652 1751311211 380.0039978027344,
     realPoint 55.8750371 12.829815 1751311667 82.5,
     realPoint 55.8766702 12.8332104 1751312586 152.3049926757812,
     realPoint 55.8766702 12.8332104 1751312917 184.75]"

text \<open>The console output of the script (lines 9--73), one field per printed quantity;
  the \<open>toFixed\<close> formatting of the numbers is not modelled.\<close>

record debug_report =
  inputCount :: nat
  outputCount :: nat
  visitCount :: nat
  travelCount :: nat
  clusterSummary :: "(kind \<times> nat) list"
  mainCandidates :: nat
  mainDistances :: "real list"

definition debugTestHistory :: "unit history" where
  "debugTestHistory = [(''testUser'', [(''testDevice'', realData)])]"

text \<open>\<open>[...realData].sort((a, b) => a.tst - b.tst)\<close> (line 49): a stable sort by
  \<open>tst\<close>, which every point of the data has.\<close>

definition debugSortedData :: "location list" where
  "debugSortedData = sort_key (\<lambda>p. the (tst p)) realData"

definition debugClusters :: "cluster list" where
  "debugClusters =
     (let CLUSTER_RADIUS = 25; MIN_VISIT_CLUSTER_SIZE = 3; MIN_TRAVEL_CLUSTER_SIZE = 5
      in findLocationClusters calculateDistanceInMeters debugSortedData CLUSTER_RADIUS
           MIN_VISIT_CLUSTER_SIZE MIN_TRAVEL_CLUSTER_SIZE)"

definition mainClusterPoints :: "location list" where
  "mainClusterPoints =
     filter (\<lambda>p. 55.8766 \<le> lat p \<and> lat p \<le> 55.8778 \<and> 12.833 \<le> lon p \<and> lon p \<le> 12.834) realData"

text \<open>The loop of lines 70--73: \<open>Math.min(5, n - 1)\<close> is \<open>-1\<close> for \<open>n = 0\<close>, where the
  loop does not run, as with \<open>min 5 (n - 1) = 0\<close> on \<open>nat\<close>.\<close>

definition mainClusterDistances :: "real list" where
  "mainClusterDistances =
     map (\<lambda>i. calculateDistanceInMeters (coord (mainClusterPoints ! i)) (coord (mainClusterPoints ! Suc i)))
       [0..<min 5 (length mainClusterPoints - 1)]"

text \<open>The whole script. \<open>enhanceLocationData(testHistory)\<close> (line 20) passes no
  configuration, so the default \<open>{}\<close> applies. \<open>result.testUser.testDevice\<close> throws
  when the user or the device is missing: that is \<open>None\<close>.\<close>

definition debugReport :: "debug_report option" where
  "debugReport =
     (case device_points (enhanceLocationData debugTestHistory default_config) ''testUser'' ''testDevice'' of
        None \<Rightarrow> None
      | Some processedPoints \<Rightarrow>
          Some \<lparr>inputCount = length realData,
                outputCount = length processedPoints,
                visitCount = length (filter (\<lambda>p. node_event_type p = Some Visit) processedPoints),
                travelCount = length (filter (\<lambda>p. node_event_type p = Some Travel) processedPoints),
                clusterSummary = map (\<lambda>c. (ctype c, length (pointIndices c))) debugClusters,
                mainCandidates = length mainClusterPoints,
                mainDistances = mainClusterDistances\<rparr>)"

text \<open>Statement-level abstraction (not code): the indices of the visit that discovery finds
  on the data.\<close>

definition debug_visit_indices :: "nat list" where
  "debug_visit_indices = [0, 1, 4, 5, 6, 7, 8, 9, 10, 11, 12, 13, 16, 17, 18, 19, 25, 26, 28, 29]"

subsection \<open>Deciding the distance comparisons of the data\<close>

text \<open>All points of the data, and so all cluster centres, have latitudes between 55.87 and
  55.89 degrees. There the cosine of the latitude lies between \<open>0.52\<close> and \<open>0.563\<close>.\<close>

lemma cos_band_upper: "cos (5587 / 100 * pi / 180) \<le> 563 / 1000"
  by (rule cos_lat_le) (simp_all add: eval_nat_numeral)

lemma cos_band_lower: "13 / 25 \<le> cos (5589 / 100 * pi / 180)"
  by (rule cos_lat_ge) (simp_all add: eval_nat_numeral)

lemma debug_within:
  assumes "5587 / 100 \<le> fst p" "fst p \<le> 5589 / 100" "5587 / 100 \<le> fst q" "fst q \<le> 5589 / 100"
    and "dist_upper (563 / 1000) p q * (4 * 6371000\<^sup>2 + 25\<^sup>2) \<le> 25\<^sup>2"
  shows "calculateDistanceInMeters p q \<le> 25"
  using assms by (intro distance_within [OF _ _ _ _ _ cos_band_upper]) simp_all

lemma debug_beyond:
  assumes "5587 / 100 \<le> fst p" "fst p \<le> 5589 / 100" "5587 / 100 \<le> fst q" "fst q \<le> 5589 / 100"
    and "(25025 / 12742000000)\<^sup>2 \<le> dist_lower (13 / 25) p q"
  shows "\<not> calculateDistanceInMeters p q \<le> 25"
  using assms by (intro distance_beyond [OF _ _ _ _ _ _ cos_band_lower, where w = "25025 / 12742000000"])
    (simp_all add: eval_nat_numeral)

lemma debug_within_eq:
  "5587 / 100 \<le> fst p \<Longrightarrow> fst p \<le> 5589 / 100 \<Longrightarrow> 5587 / 100 \<le> fst q \<Longrightarrow> fst q \<le> 5589 / 100 \<Longrightarrow>
   dist_upper (563 / 1000) p q * (4 * 6371000\<^sup>2 + 25\<^sup>2) \<le> 25\<^sup>2 \<Longrightarrow>
   (calculateDistanceInMeters p q \<le> 25) = True"
  using debug_within by simp

lemma debug_beyond_eq:
  "5587 / 100 \<le> fst p \<Longrightarrow> fst p \<le> 5589 / 100 \<Longrightarrow> 5587 / 100 \<le> fst q \<Longrightarrow> fst q \<le> 5589 / 100 \<Longrightarrow>
   (25025 / 12742000000)\<^sup>2 \<le> dist_lower (13 / 25) p q \<Longrightarrow>
   (calculateDistanceInMeters p q \<le> 25) = False"
  using debug_beyond by simp

subsection \<open>What the script prints\<close>

lemma debugSortedData_eq: "debugSortedData = realData"
  unfolding debugSortedData_def by (rule sort_key_id_if_sorted) (simp add: realData_def realPoint_def)

lemma mainClusterPoints_length: "length mainClusterPoints = 24"
  by (simp add: mainClusterPoints_def realData_def realPoint_def)

lemma debug_pipeline_points:
  "device_points (enhanceLocationData debugTestHistory default_config) ''testUser'' ''testDevice'' = Some realData"
  by (simp add: enhanceLocationData_def default_config_def debugTestHistory_def device_points_def
      resetHistory_def realData_def realPoint_def resetEventMetadata_def)

lemma debug_grow:
  "growVisit calculateDistanceInMeters realData 25 5 (visitSeed realData 0) =
     \<lparr>vcl = \<lparr>ctype = Visit, pointIndices = debug_visit_indices, startTime = 1751300522,
              endTime = 1751312917, centerLat = None, centerLon = None,
              travelStartTime = None, travelEndTime = None\<rparr>,
      vLat = mean (map (\<lambda>i. lat (realData ! i)) debug_visit_indices),
      vLon = mean (map (\<lambda>i. lon (realData ! i)) debug_visit_indices), vj = 30\<rparr>"
  by (simp add: realData_def realPoint_def visitSeed_def growVisit.simps absorbPoint_def Let_def
      trySkipTransientPoints_def skipScan.simps mean_def debug_within_eq debug_beyond_eq
      dist_upper_def dist_lower_def sin_lower_def eval_nat_numeral debug_visit_indices_def point_time_def)

lemma debugClusters_eq:
  "debugClusters =
     [\<lparr>ctype = Visit, pointIndices = debug_visit_indices, startTime = 1751300522, endTime = 1751312917,
       centerLat = Some (mean (map (\<lambda>i. lat (realData ! i)) debug_visit_indices)),
       centerLon = Some (mean (map (\<lambda>i. lon (realData ! i)) debug_visit_indices)),
       travelStartTime = None, travelEndTime = None\<rparr>]"
proof -
  have len: "length realData = 30" by (simp add: realData_def)
  have "tryCreateVisitCluster calculateDistanceInMeters realData 0 25 3 5 =
      \<lparr>success = True,
       resultCluster = Some \<lparr>ctype = Visit, pointIndices = debug_visit_indices, startTime = 1751300522,
         endTime = 1751312917,
         centerLat = Some (mean (map (\<lambda>i. lat (realData ! i)) debug_visit_indices)),
         centerLon = Some (mean (map (\<lambda>i. lon (realData ! i)) debug_visit_indices)),
         travelStartTime = None, travelEndTime = None\<rparr>,
       nextIndex = 30\<rparr>"
    by (simp add: tryCreateVisitCluster_def Let_def debug_grow debug_visit_indices_def)
  then show ?thesis
    using len by (simp add: debugClusters_def debugSortedData_eq findLocationClusters_def
        findLoop.simps [of _ _ _ _ _ 0] findLoop_beyond)
qed

lemma mainClusterDistances_radius:
  "map (\<lambda>d. d \<le> 25) mainClusterDistances = [True, False, False, True, True]"
  by (simp add: mainClusterDistances_def mainClusterPoints_def realData_def realPoint_def
      debug_within_eq debug_beyond_eq dist_upper_def dist_lower_def sin_lower_def eval_nat_numeral)

text \<open>
  What the debug script reports on its 30 real points. The full pipeline, called
  without a configuration, does not cluster: it returns the 30 points with no visit and no
  travel point. The raw discovery with radius 25 m finds a single visit of 20 points; the
  other 10 points (indices 2, 3, 14, 15, 20--24 and 27) belong to no cluster.
\<close>

theorem debug_real_data_report:
  "map pointIndices debugClusters = [[0, 1, 4, 5, 6, 7, 8, 9, 10, 11, 12, 13, 16, 17, 18, 19, 25, 26, 28, 29]] \<and>
   debugReport = Some \<lparr>inputCount = 30, outputCount = 30, visitCount = 0, travelCount = 0,
     clusterSummary = [(Visit, 20)], mainCandidates = 24, mainDistances = mainClusterDistances\<rparr>"
proof
  show "map pointIndices debugClusters = [[0, 1, 4, 5, 6, 7, 8, 9, 10, 11, 12, 13, 16, 17, 18, 19, 25, 26, 28, 29]]"
    by (simp add: debugClusters_eq debug_visit_indices_def)
  have "filter (\<lambda>p. node_event_type p = Some k) realData = []" for k
    by (simp add: realData_def realPoint_def)
  then show "debugReport = Some \<lparr>inputCount = 30, outputCount = 30, visitCount = 0, travelCount = 0,
     clusterSummary = [(Visit, 20)], mainCandidates = 24, mainDistances = mainClusterDistances\<rparr>"
    by (simp add: debugReport_def debug_pipeline_points debugClusters_eq debug_visit_indices_def
        mainClusterPoints_length) (simp add: realData_def)
qed

end
