(* ===== verification/Design.thy ===== *)
theory Design
  imports Discovery
begin

text \<open>
  The two re-designs that section 9 of the spec proposes for discovery, and their
  equivalence with the code (statement-level definitions, not code).
  \<^item> The centroid kept as an accumulator \<open>(sumLat, sumLon, count)\<close> (\<open>inc_state\<close>,
    \<open>growVisitInc\<close>) instead of the mean recomputed over all absorbed points at each
    absorption (\<open>absorbPoint\<close>, lines 252--258 of \<open>locationEnhancer.js\<close>). The
    abstraction \<open>inc_abs\<close> divides the sums by the count; under the invariant
    \<open>inc_inv\<close> (the sums and the count are those of the absorbed points) every step
    of \<open>growVisitInc\<close> is a step of \<open>growVisit\<close> (\<open>growVisitInc_refines\<close>).
  \<^item> The visit attempt as a tagged result \<open>Grown cluster resumeIndex | NotGrown\<close>
    (\<open>tryGrowVisit\<close>), matched by the discovery loop \<open>findLoopDesign\<close>.
\<close>

record inc_state =
  icl :: cluster
  sumLat :: real
  sumLon :: real
  cnt :: nat
  ij :: nat

definition incCentre :: "inc_state \<Rightarrow> coord" where
  "incCentre s = (sumLat s / real (cnt s), sumLon s / real (cnt s))"

definition absorbInc :: "'m location_scheme list \<Rightarrow> inc_state \<Rightarrow> inc_state" where
  "absorbInc locs s =
     \<lparr>icl = (icl s)\<lparr>pointIndices := pointIndices (icl s) @ [ij s], endTime := point_time (locs ! ij s)\<rparr>,
      sumLat = sumLat s + lat (locs ! ij s), sumLon = sumLon s + lon (locs ! ij s),
      cnt = Suc (cnt s), ij = Suc (ij s)\<rparr>"

function growVisitInc :: "dist_fn \<Rightarrow> 'm location_scheme list \<Rightarrow> real \<Rightarrow> nat \<Rightarrow> inc_state \<Rightarrow> inc_state" where
  "growVisitInc d locs r mt s =
     (if ij s < length locs then
        (if d (incCentre s) (coord (locs ! ij s)) \<le> r then growVisitInc d locs r mt (absorbInc locs s)
         else
           (let sk = trySkipTransientPoints d locs (ij s) (fst (incCentre s)) (snd (incCentre s)) r mt
            in if shouldSkip sk then growVisitInc d locs r mt (s\<lparr>ij := continueFromIndex sk\<rparr>) else s))
      else s)"
  by pat_completeness auto
termination
  by (relation "measure (\<lambda>(_, locs, _, _, s). length locs - ij s)")
    (auto simp: absorbInc_def Let_def dest: trySkip_continue_gt)

declare growVisitInc.simps [simp del]

definition incSeed :: "'m location_scheme list \<Rightarrow> nat \<Rightarrow> inc_state" where
  "incSeed locs i = \<lparr>icl = vcl (visitSeed locs i), sumLat = lat (locs ! i), sumLon = lon (locs ! i), cnt = 1, ij = Suc i\<rparr>"

definition inc_abs :: "inc_state \<Rightarrow> visit_state" where
  "inc_abs s = \<lparr>vcl = icl s, vLat = fst (incCentre s), vLon = snd (incCentre s), vj = ij s\<rparr>"

definition inc_inv :: "'m location_scheme list \<Rightarrow> inc_state \<Rightarrow> bool" where
  "inc_inv locs s \<longleftrightarrow> cnt s = length (pointIndices (icl s)) \<and> 0 < cnt s \<and>
     sumLat s = sum_list (map (\<lambda>i. lat (locs ! i)) (pointIndices (icl s))) \<and>
     sumLon s = sum_list (map (\<lambda>i. lon (locs ! i)) (pointIndices (icl s)))"

lemma absorbInc_refines:
  assumes "inc_inv locs s"
  shows "inc_abs (absorbInc locs s) = absorbPoint locs (inc_abs s) \<and> inc_inv locs (absorbInc locs s)"
  using assms
  by (auto simp: inc_inv_def inc_abs_def absorbInc_def absorbPoint_def incCentre_def Let_def mean_sum_list)

lemma skip_refines:
  "inc_inv locs s \<Longrightarrow> inc_abs (s\<lparr>ij := k\<rparr>) = (inc_abs s)\<lparr>vj := k\<rparr> \<and> inc_inv locs (s\<lparr>ij := k\<rparr>)"
  by (auto simp: inc_inv_def inc_abs_def incCentre_def)

lemma inc_abs_sel [simp]:
  "vcl (inc_abs s) = icl s" "vj (inc_abs s) = ij s" "vLat (inc_abs s) = fst (incCentre s)"
  "vLon (inc_abs s) = snd (incCentre s)"
  by (simp_all add: inc_abs_def)

lemma growVisitInc_refines:
  "inc_inv locs s \<Longrightarrow> inc_abs (growVisitInc d locs r mt s) = growVisit d locs r mt (inc_abs s)"
proof (induction d locs r mt s rule: growVisitInc.induct)
  case (1 d locs r mt s)
  let ?t = "trySkipTransientPoints d locs (ij s) (fst (incCentre s)) (snd (incCentre s)) r mt"
  have c: "(vLat (inc_abs s), vLon (inc_abs s)) = incCentre s" by simp
  show ?case
  proof (cases "ij s < length locs \<and> d (incCentre s) (coord (locs ! ij s)) \<le> r")
    case True
    then show ?thesis using "1.IH"(1) absorbInc_refines [OF "1.prems"]
      by (subst growVisitInc.simps, subst growVisit.simps) (simp only: c, simp)
  next
    case far: False
    show ?thesis
    proof (cases "ij s < length locs \<and> shouldSkip ?t")
      case True
      then show ?thesis using far "1.IH"(2) [OF _ _ refl] skip_refines [OF "1.prems"]
        by (subst growVisitInc.simps, subst growVisit.simps) (simp only: c, simp add: Let_def)
    next
      case False
      then show ?thesis using far
        by (subst growVisitInc.simps, subst growVisit.simps) (simp only: c, simp add: Let_def)
    qed
  qed
qed

lemma incSeed_refines: "i < length locs \<Longrightarrow> inc_abs (incSeed locs i) = visitSeed locs i \<and> inc_inv locs (incSeed locs i)"
  by (simp add: incSeed_def inc_abs_def inc_inv_def incCentre_def visitSeed_def Let_def)

lemma growVisitInc_inv: "inc_inv locs s \<Longrightarrow> inc_inv locs (growVisitInc d locs r mt s)"
proof (induction d locs r mt s rule: growVisitInc.induct)
  case (1 d locs r mt s)
  then show ?case using absorbInc_refines [OF "1.prems"] skip_refines [OF "1.prems"]
    by (subst growVisitInc.simps) (simp add: Let_def)
qed

lemma growVisitInc_seed:
  assumes "i < length locs"
  shows "inc_abs (growVisitInc d locs r mt (incSeed locs i)) = growVisit d locs r mt (visitSeed locs i) \<and>
         inc_inv locs (growVisitInc d locs r mt (incSeed locs i))"
  using incSeed_refines [OF assms] growVisitInc_refines growVisitInc_inv by metis

datatype visit_attempt = Grown cluster nat | NotGrown

definition tryGrowVisit :: "dist_fn \<Rightarrow> 'm location_scheme list \<Rightarrow> nat \<Rightarrow> real \<Rightarrow> nat \<Rightarrow> nat \<Rightarrow> visit_attempt" where
  "tryGrowVisit d locs i r mv mt =
     (let s = growVisitInc d locs r mt (incSeed locs i)
      in if mv \<le> cnt s
         then Grown ((icl s)\<lparr>centerLat := Some (fst (incCentre s)), centerLon := Some (snd (incCentre s))\<rparr>) (ij s)
         else NotGrown)"

lemma tryGrowVisit_eq:
  assumes "i < length locs"
  shows "tryGrowVisit d locs i r mv mt =
           (if success (tryCreateVisitCluster d locs i r mv mt)
            then Grown (the (resultCluster (tryCreateVisitCluster d locs i r mv mt)))
                   (nextIndex (tryCreateVisitCluster d locs i r mv mt))
            else NotGrown)"
proof -
  let ?s = "growVisitInc d locs r mt (incSeed locs i)"
  have "inc_abs ?s = growVisit d locs r mt (visitSeed locs i)" and "inc_inv locs ?s"
    using growVisitInc_seed [OF assms] by simp_all
  then show ?thesis
    by (auto simp: tryGrowVisit_def tryCreateVisitCluster_def Let_def inc_inv_def simp flip: \<open>inc_abs ?s = _\<close>)
qed

function findLoopDesign ::
  "dist_fn \<Rightarrow> 'm location_scheme list \<Rightarrow> real \<Rightarrow> nat \<Rightarrow> nat \<Rightarrow> nat \<Rightarrow> cluster list" where
  "findLoopDesign d locs r mv mt i =
     (if i < length locs then
        (case tryGrowVisit d locs i r mv mt of
           Grown c k \<Rightarrow> c # findLoopDesign d locs r mv mt k
         | NotGrown \<Rightarrow>
             (let t = createTravelCluster locs i mv
              in if pointIndices t = [] then [t]
                 else t # findLoopDesign d locs r mv mt (Suc (last (pointIndices t)))))
      else [])"
  by pat_completeness auto
termination
proof (relation "measure (\<lambda>(_, locs, _, _, _, i). length locs - i)")
  fix d :: dist_fn and locs :: "'m location_scheme list" and r mv mt i c k
  assume "i < length locs" "tryGrowVisit d locs i r mv mt = Grown c k"
  then have "k = nextIndex (tryCreateVisitCluster d locs i r mv mt)"
    by (simp add: tryGrowVisit_eq split: if_splits)
  then show "((d, locs, r, mv, mt, k), d, locs, r, mv, mt, i) \<in> measure (\<lambda>(_, locs, _, _, _, i). length locs - i)"
    using tryCreate_nextIndex_gt [of i d locs r mv mt] \<open>i < length locs\<close> by simp
qed (auto simp: createTravelCluster_def Let_def)

declare findLoopDesign.simps [simp del]

definition findLocationClustersDesign :: "dist_fn \<Rightarrow> 'm location_scheme list \<Rightarrow> real \<Rightarrow> nat \<Rightarrow> nat \<Rightarrow> cluster list" where
  "findLocationClustersDesign d locs r mv mt = (if length locs \<le> 1 then [] else findLoopDesign d locs r mv mt 0)"

lemma findLoopDesign_eq: "findLoopDesign d locs r mv mt i = findLoop d locs r mv mt i"
proof (induction d locs r mv mt i rule: findLoopDesign.induct)
  case (1 d locs r mv mt i)
  show ?case
  proof (cases "i < length locs")
    case True
    then show ?thesis using "1.IH"
      by (subst findLoopDesign.simps, subst findLoop.simps)
         (auto simp: tryGrowVisit_eq Let_def split: if_splits)
  next
    case False
    then show ?thesis by (simp add: findLoopDesign.simps findLoop_beyond)
  qed
qed

text \<open>
  C7. The discovery of the code computes what the design of the spec (section 9) computes:
  a centroid kept as running sums and a count, and a visit attempt that returns
  \<open>Grown cluster resumeIndex\<close> or \<open>NotGrown\<close>, give the same clusters as
  \<open>findLocationClusters\<close> on every input.
\<close>

theorem design_equivalence:
  "findLocationClustersDesign d locs r mv mt = findLocationClusters d locs r mv mt"
  by (simp add: findLocationClustersDesign_def findLocationClusters_def findLoopDesign_eq)

end
