(* ===== verification/Aliasing.thy ===== *)
theory Aliasing
  imports Store
begin

text \<open>
  The objects of \<open>enhanceLocationData\<close> (\<open>locationEnhancer.js\<close>, lines 19--49). The
  points of the caller's history are JavaScript objects, shared by reference: here a heap
  \<open>'m heap\<close> from addresses to points, and a history \<open>ref_history\<close> of addresses. The
  loops of lines 27--36 assign the four metadata fields of every point object in place
  (\<open>resetInPlace\<close>). With clustering enabled the result is built from copies
  (\<open>[...array]\<close> and \<open>{...point}\<close>, lines 95 and 575--593), a \<open>Fresh\<close> history of
  values; with clustering disabled the function returns the caller's own history object,
  \<open>Aliased\<close>. \<open>deref\<close> reads a history of addresses in a heap; the pure model
  \<open>enhanceLocationData\<close> of \<open>Pipeline\<close> is what the caller reads afterwards
  (\<open>enhanceLocationDataHeap_value\<close>).
\<close>

type_synonym addr = nat
type_synonym 'm heap = "addr \<Rightarrow> 'm location_scheme"
type_synonym ref_history = "(string \<times> (string \<times> addr list) list) list"

definition resetInPlace :: "ref_history \<Rightarrow> 'm heap \<Rightarrow> 'm heap" where
  "resetInPlace rawLocationHistory hp =
     fold (\<lambda>(user, userDevices) hp.
             fold (\<lambda>(device, points) hp.
                     fold (\<lambda>point hp. hp(point := resetEventMetadata (hp point))) points hp)
               userDevices hp)
       rawLocationHistory hp"

definition deref :: "'m heap \<Rightarrow> ref_history \<Rightarrow> 'm history" where
  "deref hp h = map (\<lambda>(user, userDevices). (user, map (\<lambda>(device, points). (device, map hp points)) userDevices)) h"

datatype 'm enhanced = Aliased ref_history | Fresh "'m history"

definition enhanceLocationDataHeap ::
  "ref_history \<Rightarrow> clustering_config \<Rightarrow> 'm heap \<Rightarrow> 'm heap \<times> 'm enhanced" where
  "enhanceLocationDataHeap rawLocationHistory clusteringConfig hp =
     (let hp = resetInPlace rawLocationHistory hp
      in if enabled clusteringConfig
         then (hp, Fresh (clusterLocationPoints (deref hp rawLocationHistory) clusteringConfig))
         else (hp, Aliased rawLocationHistory))"

definition enhanced_value :: "'m heap \<Rightarrow> 'm enhanced \<Rightarrow> 'm history" where
  "enhanced_value hp e = (case e of Aliased h \<Rightarrow> deref hp h | Fresh v \<Rightarrow> v)"



definition addrs :: "ref_history \<Rightarrow> addr set" where
  "addrs h = (\<Union>(user, userDevices)\<in>set h. \<Union>(device, points)\<in>set userDevices. set points)"

lemma resetEventMetadata_idem [simp]: "resetEventMetadata (resetEventMetadata p) = resetEventMetadata p"
  by (simp add: resetEventMetadata_def)

lemma fold_reset_points:
  "fold (\<lambda>point hp. hp(point := resetEventMetadata (hp point))) ps hp a =
     (if a \<in> set ps then resetEventMetadata (hp a) else hp a)"
  by (induction ps arbitrary: hp) auto

lemma fold_reset_devices:
  "fold (\<lambda>(device, points) hp. fold (\<lambda>point hp. hp(point := resetEventMetadata (hp point))) points hp) ds hp a =
     (if a \<in> (\<Union>(device, points)\<in>set ds. set points) then resetEventMetadata (hp a) else hp a)"
  by (induction ds arbitrary: hp) (auto simp: fold_reset_points)

lemma resetInPlace_at:
  "resetInPlace h hp a = (if a \<in> addrs h then resetEventMetadata (hp a) else hp a)"
  unfolding resetInPlace_def addrs_def
  by (induction h arbitrary: hp) (auto simp: fold_reset_devices)

lemma addrsI: "(user, userDevices) \<in> set h \<Longrightarrow> (device, points) \<in> set userDevices \<Longrightarrow> a \<in> set points \<Longrightarrow> a \<in> addrs h"
  unfolding addrs_def by (rule UN_I [of "(user, userDevices)"]) (auto intro: UN_I [of "(device, points)"])

lemma deref_resetInPlace: "deref (resetInPlace h hp) h = resetHistory (deref hp h)"
  unfolding deref_def resetHistory_def
  by (auto simp: resetInPlace_at intro!: map_cong) (blast dest: addrsI)

lemma enhanceLocationDataHeap_value:
  "enhanced_value (fst (enhanceLocationDataHeap h cfg hp)) (snd (enhanceLocationDataHeap h cfg hp)) =
     enhanceLocationData (deref hp h) cfg"
  by (simp add: enhanceLocationDataHeap_def enhanced_value_def enhanceLocationData_def Let_def deref_resetInPlace)



text \<open>
  C21. \<open>enhanceLocationData\<close> is not pure (spec, section 5, says it has no side effects):
  it resets the four metadata fields of the caller's point objects in place, every object
  the history refers to and no other. What it returns reads as the pure model, and with
  clustering disabled it returns the caller's own history, whose points are the reset
  objects.
\<close>

theorem enhance_resets_caller_objects:
  "fst (enhanceLocationDataHeap h cfg hp) = (\<lambda>a. if a \<in> addrs h then resetEventMetadata (hp a) else hp a) \<and>
   enhanced_value (fst (enhanceLocationDataHeap h cfg hp)) (snd (enhanceLocationDataHeap h cfg hp)) =
     enhanceLocationData (deref hp h) cfg \<and>
   (enabled cfg \<or> snd (enhanceLocationDataHeap h cfg hp) = Aliased h)"
  using enhanceLocationDataHeap_value [of h cfg hp]
  by (auto simp: enhanceLocationDataHeap_def Let_def resetInPlace_at)

text \<open>A point stored as a visit point loses its metadata when a history that refers to it
  twice is enhanced with the default configuration, and the result is that history.\<close>

theorem enhance_resets_caller_objects_witness:
  "node_event_type (fst (enhanceLocationDataHeap [(''u'', [(''d'', [0, 0])])] default_config
      (\<lambda>_. \<lparr>lat = 0, lon = 0, tst = Some 1, timestamp = None, acc = None, node_event_type = Some Visit,
            node_event_id = Some 1, node_event_start = Some 1, node_event_end = Some 1\<rparr>)) 0) = None \<and>
   snd (enhanceLocationDataHeap [(''u'', [(''d'', [0, 0])])] default_config
      (\<lambda>_. \<lparr>lat = 0, lon = 0, tst = Some 1, timestamp = None, acc = None, node_event_type = Some Visit,
            node_event_id = Some 1, node_event_start = Some 1, node_event_end = Some 1\<rparr>)) =
     Aliased [(''u'', [(''d'', [0, 0])])]"
  using enhance_resets_caller_objects [of "[(''u'', [(''d'', [0, 0])])]" default_config
      "\<lambda>_. \<lparr>lat = 0, lon = 0, tst = Some 1, timestamp = None, acc = None, node_event_type = Some Visit,
            node_event_id = Some 1, node_event_start = Some 1, node_event_end = Some 1\<rparr>"]
  by (simp add: addrs_def resetEventMetadata_def default_config_def)

end
