(* ===== verification/Spec2Isabelle.thy ===== *)
theory Spec2Isabelle
  imports Store GeoName NearbyMerge GeoLoop GeoLegacy GeoOrder Demo Cost Debug Design Aliasing
begin

text \<open>
  \<^bold>\<open>A verification library for the location enhancer of owntracks-frontend-tweaked.\<close>

  \<^bold>\<open>The program.\<close> \<open>src/src/store/locationEnhancer.js\<close> rewrites each device's time-ordered
  list of GPS fixes into visit points (one averaged point per dwell) and travel points
  (the fixes between dwells, kept one by one). \<open>enhanceLocationData\<close> resets four metadata
  fields on every point and, when clustering is enabled, calls \<open>clusterLocationPoints\<close>.
  That function runs a pipeline per device: sort by capture time, discover clusters
  (\<open>findLocationClusters\<close>), merge adjacent travel clusters
  (\<open>mergeConsecutiveTravelClusters\<close>), then materialise output points
  (\<open>processClusterToLocations\<close>). Discovery calls \<open>tryCreateVisitCluster\<close> at every
  cursor position. That function grows a cluster around a running centroid, measures with
  \<open>calculateDistanceInMeters\<close> (Haversine), and uses \<open>trySkipTransientPoints\<close> to look past
  short excursions. When growth fails, discovery falls back to \<open>createTravelCluster\<close>.
  The Vuex store (\<open>src/src/store/getters.js\<close>, \<open>mutations.js\<close>) holds the raw history and
  the clustering settings. Its getter \<open>filteredLocationHistory\<close> calls the enhancer and
  applies an accuracy filter, and two derived getters flatten and group the coordinates.
  Separately, \<open>src/src/geocoding.js\<close> turns coordinates into place names through the
  Nominatim API. Its front end \<open>reverseGeocodeWithRateLimit\<close> answers from a cache, or
  queues the request. A single asynchronous loop (\<open>processRequestQueue\<close>) works off the
  queue with at least 500 ms between fetches. A circuit breaker stops all fetching for 5
  minutes after three consecutive timeouts.

  \<^bold>\<open>Theories and what they model.\<close>
  \<^item> \<open>Prelude\<close>: the JavaScript idioms shared by all components: \<open>x || d\<close> on optional
    numbers (\<open>js_or\<close>) and the mean computed by \<open>reduce\<close> (\<open>mean\<close>). It also holds the
    collection \<open>model_simps\<close> of evaluation rules used by the witnesses, and list lemmas.
  \<^item> \<open>Location\<close>: the data. A location point is the extensible record \<open>'m location_scheme\<close>
    (the passthrough fields are its \<open>more\<close> part). A cluster is the record \<open>cluster\<close>, and
    \<open>"visit"\<close>/\<open>"travel"\<close> are the datatype \<open>kind\<close>. The capture time
    \<open>tst || timestamp || 0\<close> is \<open>point_time\<close>, and the metadata reset of one point is
    \<open>resetEventMetadata\<close>.
  \<^item> \<open>Geometry\<close>: \<open>calculateDistanceInMeters\<close> (lines 58--74) with \<open>Math.atan2\<close> as
    \<open>js_atan2\<close>. Lemmas: the distance is zero on equal points and symmetric, lies in
    \<open>[0, pi R]\<close> for valid latitudes, and is at least \<open>R\<close> times the latitude difference
    in radians (\<open>calculateDistanceInMeters_ge_lat\<close>).
  \<^item> \<open>Transient\<close>: \<open>trySkipTransientPoints\<close> (lines 351--387). Its \<open>for\<close> loop is
    \<open>skipScan\<close>, with the measure \<open>hi - k\<close>. Lemmas: the scan returns the first point of
    the window within the radius, or reports that there is none, and the lookahead is
    the least-index search over its window (C31).
  \<^item> \<open>Visit\<close>: \<open>tryCreateVisitCluster\<close> (lines 212--297). Its \<open>while\<close> loop is
    \<open>growVisit\<close> over the record \<open>visit_state\<close> (the cluster, centre and cursor \<open>j\<close>). It
    terminates because \<open>length - j\<close> decreases, and a transient jump goes strictly forward.
    The same loop is the inductive big-step relation \<open>grows\<close>, which the function computes
    (\<open>growVisit_grows\<close>, \<open>grows_growVisit\<close>). The loop invariants are proved by rule
    induction over \<open>grows\<close>: absorbed indices increase, the centre is the mean of the
    absorbed points, \<open>endTime\<close> is the last member's time, the cursor ends right after the
    last member, every absorbed point was within the radius of the centre it was compared
    with, and growth stops only where the lookahead window has no return point.
  \<^item> \<open>Discovery\<close>: \<open>createTravelCluster\<close> (lines 307--338, with its \<open>int\<close> bounds) and
    \<open>findLocationClusters\<close> (lines 147--200), whose loop is \<open>findLoop\<close>. It terminates
    because the cursor strictly increases (\<open>tryCreate_nextIndex_gt\<close>). The induction rule
    \<open>findLoop_induct\<close> follows the loop one emitted cluster at a time. Lemmas: the
    clusters' spans tile \<open>0..n-1\<close>, every cluster is \<open>discovered\<close> (well formed, in
    range, times from its first and last member, visits large enough, travel runs exact),
    and at most \<open>n\<close> clusters are emitted.
  \<^item> \<open>Merge\<close>: \<open>mergeConsecutiveTravelClusters\<close> (lines 395--439). Its outer loop is
    \<open>mergeLoop\<close> and its inner loop is \<open>travelRun\<close>. The abstract specification
    \<open>merge_spec\<close> folds runs of travel clusters by structural recursion, and
    \<open>mergeLoop_merge_spec\<close> refines the loops to it. Index preservation, untouched visits,
    no adjacent travel clusters and idempotence are proved on \<open>merge_spec\<close>.
  \<^item> \<open>NearbyMerge\<close>: \<open>mergeNearbyVisitClusters\<close> (lines 448--516), which the pipeline does
    not call. Its outer loop is a fold of \<open>nearbyStep\<close> over the indices with the set
    \<open>processed\<close>; the inner loop is the filter \<open>nearbyVisits\<close>. Lemma
    \<open>mergeNearby_indices\<close>: the multiset of point indices is unchanged and the output is
    never longer than the input.
  \<^item> \<open>Materialize\<close>: \<open>processClusterToLocations\<close> (lines 525--618). It has three parts:
    the back-fill pass \<open>setTravelTiming\<close>, whose scans \<open>findPrevVisitEnd\<close> and
    \<open>findNextVisitStart\<close> are proved equal to the reference definitions
    \<open>prev_visit_end\<close> and \<open>next_visit_start\<close>; the emission pass \<open>emitClusters\<close> with
    its two counters (\<open>visitPoint\<close>, \<open>travelPoint\<close>); and the stable sort
    \<open>sort_key point_time\<close>. Lemmas: the point count, the visit ids, and that travel points
    are the original points.
  \<^item> \<open>Pipeline\<close>: \<open>clusterLocationPoints\<close> (per device \<open>clusterDevice\<close>) and
    \<open>enhanceLocationData\<close> over the association list \<open>'m history\<close> (user, then device).
    \<open>device_points h u d\<close> reads \<open>h[u][d]\<close>.
  \<^item> \<open>Store\<close>: the Vuex state \<open>store_state\<close>, the mutations as the datatype \<open>mutation\<close>
    with the step function \<open>commit\<close>, and the getters \<open>filteredLocationHistory\<close>,
    \<open>filteredLocationHistoryLatLngs\<close> and \<open>filteredLocationHistoryLatLngGroups\<close> (the
    latter a fold of \<open>groupStep\<close>).
  \<^item> \<open>GeoQueue\<close>: lines 320--597 of \<open>geocoding.js\<close>. The module variables are the record
    \<open>geo_state\<close>. The cache is an insertion-ordered association list, and a cache key is
    the pair of \<open>toFixed4\<close> values of the coordinates. Each promise is named by a
    callback id; \<open>settled\<close> holds its outcome and \<open>timers\<close> its armed 30 s timer. Each
    synchronous segment of the code is a function: \<open>reverseGeocodeWithRateLimit\<close> (with
    \<open>enqueueRequest\<close>, the promise executor), the loop \<open>advance\<close> up to its next
    \<open>await\<close>, and the resumptions \<open>fetchDone\<close> and \<open>fetchTimeout\<close>. The awaited
    completions and timers are events of \<open>geo_event\<close>. \<open>geo_step\<close> applies an event
    where the code can be waiting for it, and \<open>geo_reachable\<close> is the inductive set of
    states reachable from \<open>geo_init\<close>. The invariant \<open>geo_inv\<close> (queue, run, breaker,
    fetch log, sleep and promise parts) holds in every reachable state
    (\<open>geo_reachable_inv\<close>). It is proved by rule induction, with one lemma per operation.
  \<^item> \<open>GeoName\<close>: lines 16--318 of \<open>geocoding.js\<close>, the name extraction of
    \<open>reverseGeocode\<close>. A JavaScript string is an Isabelle \<open>string\<close> of Latin-1 code units.
    \<open>toLowerCase\<close>, \<open>trim\<close>, \<open>split\<close>, \<open>includes\<close> and \<open>join\<close> are functions on them,
    and each regular expression is a bool-valued function. The reply is the record
    \<open>nominatim\<close> with its \<open>address\<close>. The blocks of the code are \<open>mainFacilityOf\<close>,
    \<open>poiNameOf\<close>, \<open>contextOf\<close>, \<open>tagNameOf\<close> and \<open>addressParts\<close>, composed in
    \<open>locationNameOf\<close>. \<open>reverseGeocodeBody\<close> adds the HTTP and JSON failures, and
    \<open>reverseGeocode\<close> the cache. Its result is what the queue's \<open>FetchDone\<close> event
    carries (C8).
  \<^item> \<open>GeoLoop\<close>: termination of a processing run while calls keep arriving. The variant
    \<open>run_rank\<close> (two per iteration left before \<open>maxProcessingAttempts\<close>, less one
    while fetching) decreases with every event that resumes the loop (\<open>loop_event\<close>)
    and is left unchanged by every other event (\<open>geo_step_rank\<close>, \<open>geo_run_rank\<close>).
  \<^item> \<open>GeoOrder\<close>: the order of the fetches. The ghost logs \<open>queuedKeys\<close> and
    \<open>fetchedKeys\<close> of \<open>geo_state\<close> record the keys pushed and the keys fetched. The
    invariant \<open>fifo_ok\<close> (the pending keys are the newest pushed ones, and the fetched keys
    are a subsequence of the older ones) holds in every reachable state
    (\<open>geo_reachable_fifo\<close>), with one lemma per way the pending keys change.
  \<^item> \<open>GeoLegacy\<close>: the unused \<open>legacyReverseGeocodeWithRateLimit\<close> (lines 566--580)
    over the same module state. \<open>legacy_state\<close> adds the legacy calls suspended in
    the sleep or the fetch, and \<open>legacy_step\<close> interleaves their events with the queue's
    (\<open>QueueEvent\<close>), since both write \<open>lastRequestTime\<close>.
  \<^item> \<open>Cost\<close>: the number of distance evaluations of discovery. \<open>skipScanC\<close>,
    \<open>growVisitC\<close> and \<open>findLoopC\<close> are the loops of \<open>Transient\<close>, \<open>Visit\<close> and
    \<open>Discovery\<close> with a counter added; they compute the same results
    (\<open>skipScanC_fst\<close>, \<open>growVisitC_fst\<close>, \<open>findLoopC_fst\<close>). The growth loop makes at
    most \<open>mt + 3\<close> evaluations per index its cursor passes (\<open>growVisitC_cost\<close>), and at
    most \<open>2 * mt + 6\<close> per absorbed point (\<open>growVisitC_cost_absorbed\<close>), which bounds
    a failed visit attempt by \<open>minVisitClusterSize\<close>. \<open>growVisitR\<close> and \<open>findLoopR\<close>
    count instead the members re-read by the recomputation of the centre at each
    absorption: \<open>2 + \<dots> + k\<close> for a cluster grown to \<open>k\<close> points
    (\<open>growVisitR_reads\<close>), at most \<open>n * n\<close> in all (\<open>findLoopR_reads_le\<close>).
  \<^item> \<open>Demo\<close>: \<open>generateTestLocationData\<close> of \<open>src/public/clustering-demo.js\<close>, with
    \<open>Date.now()\<close> and the results of \<open>Math.random()\<close> as parameters, and the two
    configurations its test functions print. \<open>demo_dwell_start_as_travel\<close> evaluates the
    whole enhancer on that data with the enabled configuration, and
    \<open>demo_jitter_loses_park_visit\<close> on data jittered by \<open>Math.random()\<close> values
    \<open>0, 0, 0.9, 0.9, \<dots>\<close>, where the comparisons are decided by the enclosures.
  \<^item> \<open>Aliasing\<close>: object identity in \<open>enhanceLocationData\<close>. A heap maps addresses
    to point objects and \<open>ref_history\<close> holds addresses; \<open>resetInPlace\<close> is the
    metadata reset of lines 27--36, and \<open>enhanceLocationDataHeap\<close> returns either the
    caller's history (\<open>Aliased\<close>) or a history of copies (\<open>Fresh\<close>). Read through the
    heap, the result is the pure model \<open>enhanceLocationData\<close>
    (\<open>enhanceLocationDataHeap_value\<close>). \<open>filteredLocationHistoryHeap\<close> is the
    store getter over the heap: it resets the store's own point objects and its result,
    read through the heap, is the value getter of \<open>Store\<close>
    (\<open>getter_writes_store_objects\<close>).
  \<^item> \<open>Design\<close>: the re-designs of section 9 of the spec, an accumulated centroid
    (\<open>growVisitInc\<close>, refining \<open>growVisit\<close> through \<open>inc_abs\<close>) and a tagged visit
    attempt (\<open>tryGrowVisit\<close>, \<open>findLoopDesign\<close>), proved equal to the code's discovery.
  \<^item> \<open>Enclosure\<close>: rational bounds on \<open>pi\<close> (Machin's formula), \<open>arctan\<close>, \<open>sin\<close> and
    \<open>cos\<close>, and from them lower and upper bounds on the Haversine term for latitudes
    in \<open>[0, 90]\<close>. \<open>distance_within\<close> and \<open>distance_beyond\<close> decide a comparison of
    the distance with a radius from rational arithmetic on the coordinates.
  \<^item> \<open>Debug\<close>: the console script \<open>src/debug_real_data.js\<close> on its 30 recorded points:
    \<open>realData\<close>, the pipeline run \<open>debugReport\<close> whose printed counts are the record
    \<open>debug_report\<close>, the raw discovery \<open>debugClusters\<close>, the bounding-box filter
    \<open>mainClusterPoints\<close> and the distances \<open>mainClusterDistances\<close>. The 37 distance
    comparisons of the discovery are decided by the enclosures; the smallest margin to the
    25 m radius is about 16 per cent, and the enclosures are tighter than 1 per cent.

  \<^bold>\<open>What the properties show.\<close>
  \<^item> C1--C5: discovery partitions the input into cluster spans, leaves out only transient
    points inside visits, and respects the visit and travel sizes and the time bounds.
  \<^item> C6: the geocoder answers \<open>null\<close> or a non-empty name.
  \<^item> C7: the code's discovery equals the design of section 9 of the spec (accumulated
    centroid, tagged visit attempt). C8: a failed lookup is cached as \<open>null\<close> and answered
    from the cache afterwards.
  \<^item> C9: a track whose every point is beyond the radius from its next
    \<open>minTravelClusterSize + 1\<close> successors gives only travel clusters (scenario B of
    the spec, with the condition the code needs).
  \<^item> C10, C11, C13, C14: the merge pass refines its specification, keeps all indices,
    leaves no adjacent travel clusters and is idempotent.
  \<^item> C12: termination. A geocoding processing run ends after at most
    \<open>2 * maxProcessingAttempts + 2\<close> loop events, however many calls arrive meanwhile.
  \<^item> C15, C17--C19: materialisation's point count, visit ids, original travel points and
    timing back-fill. C16: splitting the coordinates into groups loses and reorders none.
  \<^item> C20: two legacy calls made at the same instant fetch at the same instant.
  \<^item> C21: the enhancer resets the caller's point objects in place, and with clustering
    disabled returns the caller's own history. C22: the single-point loss. C23: the street-address
    fallback of the geocoder.
  \<^item> C24, C25, C27: the store's getter never clusters, no mutation but
    \<open>SET_LOCATION_HISTORY\<close> changes it, and the coordinate groups respect the maximal
    point distance. C28: a device whose points all lie at one place becomes one visit
    point at that place (scenario A of the spec).
  \<^item> C26: the geocoding queue fetches its requests in the order they were queued.
  \<^item> C29: discovery evaluates the distance at most
    \<open>n * ((2 * minVisitClusterSize + 1) * (minTravelClusterSize + 3))\<close> times on \<open>n\<close>
    points, a linear bound; but the recomputation of the centre re-reads
    \<open>2 + \<dots> + k\<close> members for every visit of \<open>k\<close> points (and at most \<open>n * n\<close>
    in all), so the runtime is quadratic in the length of a dwell, not linear as section 5
    of the spec says.
  \<^item> C30: no name starting with the Swedish word for track is recognised as a specific
    location. C31: the lookahead resumes at the least index of its window within the
    radius. C32: every evaluation of the store's getter resets the store's own point
    objects and returns arrays of them.
  \<^item> C33--C40, the geocoding queue: in every reachable state the queue is bounded by 20 with
    distinct keys, fetch start times are at least 500 ms apart, and a queued request always
    has the loop running. From every reachable state the environment can drain the queue
    and settle every promise (liveness). The error counter and the breaker agree. The
    rejection paths: queue full, and breaker open. The breaker trip strands the callbacks
    of the request whose fetch failed.
  Further general theorems: \<open>Merge.merge_keeps_visits\<close>,
  \<open>Materialize.visit_point_summary\<close>, \<open>Materialize.materialize_sorted_permutation\<close>
  (the output is the emitted points, stably sorted by time),
  \<open>Discovery.discovery_count_bound\<close>, \<open>Pipeline.disabled_roundtrip\<close> (the round trip
  on values), \<open>Geometry.distance_zero_symmetric\<close>, \<open>Geometry.distance_bounds\<close> (the range
  of the distance), \<open>Pipeline.enhance_never_grows\<close> and \<open>Cost.stationary_reads\<close>.
  Evaluations on fixed inputs, which document the findings below:
  \<open>transient_track_gap\<close>, \<open>scenario_C_visit_travel_visit\<close>,
  \<open>scenario_D_three_point_cluster\<close>, \<open>zigzag_forms_visit\<close>,
  \<open>getter_ignores_enabled_clustering\<close>, \<open>GeoName.swedish_track_unrecognised\<close> and
  \<open>Debug.debug_real_data_report\<close>.

  \<^bold>\<open>Findings.\<close>
  \<^item> The spec (section 3, section 8 "Coverage") says every index belongs to exactly one
    cluster. The code skips transient points inside a visit: they belong to no cluster and
    never reach the output (\<open>transient_track_gap\<close>). On the debug script's 30 recorded
    points, 10 belong to no cluster (\<open>Debug.debug_real_data_report\<close>).
  \<^item> With clustering enabled, a device with a single point gets an empty list
    (\<open>Pipeline.single_point_dropped\<close>).
  \<^item> The store's getter calls \<open>enhanceLocationData\<close> without a configuration, so the
    clustering settings written by the mutations are never used
    (\<open>Store.getter_never_clusters\<close>, \<open>getter_ignores_enabled_clustering\<close>).
  \<^item> When the third consecutive fetch times out, \<open>processRequestQueue\<close> opens the breaker,
    rejects the queued requests and leaves the loop with \<open>break\<close> (line 530). The callbacks
    of the request that failed are never rejected; only their own 30 s timers settle them
    (\<open>GeoQueue.breaker_trip_strands_inflight\<close>).
  \<^item> The comment of the rate limiter (line 322) promises one request per 5 seconds. The code
    waits 500 ms (\<open>MIN_REQUEST_INTERVAL\<close>), and that is the spacing proved
    (\<open>GeoQueue.requests_spaced\<close>).
  \<^item> The Swedish alternative of line 158 was saved double-encoded (\<open>sp\<close>, \<open>0xC3 0xA5\<close>,
    \<open>r\<close>), so Swedish track names are not recognised as specific locations
    (\<open>GeoName.swedish_track_never_specific\<close>, \<open>GeoName.swedish_track_unrecognised\<close>).
  \<^item> The spec (section 5) says the runtime is linear in the number of points, and its
    section 9 asks for an accumulated centroid for that reason. The code recomputes the
    mean of all members at every absorption (lines 250--257), so a dwell of \<open>k\<close> points
    costs \<open>2 + \<dots> + k\<close> member reads (\<open>Cost.discovery_cost\<close>, \<open>Cost.stationary_reads\<close>).
  \<^item> Any failed lookup (network error, HTTP error, invalid or error reply) is cached as
    \<open>null\<close>, so that place is never named until the cache is cleared
    (\<open>failed_lookup_cached_as_null\<close>).
  \<^item> The comment of \<open>legacyReverseGeocodeWithRateLimit\<close> (line 566) says "not rate
    limited", while the function sleeps until 500 ms after the last request. It spaces
    sequential calls only: concurrent calls compute the same wake-up time and fetch
    together (\<open>GeoLegacy.legacy_concurrent_unspaced\<close>), and since it writes the shared
    \<open>lastRequestTime\<close>, a legacy fetch and a queue fetch can coincide
    (\<open>GeoLegacy.queue_and_legacy_collide\<close>). The function is dead code.
  \<^item> The travel fallback takes \<open>minVisitClusterSize - 1\<close> points at a time, so a dwell
    that follows a short travel stretch can lose its first point to it. On the demo's own
    data the first Central Park point is output as a travel point
    (\<open>Demo.demo_dwell_start_as_travel\<close>).
  \<^item> \<open>toFixed(4)\<close> keeps the sign of a negative coordinate that rounds to zero, so
    places a few metres apart across the equator or the prime meridian get different
    cache keys (\<open>cache_key_signed_zero\<close>).
  \<^item> The debug script's "Full Pipeline Test" calls \<open>enhanceLocationData\<close> without a
    configuration (line 20), so clustering is off and it reports 0 visit and 0 travel
    points whatever the data; only its raw discovery shows the clusters
    (\<open>Debug.debug_real_data_report\<close>).
  \<^item> The demo's jitter of up to \<open>0.00005\<close> degrees puts points of one place up to about
    14 m apart, more than its own 10 m radius: for some results of \<open>Math.random()\<close> the
    Central Park visit is not found (\<open>Demo.demo_jitter_loses_park_visit\<close>).
  \<^item> The spec (section 5) describes the engine as pure. \<open>enhanceLocationData\<close> writes
    \<open>null\<close> into the four metadata fields of the caller's point objects (lines 27--36),
    and with clustering disabled returns the caller's own history object
    (\<open>Aliasing.enhance_resets_caller_objects\<close>). The store's getter passes
    \<open>state.locationHistory\<close>, so every evaluation of the getter writes into the
    store's state outside a mutation (\<open>Aliasing.getter_writes_store_objects\<close>).

  \<^bold>\<open>Concrete inputs.\<close> The witnesses use tracks whose points are at \<open>(0, 0)\<close> or
  \<open>(0, 180)\<close>. For these the Haversine distance is exactly \<open>0\<close> or \<open>pi \<cdot> 6371000\<close>
  (\<open>calculateDistanceInMeters_antipodal\<close>), so the whole pipeline evaluates by \<open>simp\<close> with
  the rules in \<open>model_simps\<close>. The end-to-end evaluation \<open>transient_track_enhanced\<close> is
  split into stages (lookup, sort, discovery, merge and materialisation), each a lemma, so
  that each \<open>simp\<close> call works on a small concrete term. The demo data lies near New York;
  there the points of one place coincide, so their distance is \<open>0\<close>, and points of
  different places differ by at least \<open>0.004\<close> degrees of latitude, so they are more than
  250 m apart (\<open>calculateDistanceInMeters_far_lat\<close>). Points at arbitrary decimal
  coordinates (the debug script's recorded data, the jittered demo) are compared with the
  radius by the enclosures of \<open>Enclosure\<close>: a comparison is decided when the rational
  upper bound is within the radius or the rational lower bound beyond it. The bounds are
  instantiated per latitude band (\<open>cos_lat_le\<close>, \<open>cos_lat_ge\<close>): 55.87--55.89 degrees
  for the debug data, 40.75--40.79 degrees for the demo. Every comparison these runs make
  is decided, since none lies within 16 per cent of the radius and the enclosures are
  tighter than 2 per cent there.

  \<^bold>\<open>Bounds and fuel.\<close> No fuel is used. Every loop is a \<open>function\<close> with a termination
  proof: \<open>skipScan\<close> by \<open>hi - k\<close>, \<open>growVisit\<close> by \<open>length - j\<close>, \<open>findLoop\<close>,
  \<open>mergeLoop\<close>, \<open>travelRun\<close> and \<open>findNextVisitStart\<close> by \<open>length - i\<close>. The
  backward scan \<open>findPrevVisitEnd\<close> and the \<open>forEach\<close> passes are structural recursions
  or folds. The geocoding loop \<open>advance\<close> terminates by the queue length, since each
  iteration shifts one request. Time is an integer (milliseconds of \<open>Date.now()\<close>).
  The liveness proof (\<open>GeoQueue.geo_drains\<close>) is an induction on twice the queue length,
  plus one while the loop sleeps. A whole processing run, which spans many events and
  during which the queue may grow, ends because of the cap \<open>maxProcessingAttempts\<close>
  (50): its variant \<open>GeoLoop.run_rank\<close> is at most 102. The cost bounds of C29 count
  every distance evaluation of the three discovery loops, which the lookahead window of
  \<open>minTravelClusterSize + 1\<close> points keeps linear, and apart from them every member
  re-read by the centroid recomputation, which is quadratic; additions, comparisons and
  the sort are not counted.

  \<^bold>\<open>Not modelled.\<close> In the name extraction, reply fields that are not strings, and code units above 255, are
  outside the model, and so is the request URL. The HTTP fetch is the environment: its
  result is chosen by the event \<open>FetchDone\<close>, and a fetch abandoned by the 15 s race
  writes the cache later (\<open>OrphanDone\<close>). The \<open>.catch\<close> of \<open>processRequestQueue\<close>
  (nothing in the loop throws) is left out. Not modelled at all: IEEE rounding and \<open>NaN\<close>
  (numbers are reals and integers), console logging, object identity outside
  \<open>Aliasing\<close> (the other theories work on values; the debug script sorts its data after
  the in-place reset, which writes the values the data already has), the \<open>toFixed\<close>
  formatting of the debug script's output, and build configuration (\<open>vite.config*.js\<close>: bundler settings,
  no behaviour of the program).
\<close>

definition fix_at :: "real \<Rightarrow> real \<Rightarrow> int \<Rightarrow> location" where
  "fix_at la lo t =
     \<lparr>lat = la, lon = lo, tst = Some t, timestamp = None, acc = None, node_event_type = None,
      node_event_id = None, node_event_start = None, node_event_end = None\<rparr>"

text \<open>A dwell at \<open>(0, 0)\<close> interrupted by one excursion to \<open>(0, 180)\<close>, then a final
  distant fix.\<close>

definition transient_track :: "location list" where
  "transient_track = [fix_at 0 0 1, fix_at 0 0 2, fix_at 0 180 3, fix_at 0 0 4, fix_at 0 180 5]"

declare fix_at_def [model_simps] transient_track_def [model_simps]

lemma transient_track_clusters:
  "findLocationClusters calculateDistanceInMeters transient_track 20 3 5 =
    [\<lparr>ctype = Visit, pointIndices = [0, 1, 3], startTime = 1, endTime = 4,
       centerLat = Some 0, centerLon = Some 0, travelStartTime = None, travelEndTime = None\<rparr>,
     \<lparr>ctype = Travel, pointIndices = [4], startTime = 5, endTime = 5,
       centerLat = None, centerLon = None, travelStartTime = None, travelEndTime = None\<rparr>]"
  by (simp add: model_simps)

subsection \<open>Witnesses\<close>

theorem discovery_partition_witness:
  "2 \<le> length transient_track \<and>
   concat (map cluster_span (findLocationClusters calculateDistanceInMeters transient_track 20 3 5)) =
     [0..<length transient_track] \<and>
   sorted_wrt (<) (concat (map pointIndices (findLocationClusters calculateDistanceInMeters transient_track 20 3 5)))"
  using discovery_partition [of transient_track calculateDistanceInMeters 20 3 5]
  by (simp add: transient_track_def)

theorem discovery_gaps_inside_visits_witness:
  "2 \<le> length transient_track \<and> (2::nat) < length transient_track \<and>
   2 \<notin> set (concat (map pointIndices (findLocationClusters calculateDistanceInMeters transient_track 20 3 5))) \<and>
   (\<exists>c\<in>set (findLocationClusters calculateDistanceInMeters transient_track 20 3 5).
      ctype c = Visit \<and> hd (pointIndices c) < 2 \<and> 2 < last (pointIndices c))"
proof -
  have h: "2 \<le> length transient_track" "(2::nat) < length transient_track"
    "2 \<notin> set (concat (map pointIndices (findLocationClusters calculateDistanceInMeters transient_track 20 3 5)))"
    by (simp_all add: transient_track_clusters) (simp add: transient_track_def)+
  show ?thesis
    using h discovery_gaps_inside_visits [OF h] by blast
qed

theorem visit_clusters_min_size_witness:
  "ctype (hd (findLocationClusters calculateDistanceInMeters transient_track 20 3 5)) = Visit \<and>
   3 \<le> length (pointIndices (hd (findLocationClusters calculateDistanceInMeters transient_track 20 3 5)))"
proof -
  have "hd (findLocationClusters calculateDistanceInMeters transient_track 20 3 5)
          \<in> set (findLocationClusters calculateDistanceInMeters transient_track 20 3 5)"
    and v: "ctype (hd (findLocationClusters calculateDistanceInMeters transient_track 20 3 5)) = Visit"
    by (simp_all add: transient_track_clusters)
  with visit_clusters_min_size [of calculateDistanceInMeters transient_track 20 3 5] show ?thesis
    by blast
qed

theorem travel_clusters_run_witness:
  "ctype (findLocationClusters calculateDistanceInMeters transient_track 20 3 5 ! 1) = Travel \<and>
   pointIndices (findLocationClusters calculateDistanceInMeters transient_track 20 3 5 ! 1) =
     [4..<min (4 + (3 - 1)) (length transient_track)] \<and>
   length (pointIndices (findLocationClusters calculateDistanceInMeters transient_track 20 3 5 ! 1)) =
     min (3 - 1) (length transient_track - 4)"
proof -
  let ?c = "findLocationClusters calculateDistanceInMeters transient_track 20 3 5 ! 1"
  have "?c \<in> set (findLocationClusters calculateDistanceInMeters transient_track 20 3 5)"
    and t: "ctype ?c = Travel" and h: "hd (pointIndices ?c) = 4"
    by (simp_all add: transient_track_clusters)
  with travel_clusters_run [of calculateDistanceInMeters transient_track 20 3 5] show ?thesis
    by auto
qed

theorem cluster_time_bounds_witness:
  "startTime (hd (findLocationClusters calculateDistanceInMeters transient_track 20 3 5)) =
     point_time (transient_track ! 0) \<and>
   endTime (hd (findLocationClusters calculateDistanceInMeters transient_track 20 3 5)) =
     point_time (transient_track ! 3)"
proof -
  let ?c = "hd (findLocationClusters calculateDistanceInMeters transient_track 20 3 5)"
  have "?c \<in> set (findLocationClusters calculateDistanceInMeters transient_track 20 3 5)"
    and "hd (pointIndices ?c) = 0" and "last (pointIndices ?c) = 3"
    by (simp_all add: transient_track_clusters)
  with cluster_time_bounds [of calculateDistanceInMeters transient_track 20 3 5] show ?thesis
    by auto
qed

theorem distance_bounds_witness:
  "\<bar>fst ((0::real), (0::real))\<bar> \<le> 90 \<and> \<bar>fst ((0::real), (180::real))\<bar> \<le> 90 \<and>
   0 \<le> calculateDistanceInMeters (0, 0) (0, 180) \<and>
   calculateDistanceInMeters (0, 0) (0, 180) \<le> 6371000 * pi"
  using distance_bounds [of "(0, 0)" "(0, 180)"] by simp

text \<open>One user with one phone that recorded \<open>transient_track\<close>, and the enabled
  configuration with all options at their defaults.\<close>

definition transient_history :: "unit history" where
  "transient_history = [(''alice'', [(''phone'', transient_track)])]"

definition enabled_config :: clustering_config where
  "enabled_config = default_config\<lparr>enabled := True\<rparr>"

declare transient_history_def [model_simps] enabled_config_def [model_simps]

lemma transient_history_phone:
  "device_points transient_history ''alice'' ''phone'' = Some transient_track"
  by (simp add: transient_history_def device_points_def)

lemma transient_enhanced_device:
  "device_points (enhanceLocationData transient_history enabled_config) ''alice'' ''phone'' =
   Some (clusterDevice 20 3 7 (map resetEventMetadata transient_track))"
  using transient_history_phone
  by (simp add: device_points_enhance enabled_config_def default_config_def)

lemma transient_reset_sorted:
  "sort_key point_time (map resetEventMetadata transient_track) = map resetEventMetadata transient_track"
  by (simp add: transient_track_def fix_at_def resetEventMetadata_def point_time_def)

lemma transient_reset_clusters:
  "findLocationClusters calculateDistanceInMeters (map resetEventMetadata transient_track) 20 3 7 =
    [\<lparr>ctype = Visit, pointIndices = [0, 1, 3], startTime = 1, endTime = 4,
       centerLat = Some 0, centerLon = Some 0, travelStartTime = None, travelEndTime = None\<rparr>,
     \<lparr>ctype = Travel, pointIndices = [4], startTime = 5, endTime = 5,
       centerLat = None, centerLon = None, travelStartTime = None, travelEndTime = None\<rparr>]"
  by (simp add: model_simps)

lemma transient_enhanced_points:
  "processClusterToLocations (mergeConsecutiveTravelClusters
     [\<lparr>ctype = Visit, pointIndices = [0, 1, 3], startTime = 1, endTime = 4,
       centerLat = Some 0, centerLon = Some 0, travelStartTime = None, travelEndTime = None\<rparr>,
     \<lparr>ctype = Travel, pointIndices = [4], startTime = 5, endTime = 5,
       centerLat = None, centerLon = None, travelStartTime = None, travelEndTime = None\<rparr>])
     (map resetEventMetadata transient_track) =
   [\<lparr>lat = 0, lon = 0, tst = Some 1, timestamp = None, acc = None,
          node_event_type = Some Visit, node_event_id = Some 1,
          node_event_start = Some 1, node_event_end = Some 4\<rparr>,
         \<lparr>lat = 0, lon = 180, tst = Some 5, timestamp = None, acc = None,
          node_event_type = Some Travel, node_event_id = Some 1,
          node_event_start = Some 4, node_event_end = Some 5\<rparr>]"
  by (simp add: model_simps)

lemma transient_track_enhanced:
  "device_points (enhanceLocationData transient_history enabled_config) ''alice'' ''phone'' =
   Some [\<lparr>lat = 0, lon = 0, tst = Some 1, timestamp = None, acc = None,
          node_event_type = Some Visit, node_event_id = Some 1,
          node_event_start = Some 1, node_event_end = Some 4\<rparr>,
         \<lparr>lat = 0, lon = 180, tst = Some 5, timestamp = None, acc = None,
          node_event_type = Some Travel, node_event_id = Some 1,
          node_event_start = Some 4, node_event_end = Some 5\<rparr>]"
  by (simp only: transient_enhanced_device clusterDevice_def Let_def transient_reset_sorted
        transient_reset_clusters transient_enhanced_points)

theorem travel_backfill_witness:
  "1 < length (findLocationClusters calculateDistanceInMeters transient_track 20 3 5) \<and>
   ctype (findLocationClusters calculateDistanceInMeters transient_track 20 3 5 ! 1) = Travel \<and>
   travelStartTime (setTravelTiming (findLocationClusters calculateDistanceInMeters transient_track 20 3 5) ! 1) = Some 4 \<and>
   travelEndTime (setTravelTiming (findLocationClusters calculateDistanceInMeters transient_track 20 3 5) ! 1) = Some 5"
  using travel_backfill [of 1 "findLocationClusters calculateDistanceInMeters transient_track 20 3 5"]
  by (simp add: transient_track_clusters prev_visit_end_def next_visit_start_def)

theorem visit_point_summary_witness:
  "pointIndices (hd (findLocationClusters calculateDistanceInMeters transient_track 20 3 5)) \<noteq> [] \<and>
   lat (visitPoint transient_track (hd (findLocationClusters calculateDistanceInMeters transient_track 20 3 5)) 1) = 0 \<and>
   point_time (visitPoint transient_track (hd (findLocationClusters calculateDistanceInMeters transient_track 20 3 5)) 1) = 1 \<and>
   node_event_end (visitPoint transient_track (hd (findLocationClusters calculateDistanceInMeters transient_track 20 3 5)) 1) = Some 4"
  using visit_point_summary [of "hd (findLocationClusters calculateDistanceInMeters transient_track 20 3 5)"
      transient_track 1]
  unfolding transient_track_clusters by (simp add: transient_track_def fix_at_def mean_def point_time_def)

theorem disabled_roundtrip_witness:
  "\<not> enabled default_config \<and>
   map fst (enhanceLocationData transient_history default_config) = [''alice''] \<and>
   device_points (enhanceLocationData transient_history default_config) ''alice'' ''phone'' =
     Some (map resetEventMetadata transient_track)"
  using disabled_roundtrip [of default_config transient_history "''alice''" "''phone''"]
  by (simp add: default_config_def transient_history_def device_points_def)

definition single_fix_history :: "unit history" where
  "single_fix_history = [(''alice'', [(''phone'', [fix_at 0 0 1])])]"

theorem single_point_dropped_witness:
  "enabled enabled_config \<and>
   device_points single_fix_history ''alice'' ''phone'' = Some [fix_at 0 0 1] \<and>
   device_points (enhanceLocationData single_fix_history enabled_config) ''alice'' ''phone'' = Some []"
  using single_point_dropped [of enabled_config single_fix_history "''alice''" "''phone''" "fix_at 0 0 1"]
  by (simp add: enabled_config_def default_config_def single_fix_history_def device_points_def)

theorem enhance_never_grows_witness:
  "device_points transient_history ''alice'' ''phone'' = Some transient_track \<and>
   (\<exists>qs. device_points (enhanceLocationData transient_history enabled_config) ''alice'' ''phone'' = Some qs \<and>
         length qs \<le> length transient_track)"
  using enhance_never_grows [of transient_history "''alice''" "''phone''" transient_track enabled_config]
  by (simp add: transient_history_def device_points_def)

text \<open>A store holding \<open>transient_history\<close>, with clustering disabled.\<close>

definition demo_state :: "unit store_state" where
  "demo_state =
     \<lparr>isLoading = False, recorderVersion = ''0.9.9'', users = [''alice''],
      devices = [(''alice'', [''phone''])], lastLocations = [], locationHistory = transient_history,
      selectedUser = Some ''alice'', selectedDevice = Some ''phone'',
      startDateTime = [], endDateTime = [], mapCenter = (0, 0), mapZoom = 19,
      mapLayers = Map.empty, distanceTravelled = 0, elevationGain = 0, elevationLoss = 0,
      requestAbortController = None, clustering = default_config\<rparr>"

lemma demo_state_groups:
  "filteredLocationHistoryLatLngGroups calculateDistanceInMeters (Some 1000) None demo_state =
   [[(0, 0), (0, 0)], [(0, 180)], [(0, 0)], [(0, 180)]]"
  by (simp add: model_simps demo_state_def)

theorem getter_stable_under_mutations_witness:
  "(\<forall>h. SET_CLUSTERING_ENABLED True \<noteq> SET_LOCATION_HISTORY h) \<and>
   filteredLocationHistory None (commit demo_state (SET_CLUSTERING_ENABLED True)) =
     filteredLocationHistory None demo_state"
  using getter_stable_under_mutations [of "SET_CLUSTERING_ENABLED True" None demo_state] by simp

theorem latlng_groups_close_witness:
  "0 < (1000::real) \<and>
   close_chain calculateDistanceInMeters 1000
     (hd (filteredLocationHistoryLatLngGroups calculateDistanceInMeters (Some 1000) None demo_state))"
  using latlng_groups_close [of 1000 calculateDistanceInMeters None demo_state]
  unfolding demo_state_groups by simp

text \<open>Three fixes at one place, recorded out of order.\<close>

definition stationary_track :: "location list" where
  "stationary_track = [fix_at 0 0 3, fix_at 0 0 1, fix_at 0 0 2]"

theorem stationary_single_visit_witness:
  "2 \<le> length stationary_track \<and> 3 \<le> length stationary_track \<and>
   (\<exists>v. clusterDevice 20 3 7 stationary_track = [v] \<and> node_event_type v = Some Visit \<and>
        coord v = (0, 0) \<and> node_event_id v = Some 1 \<and>
        node_event_start v = Some 1 \<and> node_event_end v = Some 3)"
proof -
  have h: "2 \<le> length stationary_track" "3 \<le> length stationary_track" "0 \<le> (20::real)"
    "\<forall>p\<in>set stationary_track. coord p = (0, 0)"
    by (simp_all add: stationary_track_def fix_at_def)
  have "point_time ` set stationary_track = {1, 2, 3}"
    by (auto simp: stationary_track_def fix_at_def point_time_def)
  with stationary_single_visit [OF h, of 7] h(1,2) show ?thesis by simp
qed

subsection \<open>Scenarios of the spec\<close>

text \<open>Three places on the equator: \<open>(0, 0)\<close>, \<open>(0, 90)\<close> and \<open>(0, 180)\<close>, a quarter
  and a half of a great circle apart (\<open>calculateDistanceInMeters_quarter\<close>,
  \<open>calculateDistanceInMeters_antipodal\<close>).\<close>

definition scenario_C_track :: "location list" where
  "scenario_C_track = [fix_at 0 0 1, fix_at 0 0 2, fix_at 0 0 3, fix_at 0 90 4, fix_at 0 90 5,
     fix_at 0 180 6, fix_at 0 180 7, fix_at 0 180 8]"

definition scenario_D_track :: "location list" where
  "scenario_D_track = [fix_at 0 0 1, fix_at 0 0 2, fix_at 0 0 3, fix_at 0 180 4, fix_at 0 180 5,
     fix_at 0 180 6, fix_at 0 180 7, fix_at 0 0 8, fix_at 0 180 9]"

definition spread_track :: "location list" where
  "spread_track = map (\<lambda>k. fix_at (real k / 100) 0 (int k)) [0..<6]"

definition zigzag_track :: "location list" where
  "zigzag_track = [fix_at 0 0 1, fix_at 0 180 2, fix_at 0 0 3, fix_at 0 180 4, fix_at 0 0 5,
     fix_at 0 180 6]"

text \<open>
  Scenario C (spec, section 8): two groups of three points separated by two distant
  points give the clusters visit, travel, visit (radius 40, minVisit 3, minTravel 5).
\<close>

theorem scenario_C_visit_travel_visit:
  "map ctype (mergeConsecutiveTravelClusters
      (findLocationClusters calculateDistanceInMeters scenario_C_track 40 3 5)) = [Visit, Travel, Visit] \<and>
   map pointIndices (mergeConsecutiveTravelClusters
      (findLocationClusters calculateDistanceInMeters scenario_C_track 40 3 5)) = [[0, 1, 2], [3, 4], [5, 6, 7]]"
  by (simp add: model_simps scenario_C_track_def)

text \<open>
  Scenario D (spec, section 8) says that a 3-point cluster, 4 transient points, one
  return point and one final distant point collapse into one travel cluster. With the
  three cluster points at one place, the code forms a visit of four points (the three and
  the return point) and a travel cluster for the final point.
\<close>

theorem scenario_D_three_point_cluster:
  "map ctype (mergeConsecutiveTravelClusters
      (findLocationClusters calculateDistanceInMeters scenario_D_track 40 3 5)) = [Visit, Travel] \<and>
   map pointIndices (mergeConsecutiveTravelClusters
      (findLocationClusters calculateDistanceInMeters scenario_D_track 40 3 5)) = [[0, 1, 2, 7], [8]]"
  by (simp add: model_simps scenario_D_track_def)

text \<open>
  Scenario B (spec, section 8) says six points, each at least 100 m from the previous,
  give only travel clusters. A track that goes back and forth between two places meets
  that condition, yet the lookahead builds a visit from every other point: the clusters
  are a visit \<open>[0, 2, 4]\<close> and a travel cluster \<open>[5]\<close>, and points 1 and 3 are dropped.
\<close>

theorem zigzag_forms_visit:
  "list_all (\<lambda>(p, q). 100 < calculateDistanceInMeters (coord p) (coord q))
     (zip zigzag_track (tl zigzag_track)) \<and>
   map ctype (mergeConsecutiveTravelClusters
      (findLocationClusters calculateDistanceInMeters zigzag_track 20 3 5)) = [Visit, Travel] \<and>
   map pointIndices (mergeConsecutiveTravelClusters
      (findLocationClusters calculateDistanceInMeters zigzag_track 20 3 5)) = [[0, 2, 4], [5]]"
  by (simp add: model_simps zigzag_track_def)

text \<open>Six points spread north in steps of \<open>0.01\<close> degrees of latitude, more than 1 km
  apart from each other: discovery with radius 20 m finds only travel clusters.\<close>

theorem separated_track_all_travel_witness:
  "list_all (\<lambda>c. ctype c = Travel) (findLocationClusters calculateDistanceInMeters spread_track 20 3 5)"
proof -
  have h: "\<forall>i j. i < j \<and> j \<le> Suc i + 5 \<and> j < length spread_track \<longrightarrow>
      20 < calculateDistanceInMeters (coord (spread_track ! i)) (coord (spread_track ! j))"
  proof (intro allI impI)
    fix i j :: nat assume a: "i < j \<and> j \<le> Suc i + 5 \<and> j < length spread_track"
    then have ij: "real i + 1 \<le> real j" and j6: "real j < 6" by (simp_all add: spread_track_def)
    have "\<not> calculateDistanceInMeters (real i / 100, 0) (real j / 100, 0) \<le> 20"
      using ij j6 by (intro calculateDistanceInMeters_far_lat) simp_all
    then show "20 < calculateDistanceInMeters (coord (spread_track ! i)) (coord (spread_track ! j))"
      using a by (simp add: spread_track_def fix_at_def not_le)
  qed
  show ?thesis using separated_track_all_travel [OF _ h, where mv = 3] by (simp add: list_all_iff)
qed

subsection \<open>Geocoding: the name extraction inside the queue\<close>

text \<open>C8: a lookup that fails (an HTTP status outside 200--299) is cached as \<open>null\<close> under
  the request's key, and the next call for the same place, with the breaker closed,
  resolves to \<open>null\<close> from the cache without queueing a new request: the failure is not
  retried until the cache is cleared.\<close>

theorem failed_lookup_cached_as_null:
  assumes "\<not> (200 \<le> status \<and> status < 300)" "cacheKeyOf la lo = cacheKey r"
    "\<not> circuitBreakerOpen s"
    "settled (fetchDone (reverseGeocodeBody (Response status body)) now r s) cb = None"
  shows "map_of (geocodingCache (fetchDone (reverseGeocodeBody (Response status body)) now r s)) (cacheKey r) =
           Some None \<and>
         settled (reverseGeocodeWithRateLimit cb la lo t
                    (fetchDone (reverseGeocodeBody (Response status body)) now r s)) cb =
           Some (Resolved None) \<and>
         requestQueue (reverseGeocodeWithRateLimit cb la lo t
                    (fetchDone (reverseGeocodeBody (Response status body)) now r s)) =
           requestQueue (fetchDone (reverseGeocodeBody (Response status body)) now r s)"
proof -
  have "reverseGeocodeBody (Response status body) = None"
    using assms(1) by (simp add: reverseGeocodeBody_def)
  then show ?thesis
    using assms fetchDone_cache [of "reverseGeocodeBody (Response status body)" now r s]
    by (simp add: reverseGeocodeWithRateLimit_def settle_def update_conv' Let_def)
qed

theorem failed_lookup_cached_as_null_witness:
  "phase (the (geo_run (geo_init 0) [Call 1 0 0 1000])) =
     Fetching \<lparr>reqLat = 0, reqLon = 0, cacheKey = cacheKeyOf 0 0, callbacks = [1]\<rparr> \<and>
   settled (reverseGeocodeWithRateLimit 2 0 0 3000
     (fetchDone (reverseGeocodeBody (Response 503 JsonNull)) 2000
        \<lparr>reqLat = 0, reqLon = 0, cacheKey = cacheKeyOf 0 0, callbacks = [1]\<rparr>
        (the (geo_run (geo_init 0) [Call 1 0 0 1000])))) 2 = Some (Resolved None)"
  using failed_lookup_cached_as_null [of 503 0 0
      "\<lparr>reqLat = 0, reqLon = 0, cacheKey = cacheKeyOf 0 0, callbacks = [1]\<rparr>"
      "the (geo_run (geo_init 0) [Call 1 0 0 1000])" JsonNull 2000 2 3000]
  by (simp add: geo_eval)

text \<open>The cache key keeps the sign of a coordinate that rounds to zero:
  \<open>(-0.00001).toFixed(4)\<close> is \<open>"-0.0000"\<close> and \<open>(0.00001).toFixed(4)\<close> is
  \<open>"0.0000"\<close>. Two places about 2 m apart on either side of the equator (or of the prime
  meridian) get different keys, so they are cached and fetched separately.\<close>

lemma cache_key_signed_zero:
  "toFixed4 (- 0.00001) = (True, 0) \<and> toFixed4 0.00001 = (False, 0) \<and>
   cacheKeyOf (- 0.00001) lo \<noteq> cacheKeyOf 0.00001 lo"
  by (simp add: cacheKeyOf_def toFixed4_def)

subsection \<open>Findings\<close>

text \<open>
  The transient fix at index 2 of \<open>transient_track\<close> lies in no cluster. It is skipped by
  the lookahead of the visit \<open>[0, 1, 3]\<close>, so the spec's coverage invariant fails.
\<close>

theorem transient_track_gap:
  "2 \<notin> set (concat (map pointIndices (findLocationClusters calculateDistanceInMeters transient_track 20 3 5)))"
  by (simp add: transient_track_clusters)

text \<open>
  Clustering cannot be switched on from the store: after \<open>SET_CLUSTERING_ENABLED true\<close>
  the getter \<open>filteredLocationHistory\<close> still returns the five raw points of
  \<open>transient_history\<close>, while \<open>enhanceLocationData\<close> called with that configuration
  reduces them to one visit point and one travel point.
\<close>

theorem getter_ignores_enabled_clustering:
  "enabled (clustering (commit demo_state (SET_CLUSTERING_ENABLED True))) \<and>
   device_points (filteredLocationHistory None (commit demo_state (SET_CLUSTERING_ENABLED True)))
     ''alice'' ''phone'' = Some (map resetEventMetadata transient_track) \<and>
   length (the (device_points (enhanceLocationData transient_history
     (clustering (commit demo_state (SET_CLUSTERING_ENABLED True)))) ''alice'' ''phone'')) = 2"
proof -
  have cfg: "clustering (commit demo_state (SET_CLUSTERING_ENABLED True)) = enabled_config"
    by (simp add: demo_state_def enabled_config_def)
  have "device_points (filteredLocationHistory None (commit demo_state (SET_CLUSTERING_ENABLED True)))
          ''alice'' ''phone'' = Some (map resetEventMetadata transient_track)"
    by (simp add: filteredLocationHistory_device demo_state_def transient_history_phone accuracyOk_def)
  moreover have "enabled (clustering (commit demo_state (SET_CLUSTERING_ENABLED True)))"
    by (simp add: demo_state_def)
  moreover have "length (the (device_points (enhanceLocationData transient_history enabled_config)
                   ''alice'' ''phone'')) = 2"
    by (simp add: transient_track_enhanced)
  ultimately show ?thesis by (simp only: cfg)
qed

end
